(* ===== verification/Prelude.thy ===== *)
theory Prelude
  imports
    Main
    "HOL-Library.Word"
    "HOL-Library.Signed_Division"
    "HOL-Library.Multiset"
begin

text \<open>
  What every component of the gateway shares: the clock, the containers of the C++ standard
  library as HOL maps and lists, 32-bit signed arithmetic, the substring operations of
  \<^verbatim>\<open>std::string\<close>, and the locale \<open>stepper\<close> that lifts an invariant of one operation to every
  sequence of operations.
\<close>

named_theorems gw_simps \<open>unfoldings of small accessors used by the component proofs\<close>

section \<open>Clock\<close>

text \<open>
  A \<^verbatim>\<open>steady_clock::time_point\<close> is its number of nanoseconds since the clock's epoch, and a default
  constructed one is the epoch, 0. \<^verbatim>\<open>duration_cast<seconds>\<close> divides by \<open>10 ^ 9\<close> and truncates
  towards zero, which is \<open>sdiv\<close>.
\<close>

type_synonym time_point = int

definition ns_per_sec :: int where
  "ns_per_sec = 1000000000"

definition secs_between :: "time_point \<Rightarrow> time_point \<Rightarrow> int" where
  "secs_between later earlier = (later - earlier) sdiv ns_per_sec"

definition plus_secs :: "time_point \<Rightarrow> int \<Rightarrow> time_point" where
  "plus_secs t s = t + s * ns_per_sec"

lemma ns_per_sec_pos [simp]: "0 < ns_per_sec"
  by (simp add: ns_per_sec_def)

lemma sdiv_nonneg: "0 \<le> (a::int) \<Longrightarrow> 0 < b \<Longrightarrow> a sdiv b = a div b"
  by (cases "a = 0") (simp_all add: signed_divide_int_def)

lemma sdiv_neg_le: "(a::int) < 0 \<Longrightarrow> 0 < b \<Longrightarrow> a sdiv b \<le> 0"
  by (simp add: signed_divide_int_def pos_imp_zdiv_nonneg_iff)

lemma le_div_ns:
  "k \<le> x div ns_per_sec \<longleftrightarrow> k * ns_per_sec \<le> x"
proof
  assume "k \<le> x div ns_per_sec"
  then have "k * ns_per_sec \<le> (x div ns_per_sec) * ns_per_sec"
    by (simp add: mult_right_mono)
  also have "\<dots> \<le> x"
    by (simp add: minus_mod_eq_div_mult [symmetric])
  finally show "k * ns_per_sec \<le> x" .
next
  assume "k * ns_per_sec \<le> x"
  then have "(k * ns_per_sec) div ns_per_sec \<le> x div ns_per_sec"
    by (rule zdiv_mono1) simp
  then show "k \<le> x div ns_per_sec" by (simp add: ns_per_sec_def)
qed

lemma secs_between_ge:
  assumes "0 < k"
  shows "k \<le> secs_between l e \<longleftrightarrow> k * ns_per_sec \<le> l - e"
proof (cases "e \<le> l")
  case True
  then have "secs_between l e = (l - e) div ns_per_sec"
    by (simp add: secs_between_def sdiv_nonneg)
  then show ?thesis
    by (simp add: le_div_ns)
next
  case False
  then have "secs_between l e \<le> 0"
    by (simp add: secs_between_def sdiv_neg_le)
  moreover have "\<not> k * ns_per_sec \<le> l - e"
    using False assms by (smt (verit) mult_pos_pos ns_per_sec_pos)
  ultimately show ?thesis using assms by linarith
qed

lemma secs_between_gt:
  assumes "0 \<le> k"
  shows "k < secs_between l e \<longleftrightarrow> (k + 1) * ns_per_sec \<le> l - e"
  using secs_between_ge [of "k + 1" l e] assms by linarith

lemma secs_between_self [simp]: "secs_between t t = 0"
  by (simp add: secs_between_def)

section \<open>Containers\<close>

text \<open>
  An \<^verbatim>\<open>unordered_map\<close> is a HOL map. The order in which it is iterated is not specified by the
  standard; a loop over it takes the order as a list of keys, and \<open>iterates ks m\<close> says that
  \<open>ks\<close> is such an order: every key once.
\<close>

definition iterates :: "'k list \<Rightarrow> ('k \<rightharpoonup> 'v) \<Rightarrow> bool" where
  "iterates ks m \<longleftrightarrow> distinct ks \<and> set ks = dom m"

definition vals :: "'k list \<Rightarrow> ('k \<rightharpoonup> 'v) \<Rightarrow> 'v list" where
  "vals ks m = List.map_filter m ks"

text \<open>
  The key order a removal leaves behind: \<open>remove1\<close> of the key.
\<close>

lemma iterates_empty [simp]: "iterates [] Map.empty"
  by (simp add: iterates_def)

lemma iterates_delete: "iterates ks m \<Longrightarrow> iterates (remove1 k ks) (m(k := None))"
  by (auto simp: iterates_def)

lemma iterates_insert: "iterates ks m \<Longrightarrow> m k = None \<Longrightarrow> iterates (k # ks) (m(k \<mapsto> v))"
  by (auto simp: iterates_def)

lemma iterates_update: "iterates ks m \<Longrightarrow> m k \<noteq> None \<Longrightarrow> iterates ks (m(k \<mapsto> v))"
  by (auto simp: iterates_def)

lemma set_vals: "set (vals ks m) = {v. \<exists>k \<in> set ks. m k = Some v}"
  by (induction ks) (auto simp: vals_def map_filter_simps split: option.splits)

lemma vals_Nil [simp]: "vals [] m = []"
  by (simp add: vals_def map_filter_simps)

lemma vals_Cons [simp]:
  "vals (k # ks) m = (case m k of None \<Rightarrow> vals ks m | Some v \<Rightarrow> v # vals ks m)"
  by (simp add: vals_def map_filter_simps split: option.splits)

lemma set_vals_iterates: "iterates ks m \<Longrightarrow> set (vals ks m) = ran m"
  by (force simp: set_vals iterates_def ran_def)

lemma length_vals_iterates: "iterates ks m \<Longrightarrow> length (vals ks m) = card (dom m)"
proof -
  assume it: "iterates ks m"
  have "set ks \<subseteq> dom m \<Longrightarrow> length (vals ks m) = length ks"
    by (induction ks) auto
  with it show ?thesis
    by (metis distinct_card iterates_def order_refl)
qed

section \<open>Signed 32-bit integers\<close>

text \<open>
  Where an \<^verbatim>\<open>int\<close> can leave its 32 bits and the result matters, the model reduces it with
  \<open>to_int32\<close>: two's complement, what the compiled code does where the standard leaves the
  overflow undefined.
\<close>

definition to_int32 :: "int \<Rightarrow> int" where
  "to_int32 x = ((x + 2147483648) mod 4294967296) - 2147483648"

lemma to_int32_id: "-2147483648 \<le> x \<Longrightarrow> x < 2147483648 \<Longrightarrow> to_int32 x = x"
  by (simp add: to_int32_def)

lemma to_int32_bounds: "-2147483648 \<le> to_int32 x \<and> to_int32 x < 2147483648"
  by (simp add: to_int32_def)

section \<open>Priority insertion\<close>

text \<open>
  A list whose elements with a property come first, and the insertion that keeps it so: behind
  the leading block where the new element has the property, at the end otherwise.
\<close>

definition leads :: "('a \<Rightarrow> bool) \<Rightarrow> 'a list \<Rightarrow> bool" where
  "leads p xs \<longleftrightarrow> sorted_wrt (\<lambda>a b. p b \<longrightarrow> p a) xs"

definition insert_leading :: "('a \<Rightarrow> bool) \<Rightarrow> 'a \<Rightarrow> 'a list \<Rightarrow> 'a list" where
  "insert_leading p x xs =
     (if p x then takeWhile p xs @ x # dropWhile p xs else xs @ [x])"

lemma leads_Nil [simp]: "leads p []"
  by (simp add: leads_def)

lemma leads_filter [simp]: "leads p xs \<Longrightarrow> leads p (filter f xs)"
  by (simp add: leads_def sorted_wrt_filter)

lemma leads_drop [simp]: "leads p xs \<Longrightarrow> leads p (drop n xs)"
  by (simp add: leads_def sorted_wrt_drop)

lemma leads_rest: "leads p xs \<Longrightarrow> x \<in> set (dropWhile p xs) \<Longrightarrow> \<not> p x"
  by (induction xs) (auto simp: leads_def split: if_splits)

lemma leads_split:
  assumes "leads p xs"
  shows "filter p xs = takeWhile p xs" and "filter (\<lambda>x. \<not> p x) xs = dropWhile p xs"
proof -
  have "filter p (takeWhile p xs @ dropWhile p xs) = takeWhile p xs"
    "filter (\<lambda>x. \<not> p x) (takeWhile p xs @ dropWhile p xs) = dropWhile p xs"
    using leads_rest [OF assms]
    by (auto simp add: filter_empty_conv filter_id_conv simp del: takeWhile_dropWhile_id
        dest: set_takeWhileD)
  then show "filter p xs = takeWhile p xs" "filter (\<lambda>x. \<not> p x) xs = dropWhile p xs" by simp_all
qed

lemma leads_insert_leading:
  assumes "leads p xs"
  shows "leads p (insert_leading p x xs)"
proof -
  have "leads p (takeWhile p xs @ dropWhile p xs)" using assms by simp
  then show ?thesis
    using leads_rest [OF assms]
    by (auto simp: insert_leading_def leads_def sorted_wrt_append dest: set_takeWhileD)
qed

lemma filter_insert_leading:
  assumes "leads p xs"
  shows "filter p (insert_leading p x xs) = filter p xs @ filter p [x]"
    and "filter (\<lambda>y. \<not> p y) (insert_leading p x xs)
      = filter (\<lambda>y. \<not> p y) xs @ filter (\<lambda>y. \<not> p y) [x]"
  using leads_rest [OF assms]
  by (auto simp add: insert_leading_def leads_split [OF assms] filter_empty_conv filter_id_conv
      dest: set_takeWhileD)

lemma length_insert_leading [simp]: "length (insert_leading p x xs) = Suc (length xs)"
proof -
  have "length (takeWhile p xs) + length (dropWhile p xs) = length xs"
    by (metis length_append takeWhile_dropWhile_id)
  then show ?thesis by (simp add: insert_leading_def)
qed

lemma set_insert_leading [simp]: "set (insert_leading p x xs) = insert x (set xs)"
proof -
  have "set (takeWhile p xs) \<union> set (dropWhile p xs) = set xs"
    by (metis set_append takeWhile_dropWhile_id)
  then show ?thesis by (auto simp: insert_leading_def)
qed

section \<open>Members of documents\<close>

text \<open>
  \<^verbatim>\<open>json::value(key, default)\<close> of a member that is there or not. A member of the wrong type, at which
  it throws, is modelled at the document that has it.
\<close>

definition member_or :: "'a \<Rightarrow> 'a option \<Rightarrow> 'a" where
  "member_or d m = (case m of None \<Rightarrow> d | Some x \<Rightarrow> x)"

lemma member_or_simps [simp]: "member_or d None = d" "member_or d (Some x) = x"
  by (simp_all add: member_or_def)

section \<open>Operation sequences\<close>

text \<open>
  A component is driven by operations. If each one keeps an invariant under a guard on the
  operation, so does every sequence of operations that satisfy it.
\<close>

locale stepper =
  fixes step :: "'e \<Rightarrow> 's \<Rightarrow> 's"
    and inv :: "'s \<Rightarrow> bool"
    and ok :: "'e \<Rightarrow> bool"
  assumes step_inv: "inv s \<Longrightarrow> ok e \<Longrightarrow> inv (step e s)"
begin

lemma run_inv: "inv s \<Longrightarrow> \<forall>e \<in> set es. ok e \<Longrightarrow> inv (fold step es s)"
  by (induction es arbitrary: s) (auto intro: step_inv)

lemma prefix_inv: "inv s \<Longrightarrow> \<forall>e \<in> set es. ok e \<Longrightarrow> inv (fold step (take n es) s)"
  by (rule run_inv) (auto dest: in_set_takeD)

end

end
