(* ===== verification/Counters.thy ===== *)
theory Counters
  imports Prelude
begin

text \<open>
  The interface of a table of usage counters: \<open>inc\<close> and \<open>dec\<close> a key, \<open>get\<close> it. The load balancer
  counts connections per node and the overload protector per user through the same contract, and
  what the session relies on (an increment is undone by its decrement, no counter goes below zero)
  is proved here once.
\<close>

locale counter_table =
  fixes inc :: "'k \<Rightarrow> 's \<Rightarrow> 's"
    and dec :: "'k \<Rightarrow> 's \<Rightarrow> 's"
    and get :: "'k \<Rightarrow> 's \<Rightarrow> int"
    and wf :: "'s \<Rightarrow> bool"
  assumes wf_inc: "wf s \<Longrightarrow> wf (inc k s)"
    and wf_dec: "wf s \<Longrightarrow> wf (dec k s)"
    and get_nonneg: "wf s \<Longrightarrow> 0 \<le> get k s"
    and get_inc: "wf s \<Longrightarrow> get k' (inc k s) = get k' s + (if k' = k then 1 else 0)"
    and get_dec: "wf s \<Longrightarrow> get k' (dec k s) = (if k' = k then max 0 (get k s - 1) else get k' s)"
begin

lemma dec_inc: "wf s \<Longrightarrow> get k' (dec k (inc k s)) = get k' s"
  by (simp add: get_dec get_inc wf_inc get_nonneg)

lemma dec_zero: "wf s \<Longrightarrow> get k s = 0 \<Longrightarrow> get k' (dec k s) = get k' s"
  by (simp add: get_dec)

lemma wf_run: "wf s \<Longrightarrow> wf (fold (\<lambda>(up, k). if up then inc k else dec k) es s)"
  by (induction es arbitrary: s) (auto simp: wf_inc wf_dec)

text \<open>
  A run of increments and decrements in which no decrement meets a zero counter changes a counter
  by exactly the difference of the two.
\<close>

lemma balanced_run:
  assumes "wf s"
    and "\<And>n. n < length es \<Longrightarrow> es ! n = (False, k) \<Longrightarrow>
      0 < get k s + int (count_list (take n es) (True, k)) - int (count_list (take n es) (False, k))"
  shows "get k (fold (\<lambda>(up, k). if up then inc k else dec k) es s)
    = get k s + int (count_list es (True, k)) - int (count_list es (False, k))"
  using assms(2)
proof (induction es rule: rev_induct)
  case Nil
  then show ?case by simp
next
  case (snoc e es)
  let ?run = "fold (\<lambda>(up, k). if up then inc k else dec k)"
  obtain up k' where e: "e = (up, k')" by fastforce
  have IH: "get k (?run es s)
      = get k s + int (count_list es (True, k)) - int (count_list es (False, k))"
  proof (rule snoc.IH)
    fix n assume "n < length es" "es ! n = (False, k)"
    with snoc.prems [of n] show "0 < get k s + int (count_list (take n es) (True, k))
        - int (count_list (take n es) (False, k))"
      by (simp add: nth_append)
  qed
  have pos: "0 < get k (?run es s)" if "up = False" "k' = k"
    using snoc.prems [of "length es"] that e IH by simp
  have "wf (?run es s)" using assms(1) by (rule wf_run)
  then have "get k (?run [e] (?run es s))
      = get k (?run es s) + (if k' = k then if up then 1 else -1 else 0)"
    using pos e by (auto simp: get_inc get_dec)
  then show ?case using IH e by auto
qed

end

section \<open>A map of positive counters\<close>

text \<open>
  The representation both components use, an \<^verbatim>\<open>unordered_map\<close> from the key to a heap-allocated
  atomic counter: an entry is created at 1 and erased when a decrement finds at most 1.
\<close>

definition counter_inc :: "'k \<Rightarrow> ('k \<rightharpoonup> int) \<Rightarrow> ('k \<rightharpoonup> int)" where
  "counter_inc k m = (case m k of Some c \<Rightarrow> m(k \<mapsto> c + 1) | None \<Rightarrow> m(k \<mapsto> 1))"

definition counter_dec :: "'k \<Rightarrow> ('k \<rightharpoonup> int) \<Rightarrow> ('k \<rightharpoonup> int)" where
  "counter_dec k m = (case m k of Some c \<Rightarrow> if c \<le> 1 then m(k := None) else m(k \<mapsto> c - 1)
                                | None \<Rightarrow> m)"

definition counter_get :: "'k \<Rightarrow> ('k \<rightharpoonup> int) \<Rightarrow> int" where
  "counter_get k m = (case m k of Some c \<Rightarrow> c | None \<Rightarrow> 0)"

definition counters_pos :: "('k \<rightharpoonup> int) \<Rightarrow> bool" where
  "counters_pos m \<longleftrightarrow> (\<forall>k c. m k = Some c \<longrightarrow> 1 \<le> c)"

lemmas counter_defs = counter_inc_def counter_dec_def counter_get_def counters_pos_def

lemma counters_pos_empty [simp]: "counters_pos Map.empty"
  by (simp add: counters_pos_def)

lemma counter_get_nonneg [simp]: "counters_pos m \<Longrightarrow> 0 \<le> counter_get k m"
  by (force simp: counter_defs split: option.splits)

lemma counters_pos_inc [simp]: "counters_pos m \<Longrightarrow> counters_pos (counter_inc k m)"
  by (force simp: counter_defs split: option.splits)

lemma counters_pos_dec [simp]: "counters_pos m \<Longrightarrow> counters_pos (counter_dec k m)"
  by (auto simp: counter_defs split: option.splits)

lemma counter_get_inc:
  "counter_get k' (counter_inc k m) = counter_get k' m + (if k' = k then 1 else 0)"
  by (auto simp: counter_defs split: option.splits)

lemma counter_get_dec:
  "counters_pos m \<Longrightarrow>
   counter_get k' (counter_dec k m) = (if k' = k then max 0 (counter_get k m - 1) else counter_get k' m)"
  by (force simp: counter_defs split: option.splits)

interpretation map_counter: counter_table counter_inc counter_dec counter_get counters_pos
  by unfold_locales (simp_all add: counter_get_inc counter_get_dec)

section \<open>The sum of all counters\<close>

definition counter_total :: "('k \<rightharpoonup> int) \<Rightarrow> int" where
  "counter_total m = (\<Sum>k \<in> dom m. the (m k))"

lemma counter_total_empty [simp]: "counter_total Map.empty = 0"
  by (simp add: counter_total_def)

lemma finite_dom_inc [simp]: "finite (dom (counter_inc k m)) = finite (dom m)"
  by (simp add: counter_inc_def split: option.split)

lemma finite_dom_dec [simp]: "finite (dom m) \<Longrightarrow> finite (dom (counter_dec k m))"
  by (simp add: counter_dec_def split: option.split)

lemma counter_total_upd:
  "finite (dom m) \<Longrightarrow> counter_total (m(k \<mapsto> c)) = counter_total m - counter_get k m + c"
proof -
  assume fin: "finite (dom m)"
  have "counter_total (m(k \<mapsto> c)) = c + (\<Sum>j \<in> dom m - {k}. the (m j))"
    unfolding counter_total_def using fin
    by (simp add: sum.insert_remove)
  moreover have "counter_total m = counter_get k m + (\<Sum>j \<in> dom m - {k}. the (m j))"
  proof (cases "m k")
    case None
    then have "dom m - {k} = dom m" by auto
    with None show ?thesis by (simp add: counter_total_def counter_get_def)
  next
    case (Some c')
    then have "k \<in> dom m" by auto
    with Some fin show ?thesis
      by (simp add: counter_total_def counter_get_def sum.remove)
  qed
  ultimately show ?thesis by simp
qed

lemma counter_total_del:
  "finite (dom m) \<Longrightarrow> counter_total (m(k := None)) = counter_total m - counter_get k m"
proof (cases "m k")
  case None
  then show ?thesis by (simp add: counter_get_def fun_upd_idem)
next
  case (Some c)
  moreover assume "finite (dom m)"
  ultimately have "counter_total m = c + (\<Sum>j \<in> dom m - {k}. the (m j))"
    by (simp add: counter_total_def sum.remove [of "dom m" k] domI)
  moreover have "(\<Sum>j \<in> dom m - {k}. the (m j)) = counter_total (m(k := None))"
    by (auto simp: counter_total_def intro!: sum.cong)
  ultimately show ?thesis using Some by (simp add: counter_get_def)
qed

lemma counter_total_inc: "finite (dom m) \<Longrightarrow> counter_total (counter_inc k m) = counter_total m + 1"
  by (auto simp: counter_inc_def counter_total_upd counter_get_def split: option.split)

lemma counter_total_dec:
  "finite (dom m) \<Longrightarrow> counters_pos m \<Longrightarrow>
   counter_total (counter_dec k m) = counter_total m - (if m k = None then 0 else 1)"
  by (force simp: counter_dec_def counter_total_upd counter_total_del counter_get_def counters_pos_def
      split: option.split)

lemma fold_counter_inc [simp]:
  "finite (dom (fold counter_inc ks m)) = finite (dom m)"
  "counters_pos m \<Longrightarrow> counters_pos (fold counter_inc ks m)"
  "counter_get k (fold counter_inc ks m) = counter_get k m + int (count_list ks k)"
  by (induction ks arbitrary: m) (simp_all add: counter_get_inc)

lemma counter_total_fold_inc:
  "finite (dom m) \<Longrightarrow> counter_total (fold counter_inc ks m) = counter_total m + int (length ks)"
  by (induction ks arbitrary: m) (simp_all add: counter_total_inc)

end
