(* ===== verification/Rate_Limiter.thy ===== *)
theory Rate_Limiter
  imports Prelude
begin

text \<open>
  The per-address limiter of \<^verbatim>\<open>src/src/concurrency/rate_limiter.cpp\<close>: a fixed one-second window of
  connections and a sixty-second window of failed authentications with a ban. The operations take
  the time \<^verbatim>\<open>steady_clock::now()\<close> returns and the state, and return their answer with the new
  state. The lemmas bound what any sequence of calls accepts within one second of time and show
  that enough failures ban an address and only that address.
\<close>

section \<open>State and operations\<close>

record ip_rate_info =
  conn_count :: int
  conn_window_start :: time_point
  auth_fail_count :: int
  auth_window_start :: time_point
  banned_until :: time_point

record rate_limiter =
  m_max_conn_per_ip_per_sec :: int
  m_max_auth_fails_per_min :: int
  m_ban_duration_sec :: int
  m_rates :: "string \<rightharpoonup> ip_rate_info"

definition new_rate_info :: ip_rate_info where
  "new_rate_info = \<lparr>conn_count = 0, conn_window_start = 0, auth_fail_count = 0,
     auth_window_start = 0, banned_until = 0\<rparr>"

definition new_rate_limiter :: rate_limiter where
  "new_rate_limiter = \<lparr>m_max_conn_per_ip_per_sec = 10, m_max_auth_fails_per_min = 5,
     m_ban_duration_sec = 60, m_rates = Map.empty\<rparr>"

definition rate_limiter_init :: "int \<Rightarrow> int \<Rightarrow> int \<Rightarrow> rate_limiter \<Rightarrow> rate_limiter" where
  "rate_limiter_init conns fails ban rl =
     rl\<lparr>m_max_conn_per_ip_per_sec := conns, m_max_auth_fails_per_min := fails,
        m_ban_duration_sec := ban\<rparr>"

definition check_connection_rate ::
    "time_point \<Rightarrow> string \<Rightarrow> rate_limiter \<Rightarrow> bool \<times> rate_limiter" where
  "check_connection_rate now ip rl =
     (case m_rates rl ip of
        None \<Rightarrow>
          (True, rl\<lparr>m_rates := (m_rates rl)(ip \<mapsto>
                     new_rate_info\<lparr>conn_count := 1, conn_window_start := now\<rparr>)\<rparr>)
      | Some info \<Rightarrow>
          if secs_between now (conn_window_start info) \<ge> 1
          then (True, rl\<lparr>m_rates := (m_rates rl)(ip \<mapsto>
                         info\<lparr>conn_count := 1, conn_window_start := now\<rparr>)\<rparr>)
          else (conn_count info + 1 \<le> m_max_conn_per_ip_per_sec rl,
                rl\<lparr>m_rates := (m_rates rl)(ip \<mapsto>
                   info\<lparr>conn_count := conn_count info + 1\<rparr>)\<rparr>))"

definition check_auth_rate :: "time_point \<Rightarrow> string \<Rightarrow> rate_limiter \<Rightarrow> bool" where
  "check_auth_rate now ip rl =
     (case m_rates rl ip of
        None \<Rightarrow> True
      | Some info \<Rightarrow>
          if now < banned_until info then False
          else if secs_between now (auth_window_start info) \<ge> 60 then True
          else auth_fail_count info < m_max_auth_fails_per_min rl)"

definition record_auth_failure :: "time_point \<Rightarrow> string \<Rightarrow> rate_limiter \<Rightarrow> rate_limiter" where
  "record_auth_failure now ip rl =
     (case m_rates rl ip of
        None \<Rightarrow>
          rl\<lparr>m_rates := (m_rates rl)(ip \<mapsto>
             new_rate_info\<lparr>auth_fail_count := 1, auth_window_start := now\<rparr>)\<rparr>
      | Some info \<Rightarrow>
          let info1 = (if secs_between now (auth_window_start info) \<ge> 60
                       then info\<lparr>auth_fail_count := 1, auth_window_start := now\<rparr>
                       else info\<lparr>auth_fail_count := auth_fail_count info + 1\<rparr>);
              info2 = (if auth_fail_count info1 \<ge> m_max_auth_fails_per_min rl
                       then info1\<lparr>banned_until := plus_secs now (m_ban_duration_sec rl)\<rparr>
                       else info1)
          in rl\<lparr>m_rates := (m_rates rl)(ip \<mapsto> info2)\<rparr>)"

section \<open>Runs of operations\<close>

text \<open>
  The two state-changing operations as events; the outputs record the answers to connection
  checks with the address asked for.
\<close>

datatype rl_event = Conn_check string | Auth_failure string

fun rl_step :: "time_point \<times> rl_event \<Rightarrow> rate_limiter \<Rightarrow> rate_limiter" where
  "rl_step (t, Conn_check ip) rl = snd (check_connection_rate t ip rl)"
| "rl_step (t, Auth_failure ip) rl = record_auth_failure t ip rl"

fun n_accepted :: "string \<Rightarrow> (time_point \<times> rl_event) list \<Rightarrow> rate_limiter \<Rightarrow> int" where
  "n_accepted ip [] rl = 0"
| "n_accepted ip ((t, e) # es) rl =
     (if e = Conn_check ip \<and> fst (check_connection_rate t ip rl) then 1 else 0)
     + n_accepted ip es (rl_step (t, e) rl)"

fun failures :: "string \<Rightarrow> (time_point \<times> rl_event) list \<Rightarrow> int" where
  "failures ip [] = 0"
| "failures ip ((t, e) # es) = (if e = Auth_failure ip then 1 else 0) + failures ip es"

lemmas rl_defs = check_connection_rate_def check_auth_rate_def record_auth_failure_def
  new_rate_info_def Let_def

lemma rl_step_config [simp]:
  "m_max_conn_per_ip_per_sec (rl_step e rl) = m_max_conn_per_ip_per_sec rl"
  "m_max_auth_fails_per_min (rl_step e rl) = m_max_auth_fails_per_min rl"
  "m_ban_duration_sec (rl_step e rl) = m_ban_duration_sec rl"
  by (cases "(e, rl)" rule: rl_step.cases; simp add: rl_defs split: option.splits)+

section \<open>Frame: one address never affects another\<close>

lemma check_connection_rate_other:
  "ip' \<noteq> ip \<Longrightarrow> m_rates (snd (check_connection_rate now ip rl)) ip' = m_rates rl ip'"
  by (simp add: rl_defs split: option.splits)

lemma record_auth_failure_other:
  "ip' \<noteq> ip \<Longrightarrow> m_rates (record_auth_failure now ip rl) ip' = m_rates rl ip'"
  by (simp add: rl_defs split: option.splits)

fun event_ip :: "rl_event \<Rightarrow> string" where
  "event_ip (Conn_check ip) = ip"
| "event_ip (Auth_failure ip) = ip"

lemma rl_step_other: "event_ip (snd e) \<noteq> ip \<Longrightarrow> m_rates (rl_step e rl) ip = m_rates rl ip"
  by (cases "(e, rl)" rule: rl_step.cases)
    (auto simp: check_connection_rate_other record_auth_failure_other)

section \<open>How many connections one second admits\<close>

text \<open>
  The fields of the connection window of an address: a missing record counts as an empty one.
\<close>

definition used_in_window :: "string \<Rightarrow> rate_limiter \<Rightarrow> int" where
  "used_in_window ip rl = (case m_rates rl ip of None \<Rightarrow> 0 | Some i \<Rightarrow> conn_count i)"

definition counts_ok :: "rate_limiter \<Rightarrow> bool" where
  "counts_ok rl \<longleftrightarrow> (\<forall>ip i. m_rates rl ip = Some i \<longrightarrow> 0 \<le> conn_count i \<and> 0 \<le> auth_fail_count i)"

lemma rl_step_counts_ok: "counts_ok rl \<Longrightarrow> counts_ok (rl_step e rl)"
  by (cases "(e, rl)" rule: rl_step.cases)
    (auto simp: counts_ok_def rl_defs split: option.splits if_splits)

interpretation rl_run: stepper rl_step counts_ok "\<lambda>_. True"
  by unfold_locales (rule rl_step_counts_ok)

lemma new_rate_limiter_counts_ok: "counts_ok new_rate_limiter"
  by (simp add: counts_ok_def new_rate_limiter_def)

text \<open>
  Within a window that does not expire, the address gets what is left of its quota.
\<close>

lemma accepted_in_window:
  assumes "m_rates rl ip = Some i"
    and "\<forall>(t, e) \<in> set es. t - conn_window_start i < ns_per_sec"
  shows "n_accepted ip es rl \<le> max 0 (m_max_conn_per_ip_per_sec rl - conn_count i)"
  using assms
proof (induction es arbitrary: rl i)
  case Nil
  then show ?case by simp
next
  case (Cons te es)
  obtain t e where te: "te = (t, e)" by fastforce
  have win: "\<not> 1 \<le> secs_between t (conn_window_start i)"
    using Cons.prems(2) te by (simp add: secs_between_ge)
  show ?case
  proof (cases "e = Conn_check ip")
    case True
    let ?i = "i\<lparr>conn_count := conn_count i + 1\<rparr>"
    have "m_rates (rl_step te rl) ip = Some ?i"
      using Cons.prems(1) win te True by (simp add: rl_defs)
    then have "n_accepted ip es (rl_step te rl)
        \<le> max 0 (m_max_conn_per_ip_per_sec rl - (conn_count i + 1))"
      using Cons.IH [of "rl_step te rl" ?i] Cons.prems(2) by simp
    then show ?thesis
      using Cons.prems(1) win te True
      by (auto simp: check_connection_rate_def max_def split: if_splits)
  next
    case False
    obtain i' where "m_rates (rl_step te rl) ip = Some i'"
      and "conn_window_start i' = conn_window_start i" "conn_count i' = conn_count i"
    proof (cases "event_ip e = ip")
      case True
      with False have "e = Auth_failure ip" by (cases e) auto
      with that Cons.prems(1) te show ?thesis
        by (auto simp: rl_defs split: if_splits)
    next
      case other: False
      with that Cons.prems(1) te show ?thesis by (metis rl_step_other snd_conv)
    qed
    then have "n_accepted ip es (rl_step te rl)
        \<le> max 0 (m_max_conn_per_ip_per_sec rl - conn_count i)"
      using Cons.IH [of "rl_step te rl" i'] Cons.prems(2) by simp
    with False te show ?thesis by simp
  qed
qed

definition times_within :: "time_point \<Rightarrow> time_point \<Rightarrow> (time_point \<times> rl_event) list \<Rightarrow> bool" where
  "times_within a len es \<longleftrightarrow>
     sorted (map fst es) \<and> (\<forall>t \<in> set (map fst es). a \<le> t \<and> t < a + len)"

lemma times_within_Cons:
  "times_within a len ((t, e) # es) \<Longrightarrow> times_within a len es"
  by (auto simp: times_within_def)

lemma times_within_from:
  "times_within a len ((t, e) # es) \<Longrightarrow> \<forall>(u, f) \<in> set es. u - t < len"
  by (fastforce simp: times_within_def)

lemma accepted_fresh_window:
  assumes "times_within a ns_per_sec ((t, e) # es)" "0 < m_max_conn_per_ip_per_sec rl"
    and "m_rates rl ip = Some i" "conn_count i = 1" "conn_window_start i = t"
  shows "1 + n_accepted ip es rl \<le> m_max_conn_per_ip_per_sec rl"
  using accepted_in_window [OF assms(3), of es] times_within_from [OF assms(1)] assms by force

lemma accepted_bound_aux:
  assumes "times_within a ns_per_sec es" "counts_ok rl" "0 < m_max_conn_per_ip_per_sec rl"
  shows "n_accepted ip es rl
    \<le> m_max_conn_per_ip_per_sec rl
      + max 0 (m_max_conn_per_ip_per_sec rl - used_in_window ip rl)"
  using assms
proof (induction es arbitrary: rl)
  case Nil
  then show ?case by simp
next
  case (Cons te es)
  obtain t e where te: "te = (t, e)" by fastforce
  let ?m = "m_max_conn_per_ip_per_sec rl" and ?rl = "rl_step te rl"
  note tw = Cons.prems(1)[unfolded te]
  have IH: "n_accepted ip es ?rl \<le> ?m + max 0 (?m - used_in_window ip ?rl)"
    using Cons.IH [of ?rl] Cons.prems times_within_Cons [OF tw] by (simp add: rl_step_counts_ok)
  show ?case
  proof (cases "e = Conn_check ip")
    case False
    then have "used_in_window ip ?rl = used_in_window ip rl"
      using te by (cases "event_ip e = ip"; cases e)
        (auto simp: used_in_window_def rl_defs check_connection_rate_other
          record_auth_failure_other split: option.splits)
    with IH False te show ?thesis by simp
  next
    case True
    show ?thesis
    proof (cases "\<exists>i. m_rates rl ip = Some i \<and> \<not> 1 \<le> secs_between t (conn_window_start i)")
      case same: True
      then obtain i where i: "m_rates rl ip = Some i" "\<not> 1 \<le> secs_between t (conn_window_start i)"
        by blast
      have "used_in_window ip ?rl = used_in_window ip rl + 1"
        using i te True by (simp add: used_in_window_def rl_defs)
      moreover have "fst (check_connection_rate t ip rl) \<longleftrightarrow> used_in_window ip rl + 1 \<le> ?m"
        using i by (simp add: used_in_window_def check_connection_rate_def)
      ultimately show ?thesis using IH te True by auto
    next
      case False
      then obtain i where "m_rates ?rl ip = Some i" "conn_count i = 1" "conn_window_start i = t"
        and "fst (check_connection_rate t ip rl)"
        using te True by (fastforce simp: rl_defs split: option.splits)
      then have "1 + n_accepted ip es ?rl \<le> ?m"
        using accepted_fresh_window [OF tw, of ?rl] Cons.prems(3) by simp
      then show ?thesis using te True by auto
    qed
  qed
qed

section \<open>Bans\<close>

text \<open>Inside an open window of an address every failure of that address counts, and nothing else does.\<close>

lemma window_step:
  assumes "m_rates rl ip = Some i" "t - auth_window_start i < 60 * ns_per_sec"
  shows "\<exists>j. m_rates (rl_step (t, e) rl) ip = Some j \<and> auth_window_start j = auth_window_start i
    \<and> auth_fail_count j = auth_fail_count i + failures ip [(t, e)]"
proof (cases "event_ip e = ip")
  case False
  then have "e \<noteq> Auth_failure ip" by auto
  with False assms(1) show ?thesis by (simp add: rl_step_other)
next
  case True
  have "\<not> 60 \<le> secs_between t (auth_window_start i)" using assms(2) by (simp add: secs_between_ge)
  with assms(1) True show ?thesis by (cases e) (simp_all add: rl_defs)
qed

lemma window_run:
  assumes "m_rates rl ip = Some i" "\<forall>t \<in> set (map fst es). t - auth_window_start i < 60 * ns_per_sec"
  shows "\<exists>j. m_rates (fold rl_step es rl) ip = Some j \<and> auth_window_start j = auth_window_start i
    \<and> auth_fail_count j = auth_fail_count i + failures ip es"
  using assms
proof (induction es arbitrary: rl i)
  case (Cons te es)
  obtain t e where te: "te = (t, e)" by fastforce
  obtain j where j: "m_rates (rl_step te rl) ip = Some j" "auth_window_start j = auth_window_start i"
    "auth_fail_count j = auth_fail_count i + failures ip [(t, e)]"
    using window_step [OF Cons.prems(1), of t e] Cons.prems(2) te by auto
  from Cons.IH [OF j(1)] Cons.prems(2) j te show ?case by (auto simp: add.assoc)
qed simp

text \<open>A failure that finds no open window opens one.\<close>

definition no_open_window :: "time_point \<Rightarrow> string \<Rightarrow> rate_limiter \<Rightarrow> bool" where
  "no_open_window t ip rl \<longleftrightarrow>
     (\<forall>i. m_rates rl ip = Some i \<longrightarrow> 60 * ns_per_sec \<le> t - auth_window_start i)"

lemma failure_opens_window:
  assumes "no_open_window t ip rl"
  shows "\<exists>i. m_rates (record_auth_failure t ip rl) ip = Some i \<and> auth_window_start i = t \<and> auth_fail_count i = 1"
proof (cases "m_rates rl ip")
  case (Some i)
  then have "60 \<le> secs_between t (auth_window_start i)" using assms by (simp add: no_open_window_def secs_between_ge)
  with Some show ?thesis by (simp add: rl_defs)
qed (simp add: rl_defs)

text \<open>Once set, a ban end is only ever moved later by events that come later.\<close>

definition banned_for :: "time_point \<Rightarrow> string \<Rightarrow> rate_limiter \<Rightarrow> bool" where
  "banned_for b ip rl \<longleftrightarrow> (\<exists>i. m_rates rl ip = Some i \<and> b \<le> banned_until i)"

lemma banned_for_step:
  assumes "banned_for b ip rl" "b \<le> plus_secs t (m_ban_duration_sec rl)"
  shows "banned_for b ip (rl_step (t, e) rl)"
proof (cases "event_ip e = ip")
  case False
  with assms show ?thesis by (simp add: banned_for_def rl_step_other)
next
  case True
  with assms show ?thesis
    by (cases e) (auto simp: banned_for_def rl_defs split: option.splits)
qed

lemma banned_for_run:
  assumes "banned_for b ip rl" "\<forall>t \<in> set (map fst es). b \<le> plus_secs t (m_ban_duration_sec rl)"
  shows "banned_for b ip (fold rl_step es rl)"
  using assms by (induction es arbitrary: rl) (auto simp: banned_for_step)

lemma banned_for_rejects: "banned_for b ip rl \<Longrightarrow> t < b \<Longrightarrow> \<not> check_auth_rate t ip rl"
  by (auto simp: banned_for_def check_auth_rate_def)

lemma last_failure_bans:
  assumes "m_rates rl ip = Some i" "t - auth_window_start i < 60 * ns_per_sec"
    and "m_max_auth_fails_per_min rl \<le> auth_fail_count i + 1"
  shows "banned_for (plus_secs t (m_ban_duration_sec rl)) ip (record_auth_failure t ip rl)"
proof -
  have "\<not> 60 \<le> secs_between t (auth_window_start i)" using assms(2) by (simp add: secs_between_ge)
  with assms show ?thesis by (simp add: banned_for_def rl_defs)
qed

lemma run_config [simp]:
  "m_max_auth_fails_per_min (fold rl_step es rl) = m_max_auth_fails_per_min rl"
  "m_ban_duration_sec (fold rl_step es rl) = m_ban_duration_sec rl"
  by (induction es arbitrary: rl) auto

section \<open>Properties\<close>

text \<open>
  C18: with a positive quota, the connection limiter admits an address at most twice its per-second quota
  in any interval shorter than one second, whatever operations on any addresses are interleaved in it.
\<close>

theorem connection_rate_bounded:
  assumes "times_within a ns_per_sec es" "counts_ok rl" "0 < m_max_conn_per_ip_per_sec rl"
  shows "n_accepted ip es rl \<le> 2 * m_max_conn_per_ip_per_sec rl"
proof -
  have "0 \<le> used_in_window ip rl"
    using assms(2) by (auto simp: used_in_window_def counts_ok_def split: option.splits)
  with accepted_bound_aux [OF assms, of ip] assms(3) show ?thesis by linarith
qed

theorem connection_rate_bounded_witness:
  "n_accepted ''10.0.0.7'' (replicate 3 (5, Conn_check ''10.0.0.7''))
     (rate_limiter_init 1 5 60 new_rate_limiter) \<le> 2"
  using connection_rate_bounded [of 5 "replicate 3 (5, Conn_check ''10.0.0.7'')"
      "rate_limiter_init 1 5 60 new_rate_limiter" "''10.0.0.7''"]
  by (simp add: times_within_def counts_ok_def rate_limiter_init_def new_rate_limiter_def
      numeral_3_eq_3)

text \<open>
  C23: Failures are counted in fixed windows of a minute: from any state, a failure of an address that
  finds no open window opens one, and when a later failure in that minute brings the count to the limit,
  every authentication check of the address answers no until the ban ends, counted from that failure,
  whatever events come in between and whatever later ones follow. The failure that opens the window is
  not itself claimed to ban: the first failure of an unknown address does not, even with a limit of one.
\<close>

theorem failures_ban_address:
  assumes "no_open_window t0 ip rl"
    and "\<forall>u \<in> set (map fst pre). u < t0 + 60 * ns_per_sec" "t < t0 + 60 * ns_per_sec"
    and "m_max_auth_fails_per_min rl \<le> failures ip pre + 2"
    and "\<forall>u \<in> set (map fst post). t \<le> u"
    and "u < plus_secs t (m_ban_duration_sec rl)"
  shows "\<not> check_auth_rate u ip
    (fold rl_step ((t0, Auth_failure ip) # pre @ (t, Auth_failure ip) # post) rl)"
proof -
  let ?first = "rl_step (t0, Auth_failure ip) rl"
  let ?rl = "fold rl_step pre ?first"
  obtain i where i: "m_rates ?first ip = Some i" "auth_window_start i = t0" "auth_fail_count i = 1"
    using failure_opens_window [OF assms(1)] by auto
  have "\<forall>u \<in> set (map fst pre). u - auth_window_start i < 60 * ns_per_sec" using assms(2) i(2) by force
  from window_run [OF i(1) this] i obtain j where j: "m_rates ?rl ip = Some j" "auth_window_start j = t0"
    "auth_fail_count j = 1 + failures ip pre" by auto
  have "t - auth_window_start j < 60 * ns_per_sec" using assms(3) j(2) by simp
  moreover have limit: "m_max_auth_fails_per_min ?rl = m_max_auth_fails_per_min rl"
    "m_ban_duration_sec ?rl = m_ban_duration_sec rl" by (simp_all del: rl_step.simps)
  moreover have "m_max_auth_fails_per_min rl \<le> auth_fail_count j + 1" using assms(4) j(3) by simp
  ultimately have "banned_for (plus_secs t (m_ban_duration_sec rl)) ip (rl_step (t, Auth_failure ip) ?rl)"
    using last_failure_bans [OF j(1), of t] by simp
  moreover have "\<forall>v \<in> set (map fst post). plus_secs t (m_ban_duration_sec rl)
      \<le> plus_secs v (m_ban_duration_sec (rl_step (t, Auth_failure ip) ?rl))"
    using assms(5) limit by (auto simp: plus_secs_def simp del: rl_step.simps)
  ultimately have "banned_for (plus_secs t (m_ban_duration_sec rl)) ip
      (fold rl_step post (rl_step (t, Auth_failure ip) ?rl))"
    by (rule banned_for_run)
  with assms(6) show ?thesis by (auto dest: banned_for_rejects simp del: rl_step.simps)
qed

theorem failures_ban_address_witness:
  "\<not> check_auth_rate 90000000000 ''a''
     (fold rl_step ((1000000000, Auth_failure ''a'') # [(2000000000, Conn_check ''a'')] @ (30000000000, Auth_failure ''a'')
        # [(80000000000, Conn_check ''a'')]) (rate_limiter_init 10 2 61 new_rate_limiter))"
  by (rule failures_ban_address)
    (simp_all add: no_open_window_def rate_limiter_init_def new_rate_limiter_def ns_per_sec_def plus_secs_def)

text \<open>
  the limiter keeps addresses apart: the answers an address gets to both checks depend only
  on the events of that address, whatever the others do in between.
\<close>

theorem limiter_isolates_addresses:
  "fst (check_connection_rate now ip (fold rl_step es rl))
     = fst (check_connection_rate now ip
         (fold rl_step (filter (\<lambda>(t, e). event_ip e = ip) es) rl))
   \<and> check_auth_rate now ip (fold rl_step es rl)
     = check_auth_rate now ip (fold rl_step (filter (\<lambda>(t, e). event_ip e = ip) es) rl)"
proof -
  let ?same = "\<lambda>a b. m_rates a ip = m_rates b ip
    \<and> m_max_conn_per_ip_per_sec a = m_max_conn_per_ip_per_sec b
    \<and> m_max_auth_fails_per_min a = m_max_auth_fails_per_min b
    \<and> m_ban_duration_sec a = m_ban_duration_sec b"
  have own: "?same (rl_step (t, e) a) (rl_step (t, e) b)" if "?same a b" "event_ip e = ip" for t e a b
    using that by (cases e) (auto simp: rl_defs split: option.splits)
  have "?same (fold rl_step es a) (fold rl_step (filter (\<lambda>(t, e). event_ip e = ip) es) b)"
    if "?same a b" for a b
    using that
  proof (induction es arbitrary: a b)
    case (Cons te es)
    show ?case
    proof (cases "event_ip (snd te) = ip")
      case True
      with Cons.IH [of "rl_step te a" "rl_step te b"] own [OF Cons.prems, of "snd te" "fst te"]
      show ?thesis by (simp add: case_prod_beta)
    next
      case False
      with Cons.IH [of "rl_step te a" b] Cons.prems show ?thesis
        by (simp add: case_prod_beta rl_step_other)
    qed
  qed simp
  from this [of rl rl] show ?thesis
    by (auto simp: check_connection_rate_def check_auth_rate_def split: option.splits)
qed

end
