(* ===== verification/Overload_Protector.thy ===== *)
theory Overload_Protector
  imports Counters Complex_Main
begin

text \<open>
  \<^verbatim>\<open>src/src/concurrency/overload_protector.cpp\<close>: the global connection counter, the per-user
  counters and the overload test over the connection limit, the file descriptors and the memory.
  What the operating system reports is an argument (\<open>os_view\<close>); rounding of a rational to the
  nearest \<^verbatim>\<open>double\<close> is an argument \<open>rnd\<close>, so every lemma holds for the hardware's rounding.
\<close>

section \<open>State and operations\<close>

record overload_status =
  is_overloaded :: bool
  fd_usage_pct :: rat
  mem_usage_pct :: rat
  total_connections :: int
  reason :: string

text \<open>
  \<open>rlim_nofile\<close>: \<^verbatim>\<open>rlim_cur\<close> where \<^verbatim>\<open>getrlimit\<close> succeeds; \<open>fd_lines\<close>: the lines read from
  \<^verbatim>\<open>/proc/self/fd\<close>, 0 where it cannot be read; \<open>meminfo\<close>: \<^verbatim>\<open>MemTotal\<close> and \<^verbatim>\<open>MemAvailable\<close> as scanned
  from \<^verbatim>\<open>/proc/meminfo\<close>, where it opens.
\<close>

record os_view =
  rlim_nofile :: "int option"
  fd_lines :: int
  meminfo :: "(int \<times> int) option"

record overload_protector =
  op_fd_threshold_pct :: rat
  op_mem_threshold_pct :: rat
  op_max_total_connections :: int
  op_max_per_user :: int
  op_total_connections :: int
  op_user_connections :: "string \<rightharpoonup> int"

definition new_overload_protector :: overload_protector where
  "new_overload_protector = \<lparr>op_fd_threshold_pct = 9 / 10, op_mem_threshold_pct = 85 / 100,
     op_max_total_connections = 4000, op_max_per_user = 50, op_total_connections = 0,
     op_user_connections = Map.empty\<rparr>"

definition overload_init ::
    "rat \<Rightarrow> rat \<Rightarrow> int \<Rightarrow> int \<Rightarrow> overload_protector \<Rightarrow> overload_protector" where
  "overload_init fd_pct mem_pct max_total max_user op =
     op\<lparr>op_fd_threshold_pct := fd_pct, op_mem_threshold_pct := mem_pct,
        op_max_total_connections := max_total, op_max_per_user := max_user\<rparr>"

definition check_fds ::
    "(rat \<Rightarrow> rat) \<Rightarrow> os_view \<Rightarrow> overload_protector \<Rightarrow> overload_status \<Rightarrow> overload_status" where
  "check_fds rnd os op st =
     (case rlim_nofile os of
        None \<Rightarrow> st
      | Some cur \<Rightarrow>
          if cur > 0 then
            let st1 = st\<lparr>fd_usage_pct := rnd (of_int (fd_lines os) / of_int cur)\<rparr>
            in if fd_usage_pct st1 \<ge> op_fd_threshold_pct op
               then st1\<lparr>is_overloaded := True, reason := ''fd_limit''\<rparr> else st1
          else st)"

definition check_memory ::
    "(rat \<Rightarrow> rat) \<Rightarrow> os_view \<Rightarrow> overload_protector \<Rightarrow> overload_status \<Rightarrow> overload_status" where
  "check_memory rnd os op st =
     (case meminfo os of
        None \<Rightarrow> st
      | Some (mem_total, avail) \<Rightarrow>
          if mem_total > 0 then
            let st1 = st\<lparr>mem_usage_pct := rnd (1 - rnd (of_int avail / of_int mem_total))\<rparr>
            in if mem_usage_pct st1 \<ge> op_mem_threshold_pct op
               then st1\<lparr>is_overloaded := True, reason := ''memory_limit''\<rparr> else st1
          else st)"

definition overload_check ::
    "(rat \<Rightarrow> rat) \<Rightarrow> os_view \<Rightarrow> overload_protector \<Rightarrow> overload_status" where
  "overload_check rnd os op =
     (let st = \<lparr>is_overloaded = False, fd_usage_pct = 0, mem_usage_pct = 0,
                total_connections = op_total_connections op, reason = ''''\<rparr>
      in if total_connections st \<ge> op_max_total_connections op
         then st\<lparr>is_overloaded := True, reason := ''total_connections_limit''\<rparr>
         else check_memory rnd os op (check_fds rnd os op st))"

definition sys_overloaded :: "(rat \<Rightarrow> rat) \<Rightarrow> os_view \<Rightarrow> overload_protector \<Rightarrow> bool" where
  "sys_overloaded rnd os op = is_overloaded (overload_check rnd os op)"

definition check_user_limit :: "string \<Rightarrow> overload_protector \<Rightarrow> bool" where
  "check_user_limit user op =
     (case op_user_connections op user of None \<Rightarrow> True | Some c \<Rightarrow> c < op_max_per_user op)"

definition op_inc_user_connections :: "string \<Rightarrow> overload_protector \<Rightarrow> overload_protector" where
  "op_inc_user_connections user op =
     op\<lparr>op_user_connections := counter_inc user (op_user_connections op)\<rparr>"

definition op_dec_user_connections :: "string \<Rightarrow> overload_protector \<Rightarrow> overload_protector" where
  "op_dec_user_connections user op =
     op\<lparr>op_user_connections := counter_dec user (op_user_connections op)\<rparr>"

definition op_get_user_connections :: "string \<Rightarrow> overload_protector \<Rightarrow> int" where
  "op_get_user_connections user op = counter_get user (op_user_connections op)"

definition inc_total_connections :: "overload_protector \<Rightarrow> overload_protector" where
  "inc_total_connections op = op\<lparr>op_total_connections := op_total_connections op + 1\<rparr>"

text \<open>The compare-exchange loop ends with one decrement, or none where the counter is not positive.\<close>

definition dec_total_connections :: "overload_protector \<Rightarrow> overload_protector" where
  "dec_total_connections op =
     (if op_total_connections op > 0
      then op\<lparr>op_total_connections := op_total_connections op - 1\<rparr> else op)"

section \<open>Contracts\<close>

interpretation user_counter: counter_table op_inc_user_connections op_dec_user_connections
  op_get_user_connections "\<lambda>op. counters_pos (op_user_connections op)"
  by unfold_locales
    (simp_all add: op_inc_user_connections_def op_dec_user_connections_def
      op_get_user_connections_def counter_get_inc counter_get_dec)

interpretation total_counter: counter_table "\<lambda>_::unit. inc_total_connections"
  "\<lambda>_. dec_total_connections" "\<lambda>_. op_total_connections" "\<lambda>op. 0 \<le> op_total_connections op"
  by unfold_locales (auto simp: inc_total_connections_def dec_total_connections_def)

lemma check_fds_keeps_overloaded: "is_overloaded st \<Longrightarrow> is_overloaded (check_fds rnd os op st)"
  by (simp add: check_fds_def Let_def split: option.split)

lemma check_memory_keeps_overloaded: "is_overloaded st \<Longrightarrow> is_overloaded (check_memory rnd os op st)"
  by (simp add: check_memory_def Let_def split: option.split)

lemma overloaded_at_limit:
  "op_max_total_connections op \<le> op_total_connections op \<Longrightarrow> sys_overloaded rnd os op"
  by (simp add: sys_overloaded_def overload_check_def)

lemma not_overloaded_below_limit:
  "\<not> sys_overloaded rnd os op \<Longrightarrow> op_total_connections op < op_max_total_connections op"
  by (meson not_le overloaded_at_limit)

section \<open>Properties\<close>

text \<open>The exact condition, resource by resource, under which the protector reports overload.\<close>

definition fds_exhausted :: "(rat \<Rightarrow> rat) \<Rightarrow> os_view \<Rightarrow> overload_protector \<Rightarrow> bool" where
  "fds_exhausted rnd os op \<longleftrightarrow>
     (\<exists>cur. rlim_nofile os = Some cur \<and> cur > 0
        \<and> rnd (of_int (fd_lines os) / of_int cur) \<ge> op_fd_threshold_pct op)"

definition memory_exhausted :: "(rat \<Rightarrow> rat) \<Rightarrow> os_view \<Rightarrow> overload_protector \<Rightarrow> bool" where
  "memory_exhausted rnd os op \<longleftrightarrow>
     (\<exists>mem_total avail. meminfo os = Some (mem_total, avail) \<and> mem_total > 0
        \<and> rnd (1 - rnd (of_int avail / of_int mem_total)) \<ge> op_mem_threshold_pct op)"

text \<open>
  the protector reports overload exactly when the connection limit is reached, the descriptors
  or the memory are past their threshold, and the reason it gives names a resource that is
  exhausted, the connection limit first and the memory before the descriptors.
\<close>

theorem overload_check_exact:
  "(sys_overloaded rnd os op \<longleftrightarrow>
     op_total_connections op \<ge> op_max_total_connections op
     \<or> fds_exhausted rnd os op \<or> memory_exhausted rnd os op)
   \<and> reason (overload_check rnd os op) =
     (if op_total_connections op \<ge> op_max_total_connections op then ''total_connections_limit''
      else if memory_exhausted rnd os op then ''memory_limit''
      else if fds_exhausted rnd os op then ''fd_limit'' else '''')"
  by (auto simp: sys_overloaded_def overload_check_def check_fds_def check_memory_def
      fds_exhausted_def memory_exhausted_def Let_def split: option.split)

end
