(* ===== verification/Connection_Admitter.thy ===== *)
theory Connection_Admitter
  imports Rate_Limiter Overload_Protector
begin

text \<open>
  \<^verbatim>\<open>src/src/concurrency/connection_admitter.cpp\<close>: the admission decision over the rate limiter, the
  overload protector, the per-user and the total limit, the waiting queue with its priority for
  reconnects, and the release that drains the queue. Callbacks are opaque values of type \<open>'cb\<close>;
  the operations return the callbacks they invoke, in order.
\<close>

section \<open>State\<close>

datatype admit_result =
  Accepted | Queued | Rejected_total | Rejected_user | Rejected_rate | Rejected_banned
  | Rejected_overload

record admit_response =
  ar_result :: admit_result
  ar_reason :: string
  ar_queue_position :: int

record 'cb queued_connection =
  qc_session_id :: string
  qc_username :: string
  qc_client_ip :: string
  qc_enqueue_time :: time_point
  qc_on_admit :: "'cb option"
  qc_on_timeout :: "'cb option"
  qc_is_reconnect :: bool

record 'cb connection_admitter =
  adm_max_connections :: int
  adm_max_connections_per_user :: int
  adm_queue_enabled :: bool
  adm_max_queue_size :: int
  adm_queue_timeout_seconds :: int
  adm_active_connections :: int
  adm_user_connections :: "string \<rightharpoonup> int"
  adm_queue :: "'cb queued_connection list"

definition new_connection_admitter :: "'cb connection_admitter" where
  "new_connection_admitter = \<lparr>adm_max_connections = 4000, adm_max_connections_per_user = 50,
     adm_queue_enabled = True, adm_max_queue_size = 200, adm_queue_timeout_seconds = 60,
     adm_active_connections = 0, adm_user_connections = Map.empty, adm_queue = []\<rparr>"

definition admitter_init ::
    "int \<Rightarrow> int \<Rightarrow> bool \<Rightarrow> int \<Rightarrow> int \<Rightarrow> 'cb connection_admitter \<Rightarrow> 'cb connection_admitter" where
  "admitter_init max_conns max_user queue_enabled max_queue timeout adm =
     adm\<lparr>adm_max_connections := max_conns, adm_max_connections_per_user := max_user,
         adm_queue_enabled := queue_enabled, adm_max_queue_size := max_queue,
         adm_queue_timeout_seconds := timeout\<rparr>"

section \<open>Operations\<close>

definition user_limit_reached :: "string \<Rightarrow> 'cb connection_admitter \<Rightarrow> bool" where
  "user_limit_reached user adm =
     (case adm_user_connections adm user of
        None \<Rightarrow> False
      | Some c \<Rightarrow> c \<ge> adm_max_connections_per_user adm)"

text \<open>A reconnect goes behind the reconnects at the front of the queue, any other to its end.\<close>

definition queue_insert ::
    "'cb queued_connection \<Rightarrow> 'cb queued_connection list \<Rightarrow> 'cb queued_connection list" where
  "queue_insert qc q =
     (if qc_is_reconnect qc
      then takeWhile qc_is_reconnect q @ qc # dropWhile qc_is_reconnect q
      else q @ [qc])"

definition admit_one :: "string \<Rightarrow> 'cb connection_admitter \<Rightarrow> 'cb connection_admitter" where
  "admit_one user adm =
     adm\<lparr>adm_active_connections := adm_active_connections adm + 1,
         adm_user_connections := counter_inc user (adm_user_connections adm)\<rparr>"

text \<open>The decision once the rate, the ban and the overload test have passed.\<close>

definition admit_or_queue ::
    "time_point \<Rightarrow> string \<Rightarrow> string \<Rightarrow> string \<Rightarrow> 'cb option \<Rightarrow> 'cb option \<Rightarrow> bool
     \<Rightarrow> 'cb connection_admitter \<Rightarrow> admit_response \<times> 'cb connection_admitter" where
  "admit_or_queue now session_id ip user on_admit on_timeout is_reconnect adm =
     (if user_limit_reached user adm
      then (\<lparr>ar_result = Rejected_user, ar_reason = ''user_limit_reached'', ar_queue_position = 0\<rparr>, adm)
      else if adm_active_connections adm \<ge> adm_max_connections adm then
        (if \<not> adm_queue_enabled adm
         then (\<lparr>ar_result = Rejected_total, ar_reason = ''total_limit_reached'',
                ar_queue_position = 0\<rparr>, adm)
         else if int (length (adm_queue adm)) \<ge> adm_max_queue_size adm
         then (\<lparr>ar_result = Rejected_total, ar_reason = ''queue_full'', ar_queue_position = 0\<rparr>, adm)
         else
           let qc = \<lparr>qc_session_id = session_id, qc_username = user, qc_client_ip = ip,
                     qc_enqueue_time = now, qc_on_admit = on_admit, qc_on_timeout = on_timeout,
                     qc_is_reconnect = is_reconnect\<rparr>;
               adm1 = adm\<lparr>adm_queue := queue_insert qc (adm_queue adm)\<rparr>
           in (\<lparr>ar_result = Queued, ar_reason = ''queued'',
                ar_queue_position = int (length (adm_queue adm1))\<rparr>, adm1))
      else (\<lparr>ar_result = Accepted, ar_reason = ''accepted'', ar_queue_position = 0\<rparr>,
            admit_one user adm))"

definition request_admit ::
    "(rat \<Rightarrow> rat) \<Rightarrow> os_view \<Rightarrow> time_point \<Rightarrow> string \<Rightarrow> string \<Rightarrow> string \<Rightarrow> 'cb option \<Rightarrow> 'cb option
     \<Rightarrow> bool \<Rightarrow> rate_limiter \<Rightarrow> overload_protector \<Rightarrow> 'cb connection_admitter
     \<Rightarrow> admit_response \<times> rate_limiter \<times> 'cb connection_admitter" where
  "request_admit rnd os now session_id ip user on_admit on_timeout is_reconnect rl op adm =
     (let (rate_ok, rl1) = check_connection_rate now ip rl in
      if \<not> rate_ok
      then (\<lparr>ar_result = Rejected_rate, ar_reason = ''rate_limited'', ar_queue_position = 0\<rparr>, rl1, adm)
      else if \<not> check_auth_rate now ip rl1
      then (\<lparr>ar_result = Rejected_banned, ar_reason = ''ip_banned'', ar_queue_position = 0\<rparr>, rl1, adm)
      else if sys_overloaded rnd os op
      then (\<lparr>ar_result = Rejected_overload, ar_reason = ''system_overloaded'',
             ar_queue_position = 0\<rparr>, rl1, adm)
      else
        let (resp, adm1) =
          admit_or_queue now session_id ip user on_admit on_timeout is_reconnect adm
        in (resp, rl1, adm1))"

text \<open>
  The draining loop of \<^verbatim>\<open>dequeue_connections\<close>: it ends because every round takes one entry off the
  queue. It returns the admit callbacks it invokes.
\<close>

function drain :: "'cb connection_admitter \<Rightarrow> 'cb connection_admitter \<times> 'cb list" where
  "drain adm =
     (case adm_queue adm of
        [] \<Rightarrow> (adm, [])
      | front # rest \<Rightarrow>
          if adm_active_connections adm < adm_max_connections adm then
            let (adm1, cbs) = drain (admit_one (qc_username front) (adm\<lparr>adm_queue := rest\<rparr>))
            in (adm1, (case qc_on_admit front of None \<Rightarrow> cbs | Some cb \<Rightarrow> cb # cbs))
          else (adm, []))"
  by pat_completeness auto
termination
  by (relation "measure (length \<circ> adm_queue)") (auto simp: admit_one_def)

definition timed_out :: "time_point \<Rightarrow> 'cb connection_admitter \<Rightarrow> 'cb queued_connection \<Rightarrow> bool" where
  "timed_out now adm qc \<longleftrightarrow> secs_between now (qc_enqueue_time qc) \<ge> adm_queue_timeout_seconds adm"

definition check_queue_timeouts ::
    "time_point \<Rightarrow> 'cb connection_admitter \<Rightarrow> 'cb connection_admitter \<times> 'cb list" where
  "check_queue_timeouts now adm =
     (adm\<lparr>adm_queue := filter (\<lambda>qc. \<not> timed_out now adm qc) (adm_queue adm)\<rparr>,
      List.map_filter qc_on_timeout (filter (timed_out now adm) (adm_queue adm)))"

definition dequeue_connections ::
    "time_point \<Rightarrow> 'cb connection_admitter \<Rightarrow> 'cb connection_admitter \<times> 'cb list" where
  "dequeue_connections now adm =
     (let (adm1, admits) = drain adm; (adm2, timeouts) = check_queue_timeouts now adm1
      in (adm2, admits @ timeouts))"

definition release_connection ::
    "time_point \<Rightarrow> string \<Rightarrow> 'cb connection_admitter \<Rightarrow> 'cb connection_admitter \<times> 'cb list" where
  "release_connection now user adm =
     dequeue_connections now
       (adm\<lparr>adm_active_connections := (if adm_active_connections adm > 0
                                      then adm_active_connections adm - 1
                                      else adm_active_connections adm),
            adm_user_connections := counter_dec user (adm_user_connections adm)\<rparr>)"

definition adm_get_user_connections :: "string \<Rightarrow> 'cb connection_admitter \<Rightarrow> int" where
  "adm_get_user_connections user adm = counter_get user (adm_user_connections adm)"

definition get_active_connections :: "'cb connection_admitter \<Rightarrow> int" where
  "get_active_connections adm = adm_active_connections adm"

definition get_queued_count :: "'cb connection_admitter \<Rightarrow> int" where
  "get_queued_count adm = int (length (adm_queue adm))"

definition set_max_connections :: "int \<Rightarrow> 'cb connection_admitter \<Rightarrow> 'cb connection_admitter" where
  "set_max_connections n adm = adm\<lparr>adm_max_connections := n\<rparr>"

definition set_max_connections_per_user ::
    "int \<Rightarrow> 'cb connection_admitter \<Rightarrow> 'cb connection_admitter" where
  "set_max_connections_per_user n adm = adm\<lparr>adm_max_connections_per_user := n\<rparr>"

definition set_queue_enabled :: "bool \<Rightarrow> 'cb connection_admitter \<Rightarrow> 'cb connection_admitter" where
  "set_queue_enabled b adm = adm\<lparr>adm_queue_enabled := b\<rparr>"

definition set_max_queue_size :: "int \<Rightarrow> 'cb connection_admitter \<Rightarrow> 'cb connection_admitter" where
  "set_max_queue_size n adm = adm\<lparr>adm_max_queue_size := n\<rparr>"

lemmas admit_defs = admit_or_queue_def request_admit_def user_limit_reached_def admit_one_def Let_def

section \<open>Queue discipline\<close>

text \<open>
  The queue holds the reconnects before everything else, and within either class the order of
  arrival.
\<close>

abbreviation reconnects_first :: "'cb queued_connection list \<Rightarrow> bool" where
  "reconnects_first \<equiv> leads qc_is_reconnect"

lemma queue_insert_eq: "queue_insert qc q = insert_leading qc_is_reconnect qc q"
  by (simp add: queue_insert_def insert_leading_def)

section \<open>Draining\<close>

text \<open>
  \<open>admit_all us\<close> admits the users \<open>us\<close> one after the other; draining admits the owners of the
  first entries of the queue, as many as there are free places.
\<close>

definition free_places :: "'cb connection_admitter \<Rightarrow> nat" where
  "free_places adm = nat (adm_max_connections adm - adm_active_connections adm)"

declare drain.simps [simp del]

lemma drain_eq:
  "drain adm =
     (let n = free_places adm; out = take n (adm_queue adm)
      in ((fold admit_one (map qc_username out) adm)\<lparr>adm_queue := drop n (adm_queue adm)\<rparr>,
          List.map_filter qc_on_admit out))"
proof (induction adm rule: drain.induct)
  case (1 adm)
  show ?case
  proof (cases "adm_queue adm")
    case Nil
    then show ?thesis by (simp add: drain.simps [of adm] map_filter_simps)
  next
    case (Cons front rest)
    show ?thesis
    proof (cases "adm_active_connections adm < adm_max_connections adm")
      case False
      with Cons show ?thesis
        by (simp add: drain.simps [of adm] free_places_def map_filter_simps)
    next
      case True
      let ?adm = "admit_one (qc_username front) (adm\<lparr>adm_queue := rest\<rparr>)"
      have n: "free_places adm = Suc (free_places ?adm)"
        using True by (simp add: free_places_def admit_one_def)
      have q: "adm_queue ?adm = rest" by (simp add: admit_one_def)
      have swap: "admit_one u (a\<lparr>adm_queue := q\<rparr>) = (admit_one u a)\<lparr>adm_queue := q\<rparr>" for u q
        and a :: "'a connection_admitter"
        by (simp add: admit_one_def)
      have fold_swap: "fold admit_one us (a\<lparr>adm_queue := q\<rparr>) = (fold admit_one us a)\<lparr>adm_queue := q\<rparr>"
        for us q and a :: "'a connection_admitter"
        by (induction us arbitrary: a) (simp_all add: swap)
      have "drain ?adm = (let m = free_places ?adm; out = take m rest
          in ((fold admit_one (map qc_username out) ?adm)\<lparr>adm_queue := drop m rest\<rparr>,
              List.map_filter qc_on_admit out))"
        using "1.IH" [OF Cons True] q by simp
      then show ?thesis
        using Cons True
        by (simp add: drain.simps [of adm] n Let_def swap fold_swap map_filter_simps
            split: option.split)
    qed
  qed
qed

lemma fold_admit_one_fields [simp]:
  "adm_active_connections (fold admit_one us adm) = adm_active_connections adm + int (length us)"
  "adm_max_connections (fold admit_one us adm) = adm_max_connections adm"
  "adm_max_connections_per_user (fold admit_one us adm) = adm_max_connections_per_user adm"
  "adm_max_queue_size (fold admit_one us adm) = adm_max_queue_size adm"
  "adm_queue_timeout_seconds (fold admit_one us adm) = adm_queue_timeout_seconds adm"
  "adm_queue_enabled (fold admit_one us adm) = adm_queue_enabled adm"
  "adm_user_connections (fold admit_one us adm) = fold counter_inc us (adm_user_connections adm)"
  by (induction us arbitrary: adm) (simp_all add: admit_one_def)

section \<open>Invariant\<close>

definition adm_inv :: "'cb connection_admitter \<Rightarrow> bool" where
  "adm_inv adm \<longleftrightarrow>
     finite (dom (adm_user_connections adm)) \<and> counters_pos (adm_user_connections adm)
     \<and> 0 \<le> adm_active_connections adm
     \<and> adm_active_connections adm \<le> max 0 (adm_max_connections adm)
     \<and> int (length (adm_queue adm)) \<le> max 0 (adm_max_queue_size adm)
     \<and> reconnects_first (adm_queue adm)"

text \<open>The per-user counts and the total count the same connections.\<close>

definition adm_balanced :: "'cb connection_admitter \<Rightarrow> bool" where
  "adm_balanced adm \<longleftrightarrow> counter_total (adm_user_connections adm) = adm_active_connections adm"

datatype 'cb adm_event =
  Request time_point string string string "'cb option" "'cb option" bool
| Release time_point string

fun adm_step :: "'cb adm_event \<Rightarrow> 'cb connection_admitter \<Rightarrow> 'cb connection_admitter" where
  "adm_step (Request now session_id ip user on_admit on_timeout is_reconnect) adm =
     snd (admit_or_queue now session_id ip user on_admit on_timeout is_reconnect adm)"
| "adm_step (Release now user) adm = fst (release_connection now user adm)"

lemma dequeue_eq:
  "dequeue_connections now adm =
     (let out = take (free_places adm) (adm_queue adm); rest = drop (free_places adm) (adm_queue adm)
      in ((fold admit_one (map qc_username out) adm)
            \<lparr>adm_queue := filter (\<lambda>qc. \<not> timed_out now adm qc) rest\<rparr>,
          List.map_filter qc_on_admit out
            @ List.map_filter qc_on_timeout (filter (timed_out now adm) rest)))"
  by (simp add: dequeue_connections_def drain_eq check_queue_timeouts_def Let_def timed_out_def
      cong: filter_cong)

lemma adm_inv_dequeue:
  assumes "adm_inv adm" shows "adm_inv (fst (dequeue_connections now adm))"
proof -
  let ?n = "free_places adm" and ?q = "adm_queue adm"
  have "length (filter (\<lambda>qc. \<not> timed_out now adm qc) (drop ?n ?q)) \<le> length ?q"
    by (rule le_trans [OF length_filter_le]) simp
  moreover have "adm_active_connections adm + int (length (take ?n ?q))
      \<le> max 0 (adm_max_connections adm)"
    using assms by (auto simp: adm_inv_def free_places_def)
  ultimately show ?thesis
    using assms by (simp add: dequeue_eq adm_inv_def Let_def)
qed

lemma adm_balanced_dequeue:
  assumes "adm_inv adm" "adm_balanced adm"
  shows "adm_balanced (fst (dequeue_connections now adm))"
  using assms
  by (simp add: dequeue_eq adm_balanced_def adm_inv_def counter_total_fold_inc Let_def)

definition released :: "string \<Rightarrow> 'cb connection_admitter \<Rightarrow> 'cb connection_admitter" where
  "released user adm =
     adm\<lparr>adm_active_connections := (if adm_active_connections adm > 0
                                   then adm_active_connections adm - 1
                                   else adm_active_connections adm),
         adm_user_connections := counter_dec user (adm_user_connections adm)\<rparr>"

lemma release_connection_eq:
  "release_connection now user adm = dequeue_connections now (released user adm)"
  by (simp add: release_connection_def released_def)

lemma adm_inv_released: "adm_inv adm \<Longrightarrow> adm_inv (released user adm)"
  by (auto simp: adm_inv_def released_def)

lemma adm_inv_admit_one:
  "adm_inv adm \<Longrightarrow> adm_active_connections adm < adm_max_connections adm \<Longrightarrow>
   adm_inv (admit_one user adm)"
  by (auto simp: adm_inv_def admit_one_def)

lemma adm_inv_enqueue:
  "adm_inv adm \<Longrightarrow> int (length (adm_queue adm)) < adm_max_queue_size adm \<Longrightarrow>
   adm_inv (adm\<lparr>adm_queue := queue_insert qc (adm_queue adm)\<rparr>)"
  by (auto simp: adm_inv_def queue_insert_eq leads_insert_leading)

lemma adm_inv_request:
  "adm_inv adm \<Longrightarrow> adm_inv (snd (admit_or_queue now sid ip user cb1 cb2 re adm))"
  by (simp add: admit_or_queue_def Let_def adm_inv_enqueue adm_inv_admit_one)

lemma adm_step_inv: "adm_inv adm \<Longrightarrow> adm_inv (adm_step e adm)"
  by (cases e) (simp_all add: adm_inv_request adm_inv_dequeue adm_inv_released release_connection_eq)

interpretation adm_run: stepper adm_step adm_inv "\<lambda>_. True"
  by unfold_locales (rule adm_step_inv)

lemma adm_inv_new: "adm_inv new_connection_admitter"
  by (simp add: adm_inv_def new_connection_admitter_def)

lemma admit_or_queue_config [simp]:
  "adm_max_connections (snd (admit_or_queue now sid ip user cb1 cb2 re adm)) = adm_max_connections adm"
  "adm_max_queue_size (snd (admit_or_queue now sid ip user cb1 cb2 re adm)) = adm_max_queue_size adm"
  by (simp_all add: admit_defs)

lemma adm_step_config [simp]:
  "adm_max_connections (adm_step e adm) = adm_max_connections adm"
  "adm_max_queue_size (adm_step e adm) = adm_max_queue_size adm"
  by (cases e; simp add: release_connection_eq dequeue_eq released_def Let_def)+

lemma adm_run_config [simp]:
  "adm_max_connections (fold adm_step es adm) = adm_max_connections adm"
  "adm_max_queue_size (fold adm_step es adm) = adm_max_queue_size adm"
  by (induction es arbitrary: adm) simp_all

text \<open>Releases that name a user who holds a connection at that moment.\<close>

fun releases_matched :: "'cb adm_event list \<Rightarrow> 'cb connection_admitter \<Rightarrow> bool" where
  "releases_matched [] adm = True"
| "releases_matched (e # es) adm =
     ((case e of Release now user \<Rightarrow> 0 < adm_get_user_connections user adm | _ \<Rightarrow> True)
      \<and> releases_matched es (adm_step e adm))"

lemma adm_balanced_request:
  "adm_inv adm \<Longrightarrow> adm_balanced adm \<Longrightarrow>
   adm_balanced (snd (admit_or_queue now sid ip user cb1 cb2 re adm))"
  by (simp add: admit_or_queue_def adm_balanced_def adm_inv_def admit_one_def counter_total_inc Let_def)

lemma counter_total_nonneg: "counters_pos m \<Longrightarrow> 0 \<le> counter_total m"
  unfolding counter_total_def counters_pos_def by (force intro: sum_nonneg)

lemma adm_balanced_release:
  assumes "adm_inv adm" "adm_balanced adm" "0 < adm_get_user_connections user adm"
  shows "adm_balanced (fst (release_connection now user adm))"
proof -
  let ?m = "adm_user_connections adm"
  have some: "?m user \<noteq> None"
    using assms(3) by (auto simp: adm_get_user_connections_def counter_get_def split: option.splits)
  have "counter_total (counter_dec user ?m) = counter_total ?m - 1"
    using assms(1) some by (simp add: adm_inv_def counter_total_dec)
  moreover have "0 \<le> counter_total (counter_dec user ?m)"
    using assms(1) by (simp add: adm_inv_def counter_total_nonneg)
  ultimately have "adm_balanced (released user adm)"
    using assms(2) by (simp add: adm_balanced_def released_def)
  then show ?thesis
    using assms(1) by (simp add: release_connection_eq adm_balanced_dequeue adm_inv_released)
qed

lemma adm_balanced_run:
  "adm_inv adm \<Longrightarrow> adm_balanced adm \<Longrightarrow> releases_matched es adm \<Longrightarrow>
   adm_balanced (fold adm_step es adm)"
proof (induction es arbitrary: adm)
  case (Cons e es)
  have "adm_balanced (adm_step e adm)"
    using Cons.prems by (cases e) (simp_all add: adm_balanced_request adm_balanced_release)
  with Cons show ?case by (simp add: adm_step_inv)
qed simp

section \<open>Properties\<close>

text \<open>
  C5: no sequence of admission requests and releases takes the number of active connections above
  the limit or below zero, the waiting queue above its size, or a reconnect behind another waiter.
\<close>

theorem admitter_respects_limits:
  assumes "adm_inv adm" "0 \<le> adm_max_connections adm" "0 \<le> adm_max_queue_size adm"
  shows "0 \<le> adm_active_connections (fold adm_step es adm)
    \<and> adm_active_connections (fold adm_step es adm) \<le> adm_max_connections adm
    \<and> int (length (adm_queue (fold adm_step es adm))) \<le> adm_max_queue_size adm
    \<and> reconnects_first (adm_queue (fold adm_step es adm))"
  using adm_run.run_inv [OF assms(1), of es] assms(2,3) by (simp add: adm_inv_def)

theorem admitter_respects_limits_witness:
  "adm_active_connections (fold adm_step
     [Request 0 ''s1'' ''ip'' ''u'' None None False, Request 1 ''s2'' ''ip'' ''u'' None None True,
      Release 2 ''u'']
     (new_connection_admitter :: unit connection_admitter)) \<le> 4000"
  using admitter_respects_limits [of "new_connection_admitter :: unit connection_admitter"
      "[Request 0 ''s1'' ''ip'' ''u'' None None False, Request 1 ''s2'' ''ip'' ''u'' None None True,
      Release 2 ''u'']"]
  by (simp add: adm_inv_new) (simp add: new_connection_admitter_def)

text \<open>
  as long as every release names a user who holds a connection, the per-user counts add up to
  the number of active connections after any sequence of operations.
\<close>

theorem user_counts_add_up:
  assumes "releases_matched es (new_connection_admitter :: 'cb connection_admitter)"
  shows "counter_total (adm_user_connections (fold adm_step es
      (new_connection_admitter :: 'cb connection_admitter)))
    = adm_active_connections (fold adm_step es new_connection_admitter)"
proof -
  have "adm_balanced (new_connection_admitter :: 'cb connection_admitter)"
    by (simp add: adm_balanced_def new_connection_admitter_def)
  from adm_balanced_run [OF adm_inv_new this assms] show ?thesis by (simp add: adm_balanced_def)
qed

theorem user_counts_add_up_witness:
  "counter_total (adm_user_connections (fold adm_step
      [Request 0 ''s1'' ''ip'' ''u'' None None False, Release 2 ''u'']
      (new_connection_admitter :: unit connection_admitter)))
    = adm_active_connections (fold adm_step
      [Request 0 ''s1'' ''ip'' ''u'' None None False, Release 2 ''u'']
      (new_connection_admitter :: unit connection_admitter))"
  by (rule user_counts_add_up)
    (simp add: new_connection_admitter_def admit_defs adm_get_user_connections_def counter_defs)

text \<open>
  C22: a release serves the queue in order: it admits exactly its first entries, as many as there
  are free places after the release, then drops the expired entries of the rest; the callbacks run
  in that order, and nobody is left waiting while a place is free.
\<close>

theorem release_serves_queue_in_order:
  "\<exists>n. n = min (length (adm_queue adm)) (free_places (released user adm))
    \<and> adm_queue (fst (release_connection now user adm))
        = filter (\<lambda>qc. \<not> timed_out now adm qc) (drop n (adm_queue adm))
    \<and> adm_active_connections (fst (release_connection now user adm))
        = adm_active_connections (released user adm) + int n
    \<and> snd (release_connection now user adm)
        = List.map_filter qc_on_admit (take n (adm_queue adm))
          @ List.map_filter qc_on_timeout (filter (timed_out now adm) (drop n (adm_queue adm)))
    \<and> (adm_queue (fst (release_connection now user adm)) = []
       \<or> adm_max_connections adm \<le> adm_active_connections (fst (release_connection now user adm)))"
proof -
  let ?q = "adm_queue adm" and ?f = "free_places (released user adm)"
  have same: "adm_queue (released user adm) = ?q" "timed_out now (released user adm) = timed_out now adm"
    "adm_max_connections (released user adm) = adm_max_connections adm"
    by (simp_all add: released_def timed_out_def fun_eq_iff)
  have "take (min (length ?q) ?f) ?q = take ?f ?q" "drop (min (length ?q) ?f) ?q = drop ?f ?q"
    by (simp_all add: min_def)
  moreover have "?f < length ?q \<Longrightarrow>
      adm_max_connections adm \<le> adm_active_connections (released user adm) + int ?f"
    using same by (simp add: free_places_def)
  ultimately show ?thesis
    by (auto simp: release_connection_eq dequeue_eq same Let_def min_def)
qed

text \<open>
  a request is accepted exactly when the rate limiter passes it, the address is not banned, the
  system is not overloaded, the user is below the per-user limit and there is a free place; only
  then does it count a connection, for that user, and the user stays within the limit.
\<close>

theorem request_accepted_iff:
  assumes "0 < adm_max_connections_per_user adm"
  shows "let (resp, rl1, adm1) = request_admit rnd os now sid ip user cb1 cb2 re rl op adm in
    (ar_result resp = Accepted \<longleftrightarrow>
       fst (check_connection_rate now ip rl)
       \<and> check_auth_rate now ip (snd (check_connection_rate now ip rl))
       \<and> \<not> sys_overloaded rnd os op
       \<and> adm_get_user_connections user adm < adm_max_connections_per_user adm
       \<and> adm_active_connections adm < adm_max_connections adm)
    \<and> rl1 = snd (check_connection_rate now ip rl)
    \<and> adm_active_connections adm1
        = adm_active_connections adm + (if ar_result resp = Accepted then 1 else 0)
    \<and> (\<forall>u. adm_get_user_connections u adm1 = adm_get_user_connections u adm
             + (if ar_result resp = Accepted \<and> u = user then 1 else 0))
    \<and> length (adm_queue adm1)
        = length (adm_queue adm) + (if ar_result resp = Queued then 1 else 0)"
proof -
  have limit: "user_limit_reached user adm
      \<longleftrightarrow> \<not> adm_get_user_connections user adm < adm_max_connections_per_user adm"
    using assms by (auto simp: user_limit_reached_def adm_get_user_connections_def counter_get_def
        split: option.split)
  have one: "adm_get_user_connections u (admit_one user adm)
      = adm_get_user_connections u adm + (if u = user then 1 else 0)" for u
    by (simp add: adm_get_user_connections_def admit_one_def counter_get_inc)
  have queue: "adm_get_user_connections u (adm\<lparr>adm_queue := q\<rparr>) = adm_get_user_connections u adm" for u q
    by (simp add: adm_get_user_connections_def)
  have active: "adm_active_connections (admit_one user adm) = adm_active_connections adm + 1"
    "adm_queue (admit_one user adm) = adm_queue adm"
    by (simp_all add: admit_one_def)
  show ?thesis
    by (cases "check_connection_rate now ip rl")
      (auto simp: request_admit_def admit_or_queue_def limit one queue active queue_insert_eq Let_def)
qed

theorem request_accepted_iff_witness:
  "let (resp, rl1, adm1) = request_admit id
       \<lparr>rlim_nofile = None, fd_lines = 0, meminfo = None\<rparr> 0 ''s'' ''ip'' ''u'' None None False
       new_rate_limiter new_overload_protector (new_connection_admitter :: unit connection_admitter)
   in ar_result resp = Accepted \<and> adm_active_connections adm1 = 1"
  using request_accepted_iff [of "new_connection_admitter :: unit connection_admitter" id
      "\<lparr>rlim_nofile = None, fd_lines = 0, meminfo = None\<rparr>" 0 "''s''" "''ip''" "''u''" None None
      False new_rate_limiter new_overload_protector]
  by (simp add: new_connection_admitter_def new_rate_limiter_def new_overload_protector_def
      rl_defs overload_check_exact fds_exhausted_def memory_exhausted_def adm_get_user_connections_def
      counter_get_def split: prod.splits)

text \<open>
  draining the queue does not look at the per-user limit: requests queued while the user is
  below the limit are all admitted later, so a user can hold more connections than the limit.
\<close>

theorem queue_exceeds_user_limit:
  "\<exists>(adm :: unit connection_admitter) es user. adm_inv adm
    \<and> adm_get_user_connections user adm \<le> adm_max_connections_per_user adm
    \<and> adm_get_user_connections user (fold adm_step es adm) > adm_max_connections_per_user adm"
proof -
  let ?adm = "admitter_init 2 1 True 200 60 (new_connection_admitter :: unit connection_admitter)"
  let ?es = "[Request 0 ''s1'' ''i'' ''x'' None None False, Request 0 ''s2'' ''j'' ''y'' None None False,
     Request 0 ''s3'' ''k'' ''u'' None None False, Request 0 ''s4'' ''k'' ''u'' None None False,
     Release 1 ''x'', Release 1 ''y'']"
  have "adm_inv ?adm" by (simp add: adm_inv_def admitter_init_def new_connection_admitter_def)
  moreover have "adm_get_user_connections ''u'' ?adm = 0"
    by (simp add: adm_get_user_connections_def admitter_init_def new_connection_admitter_def
        counter_get_def)
  moreover have "adm_get_user_connections ''u'' (fold adm_step ?es ?adm) = 2"
    by (simp add: adm_get_user_connections_def admitter_init_def new_connection_admitter_def
        admit_defs release_connection_eq released_def dequeue_eq free_places_def counter_defs
        queue_insert_def timed_out_def secs_between_def ns_per_sec_def signed_divide_int_def)
  moreover have "adm_max_connections_per_user ?adm = 1" by (simp add: admitter_init_def)
  ultimately show ?thesis by (metis one_less_numeral_iff semiring_norm(76) zero_less_one_class.zero_le_one)
qed

end
