(* ===== verification/Connection_Registry.thy ===== *)
theory Connection_Registry
  imports Prelude
begin

text \<open>
  \<^verbatim>\<open>src/src/concurrency/connection_registry.cpp\<close> and \<^verbatim>\<open>timeout_scanner.cpp\<close>: the table of live
  sessions with their protocol state and time stamps, and the scan that reports the sessions whose
  time is up. Loops over the table take its iteration order \<open>ks\<close> (\<open>iterates ks m\<close>).
\<close>

section \<open>State\<close>

datatype connection_state = Authenticating | Handshaking | Active | Idle | In_queue | Closing

record connection_record =
  cr_session_id :: string
  cr_client_ip :: string
  cr_username :: string
  cr_assigned_node_tag :: string
  cr_state :: connection_state
  cr_admit_time :: time_point
  cr_idle_since :: time_point
  cr_exempt_idle :: bool

definition new_connection_record :: connection_record where
  "new_connection_record = \<lparr>cr_session_id = '''', cr_client_ip = '''', cr_username = '''',
     cr_assigned_node_tag = '''', cr_state = Authenticating, cr_admit_time = 0, cr_idle_since = 0,
     cr_exempt_idle = False\<rparr>"

type_synonym connection_registry = "string \<rightharpoonup> connection_record"

text \<open>
  The underlying integer of the enumeration, which the status API reports, orders the states.
\<close>

fun state_code :: "connection_state \<Rightarrow> nat" where
  "state_code Authenticating = 0"
| "state_code Handshaking = 1"
| "state_code Active = 2"
| "state_code Idle = 3"
| "state_code In_queue = 4"
| "state_code Closing = 5"

lemma state_code_inj [simp]: "state_code a = state_code b \<longleftrightarrow> a = b"
  by (cases a; cases b) simp_all

instantiation connection_state :: linorder
begin

definition less_eq_connection_state :: "connection_state \<Rightarrow> connection_state \<Rightarrow> bool" where
  "less_eq_connection_state a b \<longleftrightarrow> state_code a \<le> state_code b"

definition less_connection_state :: "connection_state \<Rightarrow> connection_state \<Rightarrow> bool" where
  "less_connection_state a b \<longleftrightarrow> state_code a < state_code b"

instance
  by standard (auto simp: less_eq_connection_state_def less_connection_state_def)

end

section \<open>Operations\<close>

definition register_connection ::
    "time_point \<Rightarrow> string \<Rightarrow> string \<Rightarrow> string \<Rightarrow> connection_registry \<Rightarrow> connection_registry" where
  "register_connection now sid ip user reg =
     (let rec0 = (case reg sid of None \<Rightarrow> new_connection_record | Some r \<Rightarrow> r)
      in reg(sid \<mapsto> rec0\<lparr>cr_session_id := sid, cr_client_ip := ip, cr_username := user,
                         cr_state := Authenticating, cr_admit_time := now, cr_idle_since := now\<rparr>))"

definition unregister_connection :: "string \<Rightarrow> connection_registry \<Rightarrow> connection_registry" where
  "unregister_connection sid reg = reg(sid := None)"

definition modify_record ::
    "string \<Rightarrow> (connection_record \<Rightarrow> connection_record) \<Rightarrow> connection_registry \<Rightarrow> connection_registry" where
  "modify_record sid f reg = (case reg sid of None \<Rightarrow> reg | Some r \<Rightarrow> reg(sid \<mapsto> f r))"

definition reg_update_state ::
    "time_point \<Rightarrow> string \<Rightarrow> connection_state \<Rightarrow> connection_registry \<Rightarrow> connection_registry" where
  "reg_update_state now sid st =
     modify_record sid (\<lambda>r. if st = Active then r\<lparr>cr_state := st, cr_idle_since := now\<rparr>
                            else r\<lparr>cr_state := st\<rparr>)"

definition reg_update_node :: "string \<Rightarrow> string \<Rightarrow> connection_registry \<Rightarrow> connection_registry" where
  "reg_update_node sid tag = modify_record sid (\<lambda>r. r\<lparr>cr_assigned_node_tag := tag\<rparr>)"

definition mark_idle :: "time_point \<Rightarrow> string \<Rightarrow> connection_registry \<Rightarrow> connection_registry" where
  "mark_idle now sid = modify_record sid (\<lambda>r. r\<lparr>cr_state := Idle, cr_idle_since := now\<rparr>)"

definition mark_active :: "time_point \<Rightarrow> string \<Rightarrow> connection_registry \<Rightarrow> connection_registry" where
  "mark_active now sid = modify_record sid (\<lambda>r. r\<lparr>cr_state := Active, cr_idle_since := now\<rparr>)"

definition set_exempt_idle :: "string \<Rightarrow> bool \<Rightarrow> connection_registry \<Rightarrow> connection_registry" where
  "set_exempt_idle sid ex = modify_record sid (\<lambda>r. r\<lparr>cr_exempt_idle := ex\<rparr>)"

definition reg_get :: "string \<Rightarrow> connection_registry \<Rightarrow> connection_record option" where
  "reg_get sid reg = reg sid"

definition reg_get_all :: "string list \<Rightarrow> connection_registry \<Rightarrow> connection_record list" where
  "reg_get_all ks reg = vals ks reg"

definition reg_get_by_user :: "string list \<Rightarrow> string \<Rightarrow> connection_registry \<Rightarrow> connection_record list" where
  "reg_get_by_user ks user reg = filter (\<lambda>r. cr_username r = user) (vals ks reg)"

definition reg_get_by_node :: "string list \<Rightarrow> string \<Rightarrow> connection_registry \<Rightarrow> connection_record list" where
  "reg_get_by_node ks tag reg = filter (\<lambda>r. cr_assigned_node_tag r = tag) (vals ks reg)"

definition counts_as_live :: "connection_record \<Rightarrow> bool" where
  "counts_as_live r \<longleftrightarrow> cr_state r = Active \<or> cr_state r = Idle"

definition get_node_connection_count :: "string list \<Rightarrow> string \<Rightarrow> connection_registry \<Rightarrow> int" where
  "get_node_connection_count ks tag reg =
     fold (\<lambda>r n. if cr_assigned_node_tag r = tag \<and> counts_as_live r then n + 1 else n) (vals ks reg) 0"

definition get_user_connection_count :: "string list \<Rightarrow> string \<Rightarrow> connection_registry \<Rightarrow> int" where
  "get_user_connection_count ks user reg =
     fold (\<lambda>r n. if cr_username r = user \<and> counts_as_live r then n + 1 else n) (vals ks reg) 0"

text \<open>A record is pushed by each of the two tests it passes, so possibly twice.\<close>

definition candidate_copies :: "time_point \<Rightarrow> connection_record \<Rightarrow> connection_record list" where
  "candidate_copies now r =
     (if cr_state r = Authenticating \<or> cr_state r = Handshaking \<or> cr_state r = Idle then [r] else [])
     @ (if (cr_state r = Active \<or> cr_state r = Idle) \<and> secs_between now (cr_admit_time r) > 28800
        then [r] else [])"

definition get_timeout_candidates ::
    "string list \<Rightarrow> time_point \<Rightarrow> connection_registry \<Rightarrow> connection_record list" where
  "get_timeout_candidates ks now reg = concat (map (candidate_copies now) (vals ks reg))"

definition reg_size :: "connection_registry \<Rightarrow> int" where
  "reg_size reg = int (card (dom reg))"

definition reg_clear :: "connection_registry \<Rightarrow> connection_registry" where
  "reg_clear reg = Map.empty"

section \<open>The timeout scanner\<close>

record timeout_scanner =
  ts_auth_timeout_sec :: int
  ts_handshake_timeout_sec :: int
  ts_idle_timeout_sec :: int
  ts_max_lifetime_sec :: int
  ts_scan_interval_sec :: int
  ts_running :: bool

definition new_timeout_scanner :: timeout_scanner where
  "new_timeout_scanner = \<lparr>ts_auth_timeout_sec = 30, ts_handshake_timeout_sec = 15,
     ts_idle_timeout_sec = 300, ts_max_lifetime_sec = 28800, ts_scan_interval_sec = 5,
     ts_running = False\<rparr>"

definition scanner_init :: "int \<Rightarrow> int \<Rightarrow> int \<Rightarrow> int \<Rightarrow> int \<Rightarrow> timeout_scanner \<Rightarrow> timeout_scanner" where
  "scanner_init auth handshake idle_sec lifetime interval ts =
     ts\<lparr>ts_auth_timeout_sec := auth, ts_handshake_timeout_sec := handshake,
        ts_idle_timeout_sec := idle_sec, ts_max_lifetime_sec := lifetime,
        ts_scan_interval_sec := interval\<rparr>"

text \<open>Starting returns whether this call is the one that spawns the scanning thread.\<close>

definition scanner_start :: "timeout_scanner \<Rightarrow> timeout_scanner \<times> bool" where
  "scanner_start ts = (ts\<lparr>ts_running := True\<rparr>, \<not> ts_running ts)"

definition scanner_stop :: "timeout_scanner \<Rightarrow> timeout_scanner" where
  "scanner_stop ts = ts\<lparr>ts_running := False\<rparr>"

text \<open>
  The two tests of the loop body: the first sets a reason by state, the second overrides it for
  sessions past their lifetime.
\<close>

definition close_reason ::
    "timeout_scanner \<Rightarrow> time_point \<Rightarrow> connection_record \<Rightarrow> string option" where
  "close_reason ts now r =
     (let by_state =
        (if cr_state r = Authenticating then
           (if secs_between now (cr_admit_time r) \<ge> ts_auth_timeout_sec ts
            then Some ''auth_timeout'' else None)
         else if cr_state r = Handshaking then
           (if secs_between now (cr_admit_time r) \<ge> ts_handshake_timeout_sec ts
            then Some ''handshake_timeout'' else None)
         else if cr_state r = Idle \<and> \<not> cr_exempt_idle r then
           (if secs_between now (cr_idle_since r) \<ge> ts_idle_timeout_sec ts
            then Some ''idle_timeout'' else None)
         else None)
      in if (cr_state r = Active \<or> cr_state r = Idle)
            \<and> secs_between now (cr_admit_time r) \<ge> ts_max_lifetime_sec ts
         then Some ''max_lifetime'' else by_state)"

text \<open>
  One scan, as the calls of the timeout callback in order; a batch of 100 only makes the thread
  sleep for a second.
\<close>

definition scan_loop ::
    "timeout_scanner \<Rightarrow> string list \<Rightarrow> time_point \<Rightarrow> connection_registry \<Rightarrow> (string \<times> string) list" where
  "scan_loop ts ks now reg =
     List.map_filter (\<lambda>r. map_option (\<lambda>why. (cr_session_id r, why)) (close_reason ts now r))
       (get_timeout_candidates ks now reg)"

text \<open>The callback the program installs removes the record.\<close>

definition on_timeout_callback :: "string \<times> string \<Rightarrow> connection_registry \<Rightarrow> connection_registry" where
  "on_timeout_callback call reg = unregister_connection (fst call) reg"

definition scan_and_close ::
    "timeout_scanner \<Rightarrow> string list \<Rightarrow> time_point \<Rightarrow> connection_registry \<Rightarrow> connection_registry" where
  "scan_and_close ts ks now reg = fold on_timeout_callback (scan_loop ts ks now reg) reg"

lemmas registry_defs = register_connection_def unregister_connection_def modify_record_def
  reg_update_state_def reg_update_node_def mark_idle_def mark_active_def set_exempt_idle_def

section \<open>Invariant: a record is filed under its own session\<close>

definition reg_inv :: "connection_registry \<Rightarrow> bool" where
  "reg_inv reg \<longleftrightarrow> finite (dom reg) \<and> (\<forall>sid r. reg sid = Some r \<longrightarrow> cr_session_id r = sid)"

datatype reg_event =
  Reg_register time_point string string string | Reg_unregister string
| Reg_state time_point string connection_state | Reg_node string string
| Reg_idle time_point string | Reg_active time_point string | Reg_exempt string bool | Reg_clear

fun reg_step :: "reg_event \<Rightarrow> connection_registry \<Rightarrow> connection_registry" where
  "reg_step (Reg_register now sid ip user) reg = register_connection now sid ip user reg"
| "reg_step (Reg_unregister sid) reg = unregister_connection sid reg"
| "reg_step (Reg_state now sid st) reg = reg_update_state now sid st reg"
| "reg_step (Reg_node sid tag) reg = reg_update_node sid tag reg"
| "reg_step (Reg_idle now sid) reg = mark_idle now sid reg"
| "reg_step (Reg_active now sid) reg = mark_active now sid reg"
| "reg_step (Reg_exempt sid ex) reg = set_exempt_idle sid ex reg"
| "reg_step Reg_clear reg = reg_clear reg"

lemma modify_record_inv:
  "reg_inv reg \<Longrightarrow> (\<And>r. cr_session_id (f r) = cr_session_id r) \<Longrightarrow> reg_inv (modify_record sid f reg)"
  by (auto simp: reg_inv_def modify_record_def split: option.split)

lemma reg_step_inv: "reg_inv reg \<Longrightarrow> reg_inv (reg_step e reg)"
proof (cases e)
  case (Reg_register now sid ip user)
  then show "reg_inv reg \<Longrightarrow> ?thesis"
    by (auto simp: register_connection_def reg_inv_def Let_def)
next
  case (Reg_unregister sid)
  then show "reg_inv reg \<Longrightarrow> ?thesis" by (auto simp: unregister_connection_def reg_inv_def)
qed (auto simp: reg_update_state_def reg_update_node_def mark_idle_def mark_active_def
    set_exempt_idle_def intro: modify_record_inv, simp add: reg_inv_def reg_clear_def)

interpretation reg_run: stepper reg_step reg_inv "\<lambda>_. True"
  by unfold_locales (rule reg_step_inv)

fun reg_event_sid :: "reg_event \<Rightarrow> string option" where
  "reg_event_sid (Reg_register now sid ip user) = Some sid"
| "reg_event_sid (Reg_unregister sid) = Some sid"
| "reg_event_sid (Reg_state now sid st) = Some sid"
| "reg_event_sid (Reg_node sid tag) = Some sid"
| "reg_event_sid (Reg_idle now sid) = Some sid"
| "reg_event_sid (Reg_active now sid) = Some sid"
| "reg_event_sid (Reg_exempt sid ex) = Some sid"
| "reg_event_sid Reg_clear = None"

lemma reg_step_other: "reg_event_sid e = Some s \<Longrightarrow> s \<noteq> sid \<Longrightarrow> reg_step e reg sid = reg sid"
  by (cases e) (auto simp: registry_defs Let_def split: option.split)

section \<open>Counting\<close>

lemma fold_count: "fold (\<lambda>r n. if p r then n + 1 else n) rs (k::int) = k + int (length (filter p rs))"
  by (induction rs arbitrary: k) auto

lemma length_filter_vals:
  assumes "iterates ks m"
  shows "length (filter p (vals ks m)) = card {k. \<exists>v. m k = Some v \<and> p v}"
proof -
  have len: "distinct ks \<Longrightarrow>
      length (filter p (vals ks m)) = card {k \<in> set ks. \<exists>v. m k = Some v \<and> p v}"
  proof (induction ks)
    case (Cons k ks)
    let ?S = "{j \<in> set ks. \<exists>v. m j = Some v \<and> p v}"
    have "{j \<in> set (k # ks). \<exists>v. m j = Some v \<and> p v}
        = (if \<exists>v. m k = Some v \<and> p v then insert k ?S else ?S)" by auto
    moreover have "k \<notin> ?S" "finite ?S" using Cons.prems by auto
    ultimately show ?case using Cons by (auto split: option.split)
  qed simp
  have "{k \<in> set ks. \<exists>v. m k = Some v \<and> p v} = {k. \<exists>v. m k = Some v \<and> p v}"
    using assms by (auto simp: iterates_def)
  with len assms show ?thesis by (simp add: iterates_def)
qed

section \<open>What a scan reports\<close>

lemma set_map_filter: "set (List.map_filter f xs) = {y. \<exists>x \<in> set xs. f x = Some y}"
  by (induction xs) (auto simp: map_filter_simps split: option.splits)

lemma in_fst_Collect: "k \<in> fst ` {(a, b). P a b} \<longleftrightarrow> (\<exists>b. P k b)"
  by force

lemma set_candidates:
  "iterates ks reg \<Longrightarrow> set (get_timeout_candidates ks now reg)
     = {r \<in> ran reg. candidate_copies now r \<noteq> []}"
  by (auto simp: get_timeout_candidates_def set_vals_iterates candidate_copies_def split: if_splits)

lemma set_scan_loop:
  assumes "reg_inv reg" "iterates ks reg"
  shows "set (scan_loop ts ks now reg) =
    {(sid, why). \<exists>r. reg sid = Some r \<and> candidate_copies now r \<noteq> [] \<and> close_reason ts now r = Some why}"
proof -
  have "(sid, why) \<in> set (scan_loop ts ks now reg)
      \<longleftrightarrow> (\<exists>r \<in> ran reg. candidate_copies now r \<noteq> [] \<and> close_reason ts now r = Some why
            \<and> cr_session_id r = sid)" for sid why
    by (auto simp: scan_loop_def set_map_filter set_candidates [OF assms(2)])
  then show ?thesis
    using assms(1) by (fastforce simp: reg_inv_def ran_def)
qed

lemma due_is_candidate:
  assumes "28800 < ts_max_lifetime_sec ts" "close_reason ts now r = Some why"
  shows "candidate_copies now r \<noteq> []"
  using assms by (auto simp: close_reason_def candidate_copies_def Let_def split: if_splits)

lemma scan_and_close_eq:
  "scan_and_close ts ks now reg sid
     = (if sid \<in> fst ` set (scan_loop ts ks now reg) then None else reg sid)"
proof -
  have "fold on_timeout_callback calls reg sid
      = (if sid \<in> fst ` set calls then None else reg sid)" for calls reg
    by (induction calls arbitrary: reg)
      (auto simp: on_timeout_callback_def unregister_connection_def)
  then show ?thesis by (simp add: scan_and_close_def)
qed

section \<open>Properties\<close>

text \<open>
  the two connection counts of the registry are the number of sessions in the active or idle
  state for that node and for that user, whatever order the table is iterated in.
\<close>

theorem registry_counts_exact:
  assumes "iterates ks reg"
  shows "get_node_connection_count ks tag reg
      = int (card {sid. \<exists>r. reg sid = Some r \<and> cr_assigned_node_tag r = tag \<and> counts_as_live r})
    \<and> get_user_connection_count ks user reg
      = int (card {sid. \<exists>r. reg sid = Some r \<and> cr_username r = user \<and> counts_as_live r})"
  using length_filter_vals [OF assms]
  by (simp add: get_node_connection_count_def get_user_connection_count_def fold_count)

theorem registry_counts_exact_witness:
  "get_user_connection_count [''s''] ''u''
     (mark_active 5 ''s'' (register_connection 1 ''s'' ''ip'' ''u'' Map.empty))
   = int (card {sid. \<exists>r. (mark_active 5 ''s'' (register_connection 1 ''s'' ''ip'' ''u'' Map.empty)) sid
        = Some r \<and> cr_username r = ''u'' \<and> counts_as_live r})"
  using registry_counts_exact [of "[''s'']"
      "mark_active 5 ''s'' (register_connection 1 ''s'' ''ip'' ''u'' Map.empty)" "''''" "''u''"]
  by (simp add: iterates_def registry_defs)

text \<open>
  when the lifetime limit lies above the eight hours built into the candidate filter, a scan
  with the program's callback removes exactly the sessions that are due by the scanner's rules, and
  keeps every other record unchanged.
\<close>

theorem scan_removes_exactly_due:
  assumes "reg_inv reg" "iterates ks reg" "28800 < ts_max_lifetime_sec ts"
  shows "scan_and_close ts ks now reg sid =
    (case reg sid of None \<Rightarrow> None
     | Some r \<Rightarrow> if close_reason ts now r = None then Some r else None)"
proof (cases "reg sid")
  case None
  then show ?thesis by (simp add: scan_and_close_eq)
next
  case (Some r)
  have "sid \<in> fst ` set (scan_loop ts ks now reg) \<longleftrightarrow> (\<exists>why. close_reason ts now r = Some why)"
    unfolding set_scan_loop [OF assms(1,2)] in_fst_Collect
    using due_is_candidate [OF assms(3)] Some by (metis option.inject)
  with Some show ?thesis by (simp add: scan_and_close_eq)
qed

theorem scan_removes_exactly_due_witness:
  "scan_and_close (scanner_init 30 15 300 30000 5 new_timeout_scanner) [''s''] (40 * ns_per_sec)
     (register_connection 0 ''s'' ''ip'' ''u'' Map.empty) ''s'' = None"
proof -
  have "reg_inv (register_connection 0 ''s'' ''ip'' ''u'' Map.empty)"
    "iterates [''s''] (register_connection 0 ''s'' ''ip'' ''u'' Map.empty)"
    by (simp_all add: reg_inv_def iterates_def register_connection_def)
  from scan_removes_exactly_due [OF this, of "scanner_init 30 15 300 30000 5 new_timeout_scanner" "40 * ns_per_sec" "''s''"]
  show ?thesis
    by (simp add: scanner_init_def register_connection_def close_reason_def secs_between_ge)
qed

text \<open>
  the eight hours built into the candidate filter override a configured lifetime: an active
  session is not reported at all before they have passed, even when its configured lifetime has.
\<close>

theorem lifetime_filter_hides_due_session:
  assumes "reg_inv reg" "iterates ks reg" "reg sid = Some r" "cr_state r = Active"
    and "ts_max_lifetime_sec ts \<le> secs_between now (cr_admit_time r)"
    and "secs_between now (cr_admit_time r) \<le> 28800"
  shows "close_reason ts now r = Some ''max_lifetime'' \<and> scan_and_close ts ks now reg sid = Some r"
proof -
  have "candidate_copies now r = []"
    using assms(4,6) by (simp add: candidate_copies_def)
  then have "sid \<notin> fst ` set (scan_loop ts ks now reg)"
    unfolding set_scan_loop [OF assms(1,2)] in_fst_Collect using assms(3)
    by (metis option.inject)
  with assms(3-5) show ?thesis by (simp add: close_reason_def scan_and_close_eq)
qed

theorem lifetime_filter_hides_due_session_witness:
  "scan_and_close (scanner_init 30 15 300 28800 5 new_timeout_scanner) [''s''] (28800 * ns_per_sec)
     (mark_active 0 ''s'' (register_connection 0 ''s'' ''ip'' ''u'' Map.empty)) ''s'' \<noteq> None"
proof -
  let ?reg = "mark_active 0 ''s'' (register_connection 0 ''s'' ''ip'' ''u'' Map.empty)"
  have "reg_inv ?reg" "iterates [''s''] ?reg"
    by (simp_all add: reg_inv_def iterates_def registry_defs)
  moreover obtain r where "?reg ''s'' = Some r" "cr_state r = Active" "cr_admit_time r = 0"
    by (simp add: registry_defs)
  moreover have "secs_between (28800 * ns_per_sec) 0 = 28800"
    by (simp add: secs_between_def sdiv_nonneg ns_per_sec_def)
  ultimately show ?thesis
    using lifetime_filter_hides_due_session [of ?reg "[''s'']" "''s''" r
        "scanner_init 30 15 300 28800 5 new_timeout_scanner" "28800 * ns_per_sec"]
    by (simp add: scanner_init_def)
qed

end
