(* ===== verification/IP_Affinity.thy ===== *)
theory IP_Affinity
  imports Prelude
begin

text \<open>
  \<^verbatim>\<open>src/src/concurrency/ip_affinity_table.cpp\<close>: which node an address was last sent to, a
  \<^verbatim>\<open>std::list\<close> in order of use with an index of iterators into it. A list node is a pair of an
  identity, which is what an iterator is, and its record. \<open>None\<close> as the result of an operation is
  undefined behaviour of the C++ code (\<^verbatim>\<open>back()\<close> of an empty list).
\<close>

section \<open>A list of nodes with an index into it\<close>

text \<open>
  \<open>idx_ok\<close>: every index entry points to a node of the list with that key (no dangling iterator).
  \<open>idx_tight\<close>: moreover every node is the one its key is indexed by.
\<close>

definition idx_ok :: "('r \<Rightarrow> 'k) \<Rightarrow> ('k \<rightharpoonup> nat) \<Rightarrow> (nat \<times> 'r) list \<Rightarrow> bool" where
  "idx_ok key idx xs \<longleftrightarrow>
     distinct (map fst xs) \<and> (\<forall>k i. idx k = Some i \<longrightarrow> (\<exists>r. (i, r) \<in> set xs \<and> key r = k))"

definition idx_tight :: "('r \<Rightarrow> 'k) \<Rightarrow> ('k \<rightharpoonup> nat) \<Rightarrow> (nat \<times> 'r) list \<Rightarrow> bool" where
  "idx_tight key idx xs \<longleftrightarrow> idx_ok key idx xs \<and> (\<forall>i r. (i, r) \<in> set xs \<longrightarrow> idx (key r) = Some i)"

lemma idx_tight_ok: "idx_tight key idx xs \<Longrightarrow> idx_ok key idx xs"
  by (simp add: idx_tight_def)

lemma idx_ok_node:
  assumes "idx_ok key idx xs" "idx k = Some i"
  shows "\<exists>r. map_of xs i = Some r \<and> key r = k"
proof -
  obtain r where "(i, r) \<in> set xs" "key r = k" using assms unfolding idx_ok_def by blast
  with assms(1) have "map_of xs i = Some r" by (simp add: idx_ok_def)
  with \<open>key r = k\<close> show ?thesis by blast
qed

lemma idx_ok_key:
  assumes "idx_ok key idx xs" "idx k = Some i" "(i, s) \<in> set xs"
  shows "key s = k"
proof -
  have "map_of xs i = Some s"
    using assms(1,3) by (simp add: idx_ok_def map_of_eq_Some_iff)
  with idx_ok_node [OF assms(1,2)] show ?thesis by auto
qed

lemma idx_tight_entry: "idx_tight key idx xs \<Longrightarrow> (i, r) \<in> set xs \<Longrightarrow> idx (key r) = Some i"
  by (simp add: idx_tight_def)

lemma idx_okI:
  assumes "distinct (map fst xs)" "\<And>k i. idx k = Some i \<Longrightarrow> \<exists>r. (i, r) \<in> set xs \<and> key r = k"
  shows "idx_ok key idx xs"
  using assms by (simp add: idx_ok_def)

lemma idx_ok_pop:
  assumes "idx_ok key idx (xs @ [(i, r)])"
  shows "idx_ok key (idx(key r := None)) xs"
proof (rule idx_okI)
  fix k j assume "(idx(key r := None)) k = Some j"
  then have k: "k \<noteq> key r" "idx k = Some j" by (auto split: if_splits)
  then obtain s where "(j, s) \<in> set (xs @ [(i, r)])" "key s = k"
    using assms unfolding idx_ok_def by blast
  with k(1) show "\<exists>s. (j, s) \<in> set xs \<and> key s = k" by auto
qed (use assms in \<open>simp add: idx_ok_def\<close>)

lemma idx_tight_pop:
  assumes "idx_tight key idx (xs @ [(i, r)])"
  shows "idx_tight key (idx(key r := None)) xs"
proof -
  have "key s \<noteq> key r" if "(j, s) \<in> set xs" for j s
  proof
    assume "key s = key r"
    then have "j = i"
      using idx_tight_entry [OF assms, of i r] idx_tight_entry [OF assms, of j s] that by simp
    with that assms show False
      by (force simp: idx_tight_def idx_ok_def)
  qed
  with assms idx_ok_pop [OF idx_tight_ok [OF assms]] show ?thesis
    by (simp add: idx_tight_def)
qed

lemma idx_ok_push:
  assumes "idx_ok key idx xs" "j \<notin> fst ` set xs"
  shows "idx_ok key (idx(key r \<mapsto> j)) ((j, r) # xs)"
proof (rule idx_okI)
  fix k i assume "(idx(key r \<mapsto> j)) k = Some i"
  then show "\<exists>s. (i, s) \<in> set ((j, r) # xs) \<and> key s = k"
    using assms(1) unfolding idx_ok_def by (cases "k = key r") auto
qed (use assms in \<open>simp add: idx_ok_def\<close>)

lemma idx_tight_push:
  assumes "idx_tight key idx xs" "j \<notin> fst ` set xs" "idx (key r) = None"
  shows "idx_tight key (idx(key r \<mapsto> j)) ((j, r) # xs)"
proof -
  have "key s \<noteq> key r" if "(i, s) \<in> set xs" for i s
    using idx_tight_entry [OF assms(1) that] assms(3) by auto
  then show ?thesis
    using assms idx_ok_push [OF idx_tight_ok [OF assms(1)] assms(2)] by (auto simp: idx_tight_def)
qed

lemma idx_ok_front:
  assumes "idx_ok key idx xs" "idx (key r) = Some j"
  shows "idx_ok key idx ((j, r) # filter (\<lambda>n. fst n \<noteq> j) xs)"
proof -
  have "distinct (map fst ((j, r) # filter (\<lambda>n. fst n \<noteq> j) xs))"
    using assms(1) by (auto simp: idx_ok_def distinct_map_filter)
  moreover have "\<exists>s. (i, s) \<in> set ((j, r) # filter (\<lambda>n. fst n \<noteq> j) xs) \<and> key s = k"
    if k: "idx k = Some i" for k i
  proof (cases "i = j")
    case True
    obtain s where s: "map_of xs j = Some s" "key s = key r"
      using idx_ok_node [OF assms] by blast
    obtain t where t: "map_of xs i = Some t" "key t = k"
      using idx_ok_node [OF assms(1) k] by blast
    from s t True show ?thesis by auto
  next
    case False
    then show ?thesis using assms(1) k by (fastforce simp: idx_ok_def)
  qed
  ultimately show ?thesis by (simp add: idx_ok_def)
qed

lemma idx_tight_front:
  assumes "idx_tight key idx xs" "idx (key r) = Some j"
  shows "idx_tight key idx ((j, r) # filter (\<lambda>n. fst n \<noteq> j) xs)"
  using idx_ok_front [OF idx_tight_ok [OF assms(1)] assms(2)] assms by (auto simp: idx_tight_def)

lemma idx_ok_erase:
  assumes "idx_ok key idx xs" "idx k = Some j"
  shows "idx_ok key (idx(k := None)) (filter (\<lambda>n. fst n \<noteq> j) xs)"
proof -
  have "distinct (map fst (filter (\<lambda>n. fst n \<noteq> j) xs))"
    using assms(1) by (auto simp: idx_ok_def distinct_map_filter)
  moreover have "i \<noteq> j" if "idx l = Some i" "l \<noteq> k" for l i
    using idx_ok_node [OF assms] idx_ok_node [OF assms(1) that(1)] that(2) by auto
  ultimately show ?thesis
    using assms(1) by (fastforce simp: idx_ok_def)
qed

lemma idx_ok_filter:
  assumes "idx_ok key idx xs"
  shows "idx_ok key (\<lambda>k. if \<exists>n \<in> set xs. p (snd n) \<and> key (snd n) = k then None else idx k)
           (filter (\<lambda>n. \<not> p (snd n)) xs)"
  using assms by (fastforce simp: idx_ok_def distinct_map_filter)

lemma idx_ok_forget: "idx_ok key idx xs \<Longrightarrow> idx_ok key (\<lambda>k. if P k then None else idx k) xs"
  by (simp add: idx_ok_def)

lemma idx_tight_keys:
  assumes "idx_tight key idx xs"
  shows "idx k = None \<longleftrightarrow> k \<notin> key ` snd ` set xs"
proof
  assume "idx k = None"
  then show "k \<notin> key ` snd ` set xs" using idx_tight_entry [OF assms] by fastforce
next
  assume "k \<notin> key ` snd ` set xs"
  moreover have "k \<in> key ` snd ` set xs" if k: "idx k = Some i" for i
  proof -
    obtain r where "(i, r) \<in> set xs" "key r = k"
      using k assms unfolding idx_tight_def idx_ok_def by blast
    then show ?thesis by force
  qed
  ultimately show "idx k = None" by (cases "idx k") auto
qed

lemma idx_tight_filter:
  assumes "idx_tight key idx xs" "idx k = Some j"
  shows "map snd (filter (\<lambda>n. fst n \<noteq> j) xs) = filter (\<lambda>r. key r \<noteq> k) (map snd xs)"
proof -
  have "fst n \<noteq> j \<longleftrightarrow> key (snd n) \<noteq> k" if "n \<in> set xs" for n
    using idx_ok_key [OF idx_tight_ok [OF assms(1)] assms(2), of "snd n"]
      idx_tight_entry [OF assms(1), of "fst n" "snd n"] assms(2) that
    by (cases n) auto
  then have "filter (\<lambda>n. fst n \<noteq> j) xs = filter ((\<lambda>r. key r \<noteq> k) \<circ> snd) xs"
    by (intro filter_cong) simp_all
  then show ?thesis by (simp only: filter_map)
qed

section \<open>State\<close>

record affinity_record =
  af_client_ip :: string
  af_node_tag :: string
  af_last_access :: time_point

record affinity_table =
  at_timeout_sec :: int
  at_max_records :: int
  at_index :: "string \<rightharpoonup> nat"
  at_lru :: "(nat \<times> affinity_record) list"
  at_next_id :: nat

definition new_affinity_table :: affinity_table where
  "new_affinity_table = \<lparr>at_timeout_sec = 300, at_max_records = 10000, at_index = Map.empty,
     at_lru = [], at_next_id = 0\<rparr>"

definition affinity_init :: "int \<Rightarrow> int \<Rightarrow> affinity_table \<Rightarrow> affinity_table" where
  "affinity_init timeout_sec max_records t =
     t\<lparr>at_timeout_sec := timeout_sec, at_max_records := max_records\<rparr>"

section \<open>Operations\<close>

text \<open>Dereferencing an iterator of the index.\<close>

definition affinity_find :: "string \<Rightarrow> affinity_table \<Rightarrow> (nat \<times> affinity_record) option" where
  "affinity_find ip t =
     (case at_index t ip of
        None \<Rightarrow> None
      | Some i \<Rightarrow> map_option (Pair i) (map_of (at_lru t) i))"

definition affinity_lookup :: "time_point \<Rightarrow> string \<Rightarrow> affinity_table \<Rightarrow> string option" where
  "affinity_lookup now ip t =
     (case affinity_find ip t of
        None \<Rightarrow> None
      | Some (i, r) \<Rightarrow> if secs_between now (af_last_access r) > at_timeout_sec t then None
                      else Some (af_node_tag r))"

text \<open>The eviction loop: it ends because every round takes the last node off the list.\<close>

function affinity_evict :: "affinity_table \<Rightarrow> affinity_table option" where
  "affinity_evict t =
     (if int (length (at_lru t)) \<ge> at_max_records t then
        (if at_lru t = [] then None
         else affinity_evict
                (t\<lparr>at_index := (at_index t)(af_client_ip (snd (last (at_lru t))) := None),
                   at_lru := butlast (at_lru t)\<rparr>))
      else Some t)"
  by pat_completeness auto
termination
  by (relation "measure (length \<circ> at_lru)") simp_all

declare affinity_evict.simps [simp del]

definition affinity_push :: "affinity_record \<Rightarrow> affinity_table \<Rightarrow> affinity_table" where
  "affinity_push r t =
     t\<lparr>at_lru := (at_next_id t, r) # at_lru t,
       at_index := (at_index t)(af_client_ip r \<mapsto> at_next_id t),
       at_next_id := at_next_id t + 1\<rparr>"

definition affinity_update ::
    "time_point \<Rightarrow> string \<Rightarrow> string \<Rightarrow> affinity_table \<Rightarrow> affinity_table option" where
  "affinity_update now ip tag t =
     (case affinity_find ip t of
        Some (i, r) \<Rightarrow>
          Some (t\<lparr>at_lru := (i, r\<lparr>af_node_tag := tag, af_last_access := now\<rparr>)
                            # filter (\<lambda>n. fst n \<noteq> i) (at_lru t)\<rparr>)
      | None \<Rightarrow>
          map_option
            (affinity_push \<lparr>af_client_ip = ip, af_node_tag = tag, af_last_access = now\<rparr>)
            (affinity_evict t))"

definition affinity_invalidate :: "string \<Rightarrow> affinity_table \<Rightarrow> affinity_table" where
  "affinity_invalidate ip t =
     (case affinity_find ip t of
        None \<Rightarrow> t
      | Some (i, r) \<Rightarrow> t\<lparr>at_lru := filter (\<lambda>n. fst n \<noteq> i) (at_lru t),
                          at_index := (at_index t)(ip := None)\<rparr>)"

definition affinity_invalidate_node :: "string \<Rightarrow> affinity_table \<Rightarrow> affinity_table" where
  "affinity_invalidate_node tag t =
     t\<lparr>at_index := fold (\<lambda>n idx. idx(af_client_ip (snd n) := None))
                      (filter (\<lambda>n. af_node_tag (snd n) = tag) (at_lru t)) (at_index t),
       at_lru := filter (\<lambda>n. af_node_tag (snd n) \<noteq> tag) (at_lru t)\<rparr>"

text \<open>From the least recently used node backwards, only the index entries go.\<close>

definition affinity_cleanup_expired :: "time_point \<Rightarrow> affinity_table \<Rightarrow> affinity_table" where
  "affinity_cleanup_expired now t =
     t\<lparr>at_index := fold (\<lambda>n idx. idx(af_client_ip (snd n) := None))
         (takeWhile (\<lambda>n. secs_between now (af_last_access (snd n)) > at_timeout_sec t)
            (rev (at_lru t))) (at_index t)\<rparr>"

definition affinity_clear :: "affinity_table \<Rightarrow> affinity_table" where
  "affinity_clear t = t\<lparr>at_index := Map.empty, at_lru := []\<rparr>"

definition affinity_size :: "affinity_table \<Rightarrow> int" where
  "affinity_size t = int (length (at_lru t))"

lemmas affinity_op_defs = affinity_lookup_def affinity_update_def affinity_invalidate_def
  affinity_push_def affinity_clear_def

section \<open>Invariant\<close>

text \<open>
  No dangling iterator, fresh identities, at most \<open>max_records\<close> nodes. It needs the configured
  maximum to be positive.
\<close>

definition affinity_inv :: "affinity_table \<Rightarrow> bool" where
  "affinity_inv t \<longleftrightarrow> 1 \<le> at_max_records t \<and> int (length (at_lru t)) \<le> at_max_records t
     \<and> idx_ok af_client_ip (at_index t) (at_lru t) \<and> (\<forall>i \<in> fst ` set (at_lru t). i < at_next_id t)"

definition affinity_tight :: "affinity_table \<Rightarrow> bool" where
  "affinity_tight t \<longleftrightarrow> affinity_inv t \<and> idx_tight af_client_ip (at_index t) (at_lru t)"

definition affinity_records :: "affinity_table \<Rightarrow> affinity_record list" where
  "affinity_records t = map snd (at_lru t)"

lemma affinity_find_inv:
  assumes "affinity_inv t"
  shows "affinity_find ip t = None \<longleftrightarrow> at_index t ip = None"
    and "affinity_find ip t = Some (i, r) \<Longrightarrow>
      at_index t ip = Some i \<and> (i, r) \<in> set (at_lru t) \<and> af_client_ip r = ip"
proof -
  have ok: "idx_ok af_client_ip (at_index t) (at_lru t)" using assms by (simp add: affinity_inv_def)
  show "affinity_find ip t = None \<longleftrightarrow> at_index t ip = None"
    using idx_ok_node [OF ok, of ip] by (auto simp: affinity_find_def split: option.split)
  assume "affinity_find ip t = Some (i, r)"
  then have "at_index t ip = Some i" "map_of (at_lru t) i = Some r"
    by (auto simp: affinity_find_def split: option.splits)
  with idx_ok_node [OF ok this(1)]
  show "at_index t ip = Some i \<and> (i, r) \<in> set (at_lru t) \<and> af_client_ip r = ip"
    by (simp add: map_of_SomeD)
qed

definition affinity_pop :: "affinity_table \<Rightarrow> affinity_table" where
  "affinity_pop t = t\<lparr>at_index := (at_index t)(af_client_ip (snd (last (at_lru t))) := None),
                      at_lru := butlast (at_lru t)\<rparr>"

lemma affinity_evict_eq:
  assumes "affinity_inv t"
  shows "affinity_evict t
    = Some (if int (length (at_lru t)) < at_max_records t then t else affinity_pop t)"
proof -
  have stop: "affinity_evict u = Some u" if "int (length (at_lru u)) < at_max_records u" for u
    using that by (subst affinity_evict.simps) simp
  show ?thesis
  proof (cases "int (length (at_lru t)) < at_max_records t")
    case False
    with assms have "at_lru t \<noteq> []" "int (length (at_lru t)) = at_max_records t"
      by (auto simp: affinity_inv_def)
    moreover from this have "affinity_evict (affinity_pop t) = Some (affinity_pop t)"
      by (intro stop) (cases "at_lru t" rule: rev_cases; simp add: affinity_pop_def)
    ultimately show ?thesis
      by (subst affinity_evict.simps) (simp add: affinity_pop_def)
  qed (simp add: stop)
qed

lemma affinity_pop_inv:
  assumes "affinity_inv t" "at_lru t \<noteq> []"
  shows "affinity_inv (affinity_pop t)"
    and "affinity_tight t \<Longrightarrow> affinity_tight (affinity_pop t)"
    and "int (length (at_lru (affinity_pop t))) < at_max_records t"
proof -
  from assms(2) obtain xs i r where l: "at_lru t = xs @ [(i, r)]"
    by (metis append_butlast_last_id surj_pair)
  show inv: "affinity_inv (affinity_pop t)"
    using assms(1) idx_ok_pop [of af_client_ip "at_index t" xs i r]
    by (simp add: affinity_inv_def affinity_pop_def l)
  show "affinity_tight (affinity_pop t)" if "affinity_tight t"
    using that inv idx_tight_pop [of af_client_ip "at_index t" xs i r]
    by (simp add: affinity_tight_def affinity_pop_def l)
  show "int (length (at_lru (affinity_pop t))) < at_max_records t"
    using assms(1) by (simp add: affinity_inv_def affinity_pop_def l)
qed

definition affinity_room :: "affinity_table \<Rightarrow> affinity_table" where
  "affinity_room t = (if int (length (at_lru t)) < at_max_records t then t else affinity_pop t)"

lemma affinity_room:
  assumes "affinity_inv t"
  shows "affinity_inv (affinity_room t)"
    and "affinity_tight t \<Longrightarrow> affinity_tight (affinity_room t)"
    and "int (length (at_lru (affinity_room t))) < at_max_records t"
    and "at_max_records (affinity_room t) = at_max_records t"
    and "at_timeout_sec (affinity_room t) = at_timeout_sec t"
    and "affinity_records (affinity_room t)
      = take (nat (at_max_records t - 1)) (affinity_records t)"
    and "at_index (affinity_room t) ip = at_index t ip \<or> at_index (affinity_room t) ip = None"
proof -
  have ne: "at_lru t \<noteq> []" if "\<not> int (length (at_lru t)) < at_max_records t"
    using that assms by (auto simp: affinity_inv_def)
  show "affinity_inv (affinity_room t)" "affinity_tight t \<Longrightarrow> affinity_tight (affinity_room t)"
    "int (length (at_lru (affinity_room t))) < at_max_records t"
    using affinity_pop_inv [OF assms] ne assms by (simp_all add: affinity_room_def)
  show "affinity_records (affinity_room t)
      = take (nat (at_max_records t - 1)) (affinity_records t)"
  proof (cases "int (length (at_lru t)) < at_max_records t")
    case True
    then have "length (affinity_records t) \<le> nat (at_max_records t - 1)"
      by (simp add: affinity_records_def)
    with True show ?thesis by (simp add: affinity_room_def)
  next
    case False
    with assms have "nat (at_max_records t - 1) = length (at_lru t) - 1"
      by (simp add: affinity_inv_def) linarith
    with False show ?thesis
      by (simp add: affinity_room_def affinity_pop_def affinity_records_def butlast_conv_take take_map)
  qed
qed (simp_all add: affinity_room_def affinity_pop_def)

lemma affinity_update_eq:
  assumes "affinity_inv t"
  shows "affinity_update now ip tag t =
    Some (case affinity_find ip t of
        Some (i, r) \<Rightarrow> t\<lparr>at_lru := (i, r\<lparr>af_node_tag := tag, af_last_access := now\<rparr>)
                            # filter (\<lambda>n. fst n \<noteq> i) (at_lru t)\<rparr>
      | None \<Rightarrow> affinity_push \<lparr>af_client_ip = ip, af_node_tag = tag, af_last_access = now\<rparr>
                 (affinity_room t))"
  by (simp add: affinity_update_def affinity_evict_eq [OF assms] affinity_room_def
      split: option.split prod.split)

lemma affinity_push_inv:
  assumes "affinity_inv t" "int (length (at_lru t)) < at_max_records t"
  shows "affinity_inv (affinity_push r t)"
    and "affinity_tight t \<Longrightarrow> at_index t (af_client_ip r) = None \<Longrightarrow> affinity_tight (affinity_push r t)"
proof -
  have new: "at_next_id t \<notin> fst ` set (at_lru t)" using assms(1) by (auto simp: affinity_inv_def)
  show inv: "affinity_inv (affinity_push r t)"
    using assms idx_ok_push [OF _ new, of af_client_ip "at_index t" r]
    by (simp add: affinity_inv_def affinity_push_def less_Suc_eq)
  show "affinity_tight (affinity_push r t)"
    if "affinity_tight t" "at_index t (af_client_ip r) = None"
    using that inv idx_tight_push [OF _ new, of af_client_ip "at_index t" r]
    by (simp add: affinity_tight_def) (simp add: affinity_push_def)
qed

lemma affinity_front_inv:
  assumes "affinity_inv t" "at_index t (af_client_ip r) = Some i" "i \<in> fst ` set (at_lru t)"
  defines "u \<equiv> t\<lparr>at_lru := (i, r) # filter (\<lambda>n. fst n \<noteq> i) (at_lru t)\<rparr>"
  shows "affinity_inv u" and "affinity_tight t \<Longrightarrow> affinity_tight u"
proof -
  have "length (filter (\<lambda>n. fst n \<noteq> i) (at_lru t)) < length (at_lru t)"
    using assms(3) by (auto intro!: length_filter_less)
  then show inv: "affinity_inv u"
    using assms(1) idx_ok_front [of af_client_ip "at_index t" _ r i] assms(2,3)
    by (auto simp: affinity_inv_def u_def)
  show "affinity_tight u" if "affinity_tight t"
    using that inv idx_tight_front [of af_client_ip "at_index t" _ r i] assms(2)
    by (simp add: affinity_tight_def) (simp add: u_def)
qed

lemma affinity_update_inv:
  assumes inv: "affinity_inv t" and upd: "affinity_update now ip tag t = Some t'"
  shows "affinity_inv t'" and "affinity_tight t \<Longrightarrow> affinity_tight t'"
    and "at_timeout_sec t' = at_timeout_sec t" and "at_max_records t' = at_max_records t"
proof -
  note eq = upd [unfolded affinity_update_eq [OF inv]]
  have "affinity_inv t' \<and> (affinity_tight t \<longrightarrow> affinity_tight t')
    \<and> at_timeout_sec t' = at_timeout_sec t \<and> at_max_records t' = at_max_records t"
  proof (cases "affinity_find ip t")
    case None
    then have "at_index t ip = None" using affinity_find_inv(1) [OF inv] by simp
    then have "at_index (affinity_room t) ip = None" using affinity_room(7) [OF inv, of ip] by auto
    let ?r = "\<lparr>af_client_ip = ip, af_node_tag = tag, af_last_access = now\<rparr>"
    have room: "int (length (at_lru (affinity_room t))) < at_max_records (affinity_room t)"
      using affinity_room(3,4) [OF inv] by simp
    have t': "t' = affinity_push ?r (affinity_room t)" using None eq by simp
    have "affinity_inv t'"
      unfolding t' by (rule affinity_push_inv(1) [OF affinity_room(1) [OF inv] room])
    moreover have "affinity_tight t'" if "affinity_tight t"
      unfolding t'
      by (rule affinity_push_inv(2) [OF affinity_room(1) [OF inv] room affinity_room(2) [OF inv that]])
        (simp add: \<open>at_index (affinity_room t) ip = None\<close>)
    ultimately show ?thesis
      using affinity_room(4,5) [OF inv] by (simp add: t' affinity_push_def)
  next
    case (Some n)
    obtain i r where n: "n = (i, r)" by fastforce
    let ?r = "r\<lparr>af_node_tag := tag, af_last_access := now\<rparr>"
    have f: "at_index t ip = Some i" "(i, r) \<in> set (at_lru t)" "af_client_ip r = ip"
      using affinity_find_inv(2) [OF inv] Some n by blast+
    have "at_index t (af_client_ip ?r) = Some i" using f(1,3) by simp
    moreover have "i \<in> fst ` set (at_lru t)" using f(2) by force
    moreover have "t' = t\<lparr>at_lru := (i, ?r) # filter (\<lambda>n. fst n \<noteq> i) (at_lru t)\<rparr>"
      using eq Some n by simp
    ultimately show ?thesis
      using affinity_front_inv [OF inv, of ?r i] by simp
  qed
  then show "affinity_inv t'" "affinity_tight t \<Longrightarrow> affinity_tight t'"
    "at_timeout_sec t' = at_timeout_sec t" "at_max_records t' = at_max_records t" by blast+
qed

lemma affinity_invalidate_inv:
  assumes "affinity_inv t"
  shows "affinity_inv (affinity_invalidate ip t)"
proof (cases "affinity_find ip t")
  case (Some n)
  obtain i r where n: "n = (i, r)" by fastforce
  have "at_index t ip = Some i" using affinity_find_inv(2) [OF assms] Some n by blast
  moreover have "length (filter (\<lambda>n. fst n \<noteq> i) (at_lru t)) \<le> length (at_lru t)" by simp
  ultimately show ?thesis
    using assms Some n idx_ok_erase [of af_client_ip "at_index t" "at_lru t" ip i]
    by (auto simp: affinity_inv_def affinity_invalidate_def simp del: length_filter_le)
qed (simp add: affinity_invalidate_def assms)

lemma fold_forget:
  "fold (\<lambda>n idx. idx(key n := None)) ns idx = (\<lambda>k. if \<exists>n \<in> set ns. key n = k then None else idx k)"
  by (induction ns arbitrary: idx) (auto simp: fun_eq_iff)

lemma affinity_invalidate_node_inv:
  assumes "affinity_inv t"
  shows "affinity_inv (affinity_invalidate_node tag t)"
proof -
  have "length (filter (\<lambda>n. af_node_tag (snd n) \<noteq> tag) (at_lru t)) \<le> length (at_lru t)" by simp
  moreover have "idx_ok af_client_ip (at_index (affinity_invalidate_node tag t))
      (filter (\<lambda>n. af_node_tag (snd n) \<noteq> tag) (at_lru t))"
    using assms idx_ok_filter [of af_client_ip "at_index t" "at_lru t" "\<lambda>r. af_node_tag r = tag"]
    by (simp add: affinity_inv_def affinity_invalidate_node_def fold_forget Bex_def conj_assoc)
  ultimately show ?thesis
    using assms by (auto simp: affinity_inv_def affinity_invalidate_node_def simp del: length_filter_le)
qed

lemma affinity_cleanup_inv: "affinity_inv t \<Longrightarrow> affinity_inv (affinity_cleanup_expired now t)"
  by (simp add: affinity_inv_def affinity_cleanup_expired_def fold_forget idx_ok_forget)

lemma affinity_clear_inv: "affinity_inv t \<Longrightarrow> affinity_inv (affinity_clear t)"
  by (simp add: affinity_inv_def affinity_clear_def idx_ok_def)

text \<open>Every operation but the expiry scan keeps exactly one node per indexed address.\<close>

lemma affinity_invalidate_tight:
  assumes "affinity_tight t"
  shows "affinity_tight (affinity_invalidate ip t)"
proof (cases "affinity_find ip t")
  case (Some n)
  obtain i r where n: "n = (i, r)" by fastforce
  have inv: "affinity_inv t" and tight: "idx_tight af_client_ip (at_index t) (at_lru t)"
    using assms by (simp_all add: affinity_tight_def)
  have f: "at_index t ip = Some i" using affinity_find_inv(2) [OF inv] Some n by blast
  have "af_client_ip s \<noteq> ip" if "(j, s) \<in> set (at_lru t)" "j \<noteq> i" for j s
    using idx_tight_entry [OF tight that(1)] f that(2) by auto
  then show ?thesis
    using affinity_invalidate_inv [OF inv, of ip] tight Some n
    by (auto simp: affinity_tight_def idx_tight_def affinity_inv_def affinity_invalidate_def)
qed (simp add: affinity_invalidate_def assms)

lemma affinity_invalidate_node_tight:
  assumes "affinity_tight t"
  shows "affinity_tight (affinity_invalidate_node tag t)"
proof -
  have inv: "affinity_inv t" and tight: "idx_tight af_client_ip (at_index t) (at_lru t)"
    using assms by (simp_all add: affinity_tight_def)
  have dist: "distinct (map fst (at_lru t))" using inv by (simp add: affinity_inv_def idx_ok_def)
  have "af_client_ip s \<noteq> af_client_ip r"
    if n: "(j, s) \<in> set (at_lru t)" "(i, r) \<in> set (at_lru t)" "af_node_tag s = tag" "af_node_tag r \<noteq> tag" for j s i r
  proof
    assume "af_client_ip s = af_client_ip r"
    then have "j = i" using idx_tight_entry [OF tight n(1)] idx_tight_entry [OF tight n(2)] by simp
    with eq_key_imp_eq_value [OF dist n(1)] n(2-4) show False by auto
  qed
  then show ?thesis
    using affinity_invalidate_node_inv [OF inv, of tag] tight
    by (fastforce simp: affinity_tight_def idx_tight_def affinity_inv_def affinity_invalidate_node_def fold_forget)
qed

lemma affinity_clear_tight: "affinity_tight t \<Longrightarrow> affinity_tight (affinity_clear t)"
  using affinity_clear_inv [of t] by (simp add: affinity_tight_def idx_tight_def affinity_inv_def affinity_clear_def)

lemma affinity_inv_init:
  "1 \<le> max_records \<Longrightarrow> affinity_tight (affinity_init timeout_sec max_records new_affinity_table)"
  by (simp add: affinity_tight_def affinity_inv_def affinity_init_def new_affinity_table_def
      idx_tight_def idx_ok_def)

section \<open>Operation sequences\<close>

datatype affinity_event =
  Aff_update time_point string string | Aff_invalidate string | Aff_invalidate_node string
| Aff_cleanup time_point | Aff_clear

fun affinity_op :: "affinity_event \<Rightarrow> affinity_table \<Rightarrow> affinity_table option" where
  "affinity_op (Aff_update now ip tag) t = affinity_update now ip tag t"
| "affinity_op (Aff_invalidate ip) t = Some (affinity_invalidate ip t)"
| "affinity_op (Aff_invalidate_node tag) t = Some (affinity_invalidate_node tag t)"
| "affinity_op (Aff_cleanup now) t = Some (affinity_cleanup_expired now t)"
| "affinity_op Aff_clear t = Some (affinity_clear t)"

definition affinity_step :: "affinity_event \<Rightarrow> affinity_table option \<Rightarrow> affinity_table option" where
  "affinity_step e s = Option.bind s (affinity_op e)"

definition affinity_safe :: "affinity_table option \<Rightarrow> bool" where
  "affinity_safe s \<longleftrightarrow> (case s of None \<Rightarrow> False | Some t \<Rightarrow> affinity_inv t)"

lemma affinity_op_inv:
  assumes "affinity_inv t"
  shows "\<exists>t'. affinity_op e t = Some t' \<and> affinity_inv t'"
proof (cases e)
  case (Aff_update now ip tag)
  then show ?thesis
    using affinity_update_inv(1) [OF assms] affinity_update_eq [OF assms] by fastforce
qed (use assms in \<open>simp_all add: affinity_invalidate_inv affinity_invalidate_node_inv
      affinity_cleanup_inv affinity_clear_inv\<close>)

interpretation affinity_run: stepper affinity_step affinity_safe "\<lambda>_. True"
proof
  fix s e assume "affinity_safe s"
  then obtain t where "s = Some t" "affinity_inv t"
    by (auto simp: affinity_safe_def split: option.splits)
  then show "affinity_safe (affinity_step e s)"
    using affinity_op_inv [of t e] by (auto simp: affinity_step_def affinity_safe_def)
qed

section \<open>Specification: a bounded list in order of use\<close>

definition spec_update ::
    "time_point \<Rightarrow> string \<Rightarrow> string \<Rightarrow> nat \<Rightarrow> affinity_record list \<Rightarrow> affinity_record list" where
  "spec_update now ip tag cap rs =
     \<lparr>af_client_ip = ip, af_node_tag = tag, af_last_access = now\<rparr>
       # (if ip \<in> af_client_ip ` set rs then filter (\<lambda>r. af_client_ip r \<noteq> ip) rs
          else take (cap - 1) rs)"

definition spec_lookup :: "time_point \<Rightarrow> string \<Rightarrow> int \<Rightarrow> affinity_record list \<Rightarrow> string option" where
  "spec_lookup now ip timeout rs =
     (case find (\<lambda>r. af_client_ip r = ip) rs of
        None \<Rightarrow> None
      | Some r \<Rightarrow> if secs_between now (af_last_access r) > timeout then None
                  else Some (af_node_tag r))"

lemma find_in: "find P xs = Some y \<Longrightarrow> y \<in> set xs \<and> P y"
  by (induction xs) (auto split: if_splits)

lemma find_unique:
  assumes "x \<in> set xs" "P x" "\<And>y. y \<in> set xs \<Longrightarrow> P y \<Longrightarrow> y = x"
  shows "find P xs = Some x"
proof (cases "find P xs")
  case None
  then have "\<not> P x" using assms(1) by (simp add: find_None_iff)
  with assms(2) show ?thesis by simp
next
  case (Some y)
  then show ?thesis using find_in [OF Some] assms(3) [of y] by simp
qed

lemma affinity_records_unique:
  assumes "affinity_tight t" "y \<in> set (affinity_records t)" "r \<in> set (affinity_records t)"
    and "af_client_ip y = af_client_ip r"
  shows "y = r"
proof -
  have tight: "idx_tight af_client_ip (at_index t) (at_lru t)" and inv: "affinity_inv t"
    using assms by (simp_all add: affinity_tight_def)
  from assms(2,3) obtain j i where ji: "(j, y) \<in> set (at_lru t)" "(i, r) \<in> set (at_lru t)"
    by (auto simp: affinity_records_def)
  from idx_tight_entry [OF tight ji(1)] idx_tight_entry [OF tight ji(2)] assms(4)
  have "j = i" by simp
  moreover have "distinct (map fst (at_lru t))" using inv by (simp add: affinity_inv_def idx_ok_def)
  ultimately show ?thesis using eq_key_imp_eq_value [OF _ ji(1)] ji(2) by blast
qed

lemma affinity_find_records:
  assumes "affinity_tight t"
  shows "find (\<lambda>r. af_client_ip r = ip) (affinity_records t) = map_option snd (affinity_find ip t)"
proof (cases "affinity_find ip t")
  case None
  have "at_index t ip = None"
    using None affinity_find_inv(1) assms by (simp add: affinity_tight_def)
  with None show ?thesis
    using idx_tight_keys [of af_client_ip "at_index t" "at_lru t" ip] assms
    by (auto simp: affinity_tight_def affinity_records_def find_None_iff image_iff)
next
  case (Some n)
  obtain i r where n: "n = (i, r)" by fastforce
  have inv: "affinity_inv t" using assms by (simp add: affinity_tight_def)
  have f: "at_index t ip = Some i" "(i, r) \<in> set (at_lru t)" "af_client_ip r = ip"
    using affinity_find_inv(2) [OF inv] Some n by blast+
  have r: "r \<in> set (affinity_records t)" using f(2) by (force simp: affinity_records_def)
  then have "y = r" if "y \<in> set (affinity_records t)" "af_client_ip y = ip" for y
    using affinity_records_unique [OF assms that(1) r] that(2) f(3) by simp
  then have "find (\<lambda>r. af_client_ip r = ip) (affinity_records t) = Some r"
    using f(3) r by (intro find_unique)
  with Some n show ?thesis by simp
qed

lemma affinity_find_known:
  assumes "affinity_tight t"
  shows "affinity_find ip t = None \<longleftrightarrow> ip \<notin> af_client_ip ` set (affinity_records t)"
  using affinity_find_inv(1) [of t ip] idx_tight_keys [of af_client_ip "at_index t" "at_lru t" ip] assms
  by (simp add: affinity_tight_def affinity_records_def)

lemma affinity_update_records:
  assumes "affinity_tight t" "affinity_update now ip tag t = Some t'"
  shows "affinity_records t'
    = spec_update now ip tag (nat (at_max_records t)) (affinity_records t)"
proof -
  have inv: "affinity_inv t" and tight: "idx_tight af_client_ip (at_index t) (at_lru t)"
    using assms(1) by (simp_all add: affinity_tight_def)
  note upd = assms(2)
  show ?thesis
  proof (cases "affinity_find ip t")
    case None
    then have "ip \<notin> af_client_ip ` set (affinity_records t)"
      using affinity_find_known [OF assms(1)] by simp
    moreover have "nat (at_max_records t - 1) = nat (at_max_records t) - 1" by simp
    moreover have "t' = affinity_push \<lparr>af_client_ip = ip, af_node_tag = tag, af_last_access = now\<rparr>
        (affinity_room t)"
      using upd None by (simp add: affinity_update_eq [OF inv])
    ultimately show ?thesis
      using affinity_room(6) [OF inv]
      by (simp add: affinity_push_def affinity_records_def spec_update_def)
  next
    case (Some n)
    obtain i r where n: "n = (i, r)" by fastforce
    have "at_index t ip = Some i" "af_client_ip r = ip"
      using affinity_find_inv(2) [OF inv] Some n by blast+
    moreover have "ip \<in> af_client_ip ` set (affinity_records t)"
      using affinity_find_known [OF assms(1), of ip] Some by simp
    ultimately show ?thesis
      using idx_tight_filter [OF tight] upd [unfolded affinity_update_eq [OF inv] Some n, symmetric]
      by (simp add: affinity_records_def spec_update_def)
  qed
qed

lemma affinity_invalidate_records:
  assumes "affinity_tight t"
  shows "affinity_records (affinity_invalidate ip t) = filter (\<lambda>r. af_client_ip r \<noteq> ip) (affinity_records t)"
proof (cases "affinity_find ip t")
  case None
  then have "\<forall>r \<in> set (affinity_records t). af_client_ip r \<noteq> ip" using affinity_find_known [OF assms] by blast
  then show ?thesis using None by (simp add: affinity_invalidate_def filter_id_conv)
next
  case (Some n)
  obtain i r where n: "n = (i, r)" by fastforce
  have inv: "affinity_inv t" and tight: "idx_tight af_client_ip (at_index t) (at_lru t)"
    using assms by (simp_all add: affinity_tight_def)
  have "at_index t ip = Some i" using affinity_find_inv(2) [OF inv] Some n by blast
  from idx_tight_filter [OF tight this] show ?thesis
    using Some n by (simp add: affinity_invalidate_def affinity_records_def)
qed

lemma affinity_invalidate_node_records:
  "affinity_records (affinity_invalidate_node tag t) = filter (\<lambda>r. af_node_tag r \<noteq> tag) (affinity_records t)"
  by (simp add: affinity_records_def affinity_invalidate_node_def filter_map comp_def)

lemma affinity_lookup_records:
  "affinity_tight t \<Longrightarrow> affinity_lookup now ip t = spec_lookup now ip (at_timeout_sec t) (affinity_records t)"
  by (simp add: affinity_lookup_def spec_lookup_def affinity_find_records split: option.split prod.split)

text \<open>The operations on the specification; an expiry scan has no counterpart there.\<close>

fun spec_op :: "nat \<Rightarrow> affinity_event \<Rightarrow> affinity_record list \<Rightarrow> affinity_record list" where
  "spec_op cap (Aff_update now ip tag) rs = spec_update now ip tag cap rs"
| "spec_op cap (Aff_invalidate ip) rs = filter (\<lambda>r. af_client_ip r \<noteq> ip) rs"
| "spec_op cap (Aff_invalidate_node tag) rs = filter (\<lambda>r. af_node_tag r \<noteq> tag) rs"
| "spec_op cap (Aff_cleanup now) rs = rs"
| "spec_op cap Aff_clear rs = []"

definition is_scan :: "affinity_event \<Rightarrow> bool" where
  "is_scan e \<longleftrightarrow> (case e of Aff_cleanup now \<Rightarrow> True | _ \<Rightarrow> False)"

lemma affinity_op_simulates:
  assumes "affinity_tight t" "\<not> is_scan e"
  shows "\<exists>t'. affinity_op e t = Some t' \<and> affinity_tight t'
    \<and> at_max_records t' = at_max_records t \<and> at_timeout_sec t' = at_timeout_sec t
    \<and> affinity_records t' = spec_op (nat (at_max_records t)) e (affinity_records t)"
proof (cases e)
  case (Aff_update now ip tag)
  have inv: "affinity_inv t" using assms(1) by (simp add: affinity_tight_def)
  obtain t' where upd: "affinity_update now ip tag t = Some t'" using affinity_update_eq [OF inv] by blast
  with affinity_update_inv [OF inv upd] affinity_update_records [OF assms(1) upd] assms(1) Aff_update
  show ?thesis by simp
next
  case (Aff_invalidate ip)
  with assms(1) affinity_invalidate_tight affinity_invalidate_records show ?thesis
    by (simp add: affinity_invalidate_def split: option.split)
next
  case (Aff_invalidate_node tag)
  with assms(1) affinity_invalidate_node_tight affinity_invalidate_node_records show ?thesis
    by (simp add: affinity_invalidate_node_def)
next
  case Aff_clear
  with assms(1) affinity_clear_tight show ?thesis by (simp add: affinity_clear_def affinity_records_def)
qed (use assms(2) in \<open>simp add: is_scan_def\<close>)

lemma affinity_run_simulates:
  "affinity_tight t \<Longrightarrow> \<forall>e \<in> set es. \<not> is_scan e \<Longrightarrow>
   \<exists>t'. fold affinity_step es (Some t) = Some t' \<and> affinity_tight t' \<and> at_timeout_sec t' = at_timeout_sec t
     \<and> affinity_records t' = fold (spec_op (nat (at_max_records t))) es (affinity_records t)"
proof (induction es arbitrary: t)
  case (Cons e es)
  obtain t1 where t1: "affinity_op e t = Some t1" "affinity_tight t1" "at_max_records t1 = at_max_records t"
    "at_timeout_sec t1 = at_timeout_sec t"
    "affinity_records t1 = spec_op (nat (at_max_records t)) e (affinity_records t)"
    using affinity_op_simulates [OF Cons.prems(1), of e] Cons.prems(2) by auto
  from Cons.IH [OF t1(2)] Cons.prems(2) t1 show ?case by (simp add: affinity_step_def)
qed simp

lemma affinity_find_in:
  "affinity_tight t \<Longrightarrow> affinity_find ip t = Some (i, r)
   \<Longrightarrow> r \<in> set (affinity_records t) \<and> af_client_ip r = ip"
  using affinity_find_inv(2) [of t ip i r] by (force simp: affinity_tight_def affinity_records_def)

text \<open>
  The specification keeps an address as long as fewer than \<open>cap\<close> updates of others follow its own.
\<close>

lemma spec_update_position:
  assumes "r \<in> set (take k rs)" "af_client_ip r \<noteq> ip" "k < cap"
  shows "r \<in> set (take (Suc k) (spec_update now ip tag cap rs))"
proof -
  have "r \<in> set (take k (filter p rs))" if "p r" for p
    using assms(1) that
  proof (induction rs arbitrary: k)
    case (Cons a rs)
    then show ?case by (cases k) (auto, metis Suc_n_not_le_n in_set_takeD le_cases set_take_subset_set_take subsetD)
  qed simp
  moreover have "take k (take (cap - 1) rs) = take k rs" using assms(3) by (simp add: min_absorb1)
  ultimately show ?thesis using assms by (simp add: spec_update_def)
qed

text \<open>
  A run of updates by other addresses.
\<close>

fun update_others :: "(time_point \<times> string \<times> string) list \<Rightarrow> affinity_table \<Rightarrow> affinity_table option" where
  "update_others [] t = Some t"
| "update_others ((now, ip, tag) # us) t =
     (case affinity_update now ip tag t of None \<Rightarrow> None | Some t1 \<Rightarrow> update_others us t1)"

lemma update_others_position:
  assumes "affinity_tight t" "r \<in> set (take k (affinity_records t))"
    and "k + length us \<le> nat (at_max_records t)" "af_client_ip r \<notin> fst ` snd ` set us"
  shows "\<exists>t2. update_others us t = Some t2 \<and> affinity_tight t2
    \<and> at_timeout_sec t2 = at_timeout_sec t \<and> r \<in> set (affinity_records t2)"
  using assms
proof (induction us arbitrary: t k)
  case Nil
  then show ?case by (auto dest: in_set_takeD)
next
  case (Cons u us)
  obtain now ip tag where u: "u = (now, ip, tag)" by (cases u)
  have inv: "affinity_inv t" using Cons.prems(1) by (simp add: affinity_tight_def)
  obtain t1 where upd: "affinity_update now ip tag t = Some t1"
    using affinity_update_eq [OF inv] by blast
  note t1 = affinity_update_inv [OF inv upd]
  have "r \<in> set (take (Suc k) (affinity_records t1))"
    unfolding affinity_update_records [OF Cons.prems(1) upd]
    by (rule spec_update_position) (use Cons.prems u in auto)
  moreover have "Suc k + length us \<le> nat (at_max_records t1)" using Cons.prems(3) t1(4) by simp
  ultimately show ?case
    using Cons.IH [OF t1(2) [OF Cons.prems(1)], of "Suc k"] Cons.prems(4) u upd t1(3) by auto
qed

section \<open>Properties\<close>

text \<open>
  C17: with a positive record limit no sequence of updates, invalidations, expiry scans and clears
  reaches undefined behaviour: the eviction loop never takes the back of an empty list, no index
  entry dangles, and the table holds at most the configured number of records.
\<close>

theorem affinity_table_memory_safe:
  assumes "1 \<le> max_records"
  shows "\<exists>t. fold affinity_step es (Some (affinity_init timeout_sec max_records new_affinity_table)) = Some t
    \<and> affinity_inv t"
proof -
  have "affinity_safe (Some (affinity_init timeout_sec max_records new_affinity_table))"
    using affinity_inv_init [OF assms] by (simp add: affinity_safe_def affinity_tight_def)
  then have "affinity_safe (fold affinity_step es
      (Some (affinity_init timeout_sec max_records new_affinity_table)))"
    by (rule affinity_run.run_inv) simp
  then show ?thesis by (simp add: affinity_safe_def split: option.splits)
qed

theorem affinity_table_memory_safe_witness:
  "\<exists>t. fold affinity_step [Aff_update 0 ''a'' ''n'', Aff_cleanup 9, Aff_update 1 ''b'' ''m'']
      (Some (affinity_init 300 1 new_affinity_table)) = Some t \<and> affinity_inv t"
  by (rule affinity_table_memory_safe) simp

text \<open>
  C10: With a positive record limit, as long as no expiry scan runs, the list with its index of iterators
  implements a bounded list of records in order of use: after any sequence of updates, invalidations of
  addresses and of nodes, and clears, from the empty table, the records are those the sequence makes in
  the specification, and every lookup at any time finds the specification's answer.
\<close>

theorem affinity_table_refines_spec:
  assumes "1 \<le> max_records" "\<forall>e \<in> set es. \<not> is_scan e"
  shows "\<exists>t. fold affinity_step es (Some (affinity_init timeout_sec max_records new_affinity_table)) = Some t
    \<and> affinity_records t = fold (spec_op (nat max_records)) es []
    \<and> (\<forall>now ip. affinity_lookup now ip t
         = spec_lookup now ip timeout_sec (fold (spec_op (nat max_records)) es []))"
proof -
  let ?t = "affinity_init timeout_sec max_records new_affinity_table"
  have t: "at_max_records ?t = max_records" "at_timeout_sec ?t = timeout_sec" "affinity_records ?t = []"
    by (simp_all add: affinity_init_def affinity_records_def new_affinity_table_def)
  from affinity_run_simulates [OF affinity_inv_init [OF assms(1), of timeout_sec] assms(2)]
  obtain t' where "fold affinity_step es (Some ?t) = Some t'" "affinity_tight t'" "at_timeout_sec t' = timeout_sec"
    "affinity_records t' = fold (spec_op (nat max_records)) es []"
    by (auto simp: t)
  then show ?thesis using affinity_lookup_records [of t'] by simp
qed

theorem affinity_table_refines_spec_witness:
  "\<exists>t. fold affinity_step [Aff_update 0 ''a'' ''n'', Aff_update 1 ''b'' ''m'', Aff_update 2 ''c'' ''n'',
      Aff_invalidate_node ''m''] (Some (affinity_init 300 2 new_affinity_table)) = Some t
    \<and> affinity_lookup 3 ''a'' t = None \<and> affinity_lookup 3 ''b'' t = None \<and> affinity_lookup 3 ''c'' t = Some ''n''"
proof -
  let ?es = "[Aff_update 0 ''a'' ''n'', Aff_update 1 ''b'' ''m'', Aff_update 2 ''c'' ''n'', Aff_invalidate_node ''m'']"
  have spec: "fold (spec_op (nat 2)) ?es [] = [\<lparr>af_client_ip = ''c'', af_node_tag = ''n'', af_last_access = 2\<rparr>]"
    by (simp add: spec_update_def)
  from affinity_table_refines_spec [of 2 ?es 300] obtain t where
    t: "fold affinity_step ?es (Some (affinity_init 300 2 new_affinity_table)) = Some t"
    and look: "\<And>now ip. affinity_lookup now ip t = spec_lookup now ip 300 (fold (spec_op (nat 2)) ?es [])"
    by (auto simp: is_scan_def)
  have "affinity_lookup 3 ''a'' t = None" "affinity_lookup 3 ''b'' t = None" "affinity_lookup 3 ''c'' t = Some ''n''"
    unfolding look spec
    by (simp_all add: spec_lookup_def secs_between_def ns_per_sec_def signed_divide_int_def)
  with t show ?thesis by blast
qed

text \<open>
  an address keeps the node it was last sent to while fewer updates of other addresses follow
  than the table has room for, and until the time-out since its own update has passed.
\<close>

theorem affinity_is_sticky:
  assumes "affinity_tight t" "affinity_update now ip tag t = Some t1"
    and "length us < nat (at_max_records t)" "ip \<notin> fst ` snd ` set us"
  shows "\<exists>t2. update_others us t1 = Some t2 \<and> affinity_lookup now' ip t2
    = (if secs_between now' now > at_timeout_sec t then None else Some tag)"
proof -
  let ?r = "\<lparr>af_client_ip = ip, af_node_tag = tag, af_last_access = now\<rparr>"
  have inv: "affinity_inv t" using assms(1) by (simp add: affinity_tight_def)
  note t1 = affinity_update_inv [OF inv assms(2)]
  have "?r \<in> set (take 1 (affinity_records t1))"
    using affinity_update_records [OF assms(1,2)] by (simp add: spec_update_def)
  moreover have "1 + length us \<le> nat (at_max_records t1)" using assms(3) t1(4) by simp
  ultimately obtain t2 where t2: "update_others us t1 = Some t2" "affinity_tight t2"
    "at_timeout_sec t2 = at_timeout_sec t1" "?r \<in> set (affinity_records t2)"
    using update_others_position [OF t1(2) [OF assms(1)], of ?r 1 us] assms(4) by auto
  then have "affinity_find ip t2 \<noteq> None"
    using affinity_find_known [OF t2(2), of ip] by force
  then obtain i r where f: "affinity_find ip t2 = Some (i, r)" by auto
  have "r = ?r" using affinity_records_unique [OF t2(2) _ t2(4), of r] affinity_find_in [OF t2(2) f] by simp
  with f t2 t1(3) show ?thesis by (simp add: affinity_lookup_def)
qed

theorem affinity_is_sticky_witness:
  "\<exists>t1 t2. affinity_update 0 ''a'' ''n'' (affinity_init 300 2 new_affinity_table) = Some t1
    \<and> update_others [(1, ''b'', ''m'')] t1 = Some t2 \<and> affinity_lookup 2 ''a'' t2 = Some ''n''"
proof -
  let ?t = "affinity_init 300 2 new_affinity_table"
  have tight: "affinity_tight ?t" by (rule affinity_inv_init) simp
  then obtain t1 where t1: "affinity_update 0 ''a'' ''n'' ?t = Some t1"
    using affinity_update_eq [of ?t 0 "''a''" "''n''"] by (auto simp: affinity_tight_def)
  have "at_max_records ?t = 2" "at_timeout_sec ?t = 300" by (simp_all add: affinity_init_def)
  then show ?thesis
    using affinity_is_sticky [OF tight t1, of "[(1, ''b'', ''m'')]" 2] t1
    by (auto simp: secs_between_def ns_per_sec_def signed_divide_int_def)
qed

text \<open>
  After an expiry scan the list keeps the node whose index entry it dropped. When the address comes
  back it gets a second node, and the eviction of the first takes the index entry of the second
  away: the address is forgotten one second after its update, with one update in between.
\<close>

lemma stale_node_evicts_live_entry:
  "map_option (affinity_lookup (401 * ns_per_sec) ''a'')
     (fold affinity_step
        [Aff_update 0 ''a'' ''n'', Aff_cleanup (400 * ns_per_sec),
         Aff_update (400 * ns_per_sec) ''a'' ''n'', Aff_update (401 * ns_per_sec) ''b'' ''n'']
        (Some (affinity_init 300 2 new_affinity_table)))
   = Some None"
  by code_simp

section \<open>The interface the load balancer uses\<close>

text \<open>
  A store of one node per address. An update may drop other addresses but never changes what they
  are sent to, so whatever a lookup answers is the node of the address's last update.
\<close>

locale affinity_store =
  fixes look :: "time_point \<Rightarrow> 'a \<Rightarrow> 's \<Rightarrow> 'n option"
    and upd :: "time_point \<Rightarrow> 'a \<Rightarrow> 'n \<Rightarrow> 's \<Rightarrow> 's option"
    and drop_key :: "'a \<Rightarrow> 's \<Rightarrow> 's"
    and inv :: "'s \<Rightarrow> bool"
    and timeout :: "'s \<Rightarrow> int"
  assumes upd_ok: "inv s \<Longrightarrow> \<exists>s'. upd now k n s = Some s' \<and> inv s' \<and> timeout s' = timeout s"
    and drop_ok: "inv s \<Longrightarrow> inv (drop_key k s) \<and> timeout (drop_key k s) = timeout s"
    and look_upd: "inv s \<Longrightarrow> upd now k n s = Some s' \<Longrightarrow>
      look now' k s' = (if secs_between now' now > timeout s then None else Some n)"
    and look_upd_other: "inv s \<Longrightarrow> upd now k n s = Some s' \<Longrightarrow> k' \<noteq> k \<Longrightarrow>
      look now' k' s' = look now' k' s \<or> look now' k' s' = None"
    and look_drop: "inv s \<Longrightarrow> look now k (drop_key k s) = None"
    and look_drop_other: "inv s \<Longrightarrow> k' \<noteq> k \<Longrightarrow> look now k' (drop_key k s) = look now k' s"
begin

text \<open>Requests as the balancer makes them: \<open>Some n\<close> records a choice, \<open>None\<close> drops the address.\<close>

fun request :: "time_point \<times> 'a \<times> 'n option \<Rightarrow> 's option \<Rightarrow> 's option" where
  "request (now, k, Some n) s = Option.bind s (upd now k n)"
| "request (now, k, None) s = map_option (drop_key k) s"

lemma request_ok:
  assumes "inv s"
  shows "\<exists>s'. request r (Some s) = Some s' \<and> inv s' \<and> timeout s' = timeout s"
  using upd_ok [OF assms] drop_ok [OF assms] by (cases r; cases "snd (snd r)") auto

lemma answer_is_last_choice:
  assumes "inv s" "\<And>now. look now k s = None"
  shows "\<exists>s'. fold request rs (Some s) = Some s' \<and> inv s' \<and> timeout s' = timeout s \<and>
    (look now' k s' = Some n \<longrightarrow>
      (\<exists>now. rs \<noteq> [] \<and> last (filter (\<lambda>r. fst (snd r) = k) rs) = (now, k, Some n)
        \<and> filter (\<lambda>r. fst (snd r) = k) rs \<noteq> [] \<and> secs_between now' now \<le> timeout s))"
proof (induction rs rule: rev_induct)
  case Nil
  then show ?case using assms by simp
next
  case (snoc r rs)
  then obtain s1 where s1: "fold request rs (Some s) = Some s1" "inv s1" "timeout s1 = timeout s"
    and IH: "look now' k s1 = Some n \<longrightarrow> (\<exists>now. last (filter (\<lambda>r. fst (snd r) = k) rs) = (now, k, Some n)
        \<and> filter (\<lambda>r. fst (snd r) = k) rs \<noteq> [] \<and> secs_between now' now \<le> timeout s)"
    by blast
  obtain s2 where s2: "request r (Some s1) = Some s2" "inv s2" "timeout s2 = timeout s1"
    using request_ok [OF s1(2)] by blast
  obtain now k' choice where r: "r = (now, k', choice)" by (cases r)
  have "look now' k s2 = Some n \<longrightarrow>
      (\<exists>now. last (filter (\<lambda>r. fst (snd r) = k) (rs @ [r])) = (now, k, Some n)
        \<and> filter (\<lambda>r. fst (snd r) = k) (rs @ [r]) \<noteq> [] \<and> secs_between now' now \<le> timeout s)"
  proof (cases "k' = k")
    case True
    with r s2(1) s1 show ?thesis
      using look_upd [OF s1(2)] look_drop [OF s1(2)] by (cases choice) (auto split: if_splits)
  next
    case False
    then have "look now' k s2 = look now' k s1 \<or> look now' k s2 = None"
      using r s2(1) look_upd_other [OF s1(2)] look_drop_other [OF s1(2)] by (cases choice) auto
    with IH False r show ?thesis by auto
  qed
  with s1 s2 show ?case by auto
qed

end

lemma affinity_find_eq:
  assumes "affinity_inv t" "at_index t ip = Some i" "(i, r) \<in> set (at_lru t)"
  shows "affinity_find ip t = Some (i, r)"
proof -
  have "map_of (at_lru t) i = Some r" using assms by (simp add: affinity_inv_def idx_ok_def)
  with assms(2) show ?thesis by (simp add: affinity_find_def)
qed

lemma affinity_lookup_sub:
  assumes "affinity_inv t" "affinity_inv t'" "at_timeout_sec t' = at_timeout_sec t"
    and "at_index t' ip = at_index t ip \<or> at_index t' ip = None"
    and "\<And>i r. (i, r) \<in> set (at_lru t') \<Longrightarrow> af_client_ip r = ip \<Longrightarrow> (i, r) \<in> set (at_lru t)"
  shows "affinity_lookup now ip t' = affinity_lookup now ip t \<or> affinity_lookup now ip t' = None"
proof (cases "affinity_find ip t'")
  case None
  then show ?thesis by (simp add: affinity_lookup_def)
next
  case (Some n)
  obtain i r where n: "n = (i, r)" by fastforce
  have "at_index t' ip = Some i" "(i, r) \<in> set (at_lru t')" "af_client_ip r = ip"
    using affinity_find_inv(2) [OF assms(2)] Some n by blast+
  then have "affinity_find ip t = Some (i, r)"
    using assms(4,5) by (intro affinity_find_eq [OF assms(1)]) auto
  with Some n assms(3) show ?thesis by (simp add: affinity_lookup_def)
qed

lemma affinity_room_nodes: "set (at_lru (affinity_room t)) \<subseteq> set (at_lru t)"
  by (auto simp: affinity_room_def affinity_pop_def dest: in_set_butlastD)

lemma affinity_update_lookup:
  assumes inv: "affinity_inv t" and upd: "affinity_update now ip tag t = Some t'"
  shows "affinity_lookup now' ip t'
      = (if secs_between now' now > at_timeout_sec t then None else Some tag)"
    and "ip' \<noteq> ip \<Longrightarrow>
      affinity_lookup now' ip' t' = affinity_lookup now' ip' t \<or> affinity_lookup now' ip' t' = None"
proof -
  note inv' = affinity_update_inv [OF inv upd]
  note eq = upd [unfolded affinity_update_eq [OF inv]]
  have "affinity_lookup now' ip t'
      = (if secs_between now' now > at_timeout_sec t then None else Some tag)
    \<and> (ip' \<noteq> ip \<longrightarrow>
      affinity_lookup now' ip' t' = affinity_lookup now' ip' t \<or> affinity_lookup now' ip' t' = None)"
  proof (cases "affinity_find ip t")
    case None
    let ?r = "\<lparr>af_client_ip = ip, af_node_tag = tag, af_last_access = now\<rparr>"
    have t': "t' = affinity_push ?r (affinity_room t)" using None eq by simp
    have "affinity_find ip t' = Some (at_next_id (affinity_room t), ?r)"
      by (simp add: t' affinity_find_def affinity_push_def)
    moreover have "affinity_lookup now' ip' t' = affinity_lookup now' ip' t \<or> affinity_lookup now' ip' t' = None"
      if "ip' \<noteq> ip"
    proof (rule affinity_lookup_sub [OF inv inv'(1,3)])
      show "at_index t' ip' = at_index t ip' \<or> at_index t' ip' = None"
        using affinity_room(7) [OF inv, of ip'] that by (simp add: t' affinity_push_def)
      show "(i, r) \<in> set (at_lru t)" if "(i, r) \<in> set (at_lru t')" "af_client_ip r = ip'" for i r
        using that affinity_room_nodes [of t] \<open>ip' \<noteq> ip\<close> by (auto simp: t' affinity_push_def)
    qed
    ultimately show ?thesis using inv'(3) by (simp add: affinity_lookup_def)
  next
    case (Some n)
    obtain i r where n: "n = (i, r)" by fastforce
    let ?r = "r\<lparr>af_node_tag := tag, af_last_access := now\<rparr>"
    have f: "at_index t ip = Some i" "(i, r) \<in> set (at_lru t)" "af_client_ip r = ip"
      using affinity_find_inv(2) [OF inv] Some n by blast+
    have t': "t' = t\<lparr>at_lru := (i, ?r) # filter (\<lambda>n. fst n \<noteq> i) (at_lru t)\<rparr>"
      using eq Some n by simp
    have "affinity_find ip t' = Some (i, ?r)" using f by (simp add: t' affinity_find_def)
    moreover have "affinity_lookup now' ip' t' = affinity_lookup now' ip' t \<or> affinity_lookup now' ip' t' = None"
      if "ip' \<noteq> ip"
    proof (rule affinity_lookup_sub [OF inv inv'(1,3)])
      show "at_index t' ip' = at_index t ip' \<or> at_index t' ip' = None" by (simp add: t')
      show "(j, s) \<in> set (at_lru t)" if "(j, s) \<in> set (at_lru t')" "af_client_ip s = ip'" for j s
        using that f(3) \<open>ip' \<noteq> ip\<close> by (auto simp: t')
    qed
    ultimately show ?thesis using inv'(3) by (simp add: affinity_lookup_def)
  qed
  then show "affinity_lookup now' ip t'
      = (if secs_between now' now > at_timeout_sec t then None else Some tag)"
    and "ip' \<noteq> ip \<Longrightarrow>
      affinity_lookup now' ip' t' = affinity_lookup now' ip' t \<or> affinity_lookup now' ip' t' = None"
    by simp_all
qed

lemma affinity_invalidate_timeout [simp]:
  "at_timeout_sec (affinity_invalidate ip t) = at_timeout_sec t"
  by (simp add: affinity_invalidate_def split: option.split)

lemma affinity_invalidate_lookup:
  assumes inv: "affinity_inv t"
  shows "affinity_lookup now ip (affinity_invalidate ip t) = None"
    and "ip' \<noteq> ip \<Longrightarrow> affinity_lookup now ip' (affinity_invalidate ip t) = affinity_lookup now ip' t"
proof -
  have "affinity_lookup now ip (affinity_invalidate ip t) = None
    \<and> (ip' \<noteq> ip \<longrightarrow> affinity_lookup now ip' (affinity_invalidate ip t) = affinity_lookup now ip' t)"
  proof (cases "affinity_find ip t")
    case None
    then show ?thesis by (simp add: affinity_invalidate_def affinity_lookup_def)
  next
    case (Some n)
    obtain i r where n: "n = (i, r)" by fastforce
    have f: "at_index t ip = Some i" "(i, r) \<in> set (at_lru t)" "af_client_ip r = ip"
      using affinity_find_inv(2) [OF inv] Some n by blast+
    have "affinity_find ip' (affinity_invalidate ip t) = affinity_find ip' t" if "ip' \<noteq> ip"
    proof (cases "affinity_find ip' t")
      case None
      then have "at_index t ip' = None" using affinity_find_inv(1) [OF inv] by simp
      with None Some n that show ?thesis by (simp add: affinity_invalidate_def affinity_find_def)
    next
      case (Some m)
      obtain j s where m: "m = (j, s)" by fastforce
      have g: "at_index t ip' = Some j" "(j, s) \<in> set (at_lru t)" "af_client_ip s = ip'"
        using affinity_find_inv(2) [OF inv] Some m by blast+
      have "idx_ok af_client_ip (at_index t) (at_lru t)" using inv by (simp add: affinity_inv_def)
      from idx_ok_key [OF this f(1)] g that have "j \<noteq> i" by auto
      have "affinity_find ip' (affinity_invalidate ip t) = Some (j, s)"
        by (rule affinity_find_eq [OF affinity_invalidate_inv [OF inv]])
          (use \<open>affinity_find ip t = Some n\<close> n g that \<open>j \<noteq> i\<close> in \<open>simp_all add: affinity_invalidate_def\<close>)
      with Some m show ?thesis by simp
    qed
    moreover have "affinity_find ip (affinity_invalidate ip t) = None"
      using Some n by (simp add: affinity_invalidate_def) (simp add: affinity_find_def)
    ultimately show ?thesis by (simp add: affinity_lookup_def split: option.split)
  qed
  then show "affinity_lookup now ip (affinity_invalidate ip t) = None"
    and "ip' \<noteq> ip \<Longrightarrow> affinity_lookup now ip' (affinity_invalidate ip t) = affinity_lookup now ip' t"
    by blast+
qed

interpretation ip_store: affinity_store affinity_lookup affinity_update affinity_invalidate
  affinity_inv at_timeout_sec
proof
  show "\<exists>s'. affinity_update now k n s = Some s' \<and> affinity_inv s' \<and> at_timeout_sec s' = at_timeout_sec s"
    if "affinity_inv s" for s now k n
    using affinity_update_inv [OF that] affinity_update_eq [OF that] by blast
qed (simp_all add: affinity_invalidate_inv affinity_update_lookup affinity_invalidate_lookup)

end
