(* ===== verification/Node_Health.thy ===== *)
theory Node_Health
  imports Prelude
begin

text \<open>
  \<^verbatim>\<open>src/src/concurrency/node_health_checker.cpp\<close>: what is known of each upstream node from the TCP
  probes and from the marks other components set. The node table of the node manager and the
  outcome of a probe are arguments.
\<close>

section \<open>State\<close>

datatype node_health_status = Available | Unavailable | Unstable

record node_health_info =
  nh_tag :: string
  nh_status :: node_health_status
  nh_latency_ms :: int
  nh_consecutive_failures :: int
  nh_last_check :: time_point
  nh_total_checks :: int
  nh_failed_checks :: int

definition new_health_info :: node_health_info where
  "new_health_info = \<lparr>nh_tag = '''', nh_status = Available, nh_latency_ms = 0,
     nh_consecutive_failures = 0, nh_last_check = 0, nh_total_checks = 0, nh_failed_checks = 0\<rparr>"

record node_health_checker =
  hc_check_interval_sec :: int
  hc_probe_timeout_sec :: int
  hc_failure_threshold :: int
  hc_health :: "string \<rightharpoonup> node_health_info"
  hc_running :: bool

definition new_health_checker :: node_health_checker where
  "new_health_checker = \<lparr>hc_check_interval_sec = 10, hc_probe_timeout_sec = 5,
     hc_failure_threshold = 3, hc_health = Map.empty, hc_running = False\<rparr>"

section \<open>Operations\<close>

definition health_init :: "int \<Rightarrow> int \<Rightarrow> int \<Rightarrow> node_health_checker \<Rightarrow> node_health_checker" where
  "health_init interval timeout threshold hc =
     hc\<lparr>hc_check_interval_sec := interval, hc_probe_timeout_sec := timeout,
        hc_failure_threshold := threshold\<rparr>"

text \<open>Starting returns whether this call is the one that spawns the probing thread.\<close>

definition health_start :: "node_health_checker \<Rightarrow> node_health_checker \<times> bool" where
  "health_start hc = (hc\<lparr>hc_running := True\<rparr>, \<not> hc_running hc)"

definition health_stop :: "node_health_checker \<Rightarrow> node_health_checker" where
  "health_stop hc = hc\<lparr>hc_running := False\<rparr>"

text \<open>The reference \<^verbatim>\<open>m_health[tag]\<close>: the entry, default constructed where there is none.\<close>

definition health_entry :: "string \<Rightarrow> node_health_checker \<Rightarrow> node_health_info" where
  "health_entry tag hc = (case hc_health hc tag of None \<Rightarrow> new_health_info | Some info \<Rightarrow> info)"

definition health_put :: "string \<Rightarrow> node_health_info \<Rightarrow> node_health_checker \<Rightarrow> node_health_checker" where
  "health_put tag info hc = hc\<lparr>hc_health := (hc_health hc)(tag \<mapsto> info)\<rparr>"

definition record_probe ::
    "time_point \<Rightarrow> int \<Rightarrow> bool \<Rightarrow> int \<Rightarrow> string \<Rightarrow> node_health_info \<Rightarrow> node_health_info" where
  "record_probe now threshold success elapsed_ms tag info0 =
     (let info = info0\<lparr>nh_tag := tag, nh_last_check := now,
                       nh_total_checks := nh_total_checks info0 + 1\<rparr>
      in if success then
           let info1 = info\<lparr>nh_latency_ms := to_int32 elapsed_ms, nh_consecutive_failures := 0,
                            nh_failed_checks := max 0 (nh_failed_checks info - 1)\<rparr>
           in if nh_consecutive_failures info1 < threshold
              then info1\<lparr>nh_status := Available\<rparr> else info1
         else
           let info1 = info\<lparr>nh_consecutive_failures := nh_consecutive_failures info + 1,
                            nh_failed_checks := nh_failed_checks info + 1\<rparr>
           in if nh_consecutive_failures info1 \<ge> threshold then info1\<lparr>nh_status := Unavailable\<rparr>
              else if nh_consecutive_failures info1 > 0 then info1\<lparr>nh_status := Unstable\<rparr>
              else info1)"

text \<open>
  A probe: \<open>get_node\<close> is the node manager's lookup (address and port), \<open>connect\<close> the outcome of
  the connection attempt with its duration in milliseconds.
\<close>

definition do_probe ::
    "(string \<Rightarrow> (string \<times> int) option) \<Rightarrow> (string \<Rightarrow> int \<Rightarrow> bool \<times> int) \<Rightarrow> time_point \<Rightarrow> string
     \<Rightarrow> node_health_checker \<Rightarrow> node_health_checker" where
  "do_probe get_node connect now tag hc =
     (case get_node tag of
        None \<Rightarrow> hc
      | Some (address, port) \<Rightarrow>
          let (success, elapsed_ms) = connect address port
          in health_put tag
               (record_probe now (hc_failure_threshold hc) success elapsed_ms tag (health_entry tag hc))
               hc)"

definition check_now ::
    "(string \<Rightarrow> (string \<times> int) option) \<Rightarrow> (string \<Rightarrow> int \<Rightarrow> bool \<times> int) \<Rightarrow> time_point \<Rightarrow> string
     \<Rightarrow> node_health_checker \<Rightarrow> node_health_checker" where
  "check_now = do_probe"

text \<open>One round over the listed nodes; \<open>clock tag\<close> is the time at which the probe of \<open>tag\<close> ends.\<close>

definition periodic_check ::
    "(string \<Rightarrow> (string \<times> int) option) \<Rightarrow> (string \<Rightarrow> int \<Rightarrow> bool \<times> int) \<Rightarrow> (string \<Rightarrow> time_point)
     \<Rightarrow> string list \<Rightarrow> node_health_checker \<Rightarrow> node_health_checker" where
  "periodic_check get_node connect clock tags =
     fold (\<lambda>tag. do_probe get_node connect (clock tag) tag) tags"

definition health_get_status :: "string \<Rightarrow> node_health_checker \<Rightarrow> node_health_status" where
  "health_get_status tag hc =
     (case hc_health hc tag of None \<Rightarrow> Available | Some info \<Rightarrow> nh_status info)"

definition health_get_latency_ms :: "string \<Rightarrow> node_health_checker \<Rightarrow> int" where
  "health_get_latency_ms tag hc =
     (case hc_health hc tag of None \<Rightarrow> 0 | Some info \<Rightarrow> nh_latency_ms info)"

definition health_get_info :: "string \<Rightarrow> node_health_checker \<Rightarrow> node_health_info" where
  "health_get_info tag hc =
     (case hc_health hc tag of None \<Rightarrow> new_health_info | Some info \<Rightarrow> info)"

definition health_get_all_info :: "string list \<Rightarrow> node_health_checker \<Rightarrow> node_health_info list" where
  "health_get_all_info ks hc = vals ks (hc_health hc)"

definition mark_unavailable :: "string \<Rightarrow> node_health_checker \<Rightarrow> node_health_checker" where
  "mark_unavailable tag hc =
     health_put tag
       ((health_entry tag hc)\<lparr>nh_tag := tag, nh_status := Unavailable,
          nh_consecutive_failures := hc_failure_threshold hc\<rparr>) hc"

definition mark_available :: "string \<Rightarrow> node_health_checker \<Rightarrow> node_health_checker" where
  "mark_available tag hc =
     health_put tag
       ((health_entry tag hc)\<lparr>nh_tag := tag, nh_status := Available,
          nh_consecutive_failures := 0\<rparr>) hc"

lemmas health_defs = health_put_def health_entry_def mark_unavailable_def mark_available_def

section \<open>Invariant\<close>

fun status_of :: "int \<Rightarrow> int \<Rightarrow> node_health_status" where
  "status_of threshold fails =
     (if fails = 0 then Available else if fails < threshold then Unstable else Unavailable)"

definition health_wf :: "int \<Rightarrow> node_health_info \<Rightarrow> bool" where
  "health_wf threshold info \<longleftrightarrow>
     nh_status info = status_of threshold (nh_consecutive_failures info)
     \<and> 0 \<le> nh_consecutive_failures info
     \<and> 0 \<le> nh_failed_checks info \<and> nh_failed_checks info \<le> nh_total_checks info"

definition health_inv :: "node_health_checker \<Rightarrow> bool" where
  "health_inv hc \<longleftrightarrow> 1 \<le> hc_failure_threshold hc \<and>
     (\<forall>tag. health_wf (hc_failure_threshold hc) (health_entry tag hc))"

lemma health_inv_entry: "health_inv hc \<Longrightarrow> health_wf (hc_failure_threshold hc) (health_entry tag hc)"
  by (simp add: health_inv_def)

lemma record_probe_wf:
  "1 \<le> threshold \<Longrightarrow> health_wf threshold info
   \<Longrightarrow> health_wf threshold (record_probe now threshold success ms tag info)"
  by (simp add: health_wf_def record_probe_def Let_def)

lemma health_put_inv:
  "health_inv hc \<Longrightarrow> health_wf (hc_failure_threshold hc) info \<Longrightarrow> health_inv (health_put tag info hc)"
  by (simp add: health_inv_def health_put_def health_entry_def)

datatype health_event = Probe time_point string bool int | Mark_down string | Mark_up string

text \<open>A probe of a known node whose connection attempt had the given outcome, or a mark.\<close>

fun health_step :: "health_event \<Rightarrow> node_health_checker \<Rightarrow> node_health_checker" where
  "health_step (Probe now tag success ms) hc =
     do_probe (\<lambda>_. Some ('''', 0)) (\<lambda>_ _. (success, ms)) now tag hc"
| "health_step (Mark_down tag) hc = mark_unavailable tag hc"
| "health_step (Mark_up tag) hc = mark_available tag hc"

lemma health_threshold [simp]: "hc_failure_threshold (health_step e hc) = hc_failure_threshold hc"
  by (cases e) (simp_all add: do_probe_def health_defs)

lemma health_marks_inv:
  assumes "health_inv hc"
  shows "health_inv (mark_unavailable tag hc)" and "health_inv (mark_available tag hc)"
  unfolding mark_unavailable_def mark_available_def
  by (rule health_put_inv [OF assms],
      use assms health_inv_entry [OF assms, of tag] in \<open>simp add: health_wf_def health_inv_def\<close>)+

interpretation health_run: stepper health_step health_inv "\<lambda>_. True"
proof
  fix hc e assume inv: "health_inv hc"
  then have "1 \<le> hc_failure_threshold hc" by (simp add: health_inv_def)
  then show "health_inv (health_step e hc)"
    using health_put_inv [OF inv record_probe_wf [OF _ health_inv_entry [OF inv]]]
      health_marks_inv [OF inv]
    by (cases e) (simp_all add: do_probe_def)
qed

lemma health_inv_init:
  "1 \<le> threshold \<Longrightarrow> health_inv (health_init interval timeout threshold new_health_checker)"
  by (simp add: health_inv_def health_init_def new_health_checker_def health_entry_def
      new_health_info_def health_wf_def)

section \<open>The status is a function of the failures in a row\<close>

fun streak_step :: "int \<Rightarrow> string \<Rightarrow> health_event \<Rightarrow> int \<Rightarrow> int" where
  "streak_step threshold tag (Probe now t success ms) n =
     (if t = tag then if success then 0 else n + 1 else n)"
| "streak_step threshold tag (Mark_down t) n = (if t = tag then threshold else n)"
| "streak_step threshold tag (Mark_up t) n = (if t = tag then 0 else n)"

definition failures_in_a_row :: "int \<Rightarrow> string \<Rightarrow> health_event list \<Rightarrow> int" where
  "failures_in_a_row threshold tag es = fold (streak_step threshold tag) es 0"

lemma streak_of_step:
  "nh_consecutive_failures (health_entry tag (health_step e hc))
   = streak_step (hc_failure_threshold hc) tag e (nh_consecutive_failures (health_entry tag hc))"
  by (cases e) (simp_all add: do_probe_def record_probe_def health_defs Let_def)

lemma streak_of_run:
  "nh_consecutive_failures (health_entry tag (fold health_step es hc))
   = fold (streak_step (hc_failure_threshold hc) tag) es (nh_consecutive_failures (health_entry tag hc))"
  by (induction es arbitrary: hc) (simp_all add: streak_of_step)

lemma threshold_of_run [simp]:
  "hc_failure_threshold (fold health_step es hc) = hc_failure_threshold hc"
  by (induction es arbitrary: hc) simp_all

lemma status_of_entry: "health_get_status tag hc = nh_status (health_entry tag hc)"
  by (simp add: health_get_status_def health_entry_def new_health_info_def split: option.split)

section \<open>Properties\<close>

text \<open>
  C33: with a positive threshold, after any sequence of probes and marks the reported status of a node
  is available, unstable or unavailable exactly as a count for it is zero, below or at least the threshold:
  a failed probe of the node adds one to the count, a successful one or a mark as available sets it to
  zero, and a mark as unavailable to the threshold; probes and marks of other nodes have no influence.
\<close>

theorem node_status_follows_failures:
  assumes "1 \<le> threshold"
  shows "health_get_status tag
      (fold health_step es (health_init interval timeout threshold new_health_checker))
    = status_of threshold (failures_in_a_row threshold tag es)"
proof -
  let ?hc = "health_init interval timeout threshold new_health_checker"
  have "health_inv (fold health_step es ?hc)"
    by (rule health_run.run_inv [OF health_inv_init [OF assms]]) simp
  moreover have "hc_failure_threshold ?hc = threshold"
    "nh_consecutive_failures (health_entry tag ?hc) = 0"
    by (simp_all add: health_init_def new_health_checker_def health_entry_def new_health_info_def)
  ultimately show ?thesis
    using health_inv_entry [of "fold health_step es ?hc" tag]
    by (simp add: status_of_entry health_wf_def streak_of_run failures_in_a_row_def)
qed

theorem node_status_follows_failures_witness:
  "health_get_status ''n'' (fold health_step
     [Probe 1 ''n'' False 9, Mark_up ''m'', Probe 2 ''n'' False 9]
     (health_init 10 5 2 new_health_checker)) = Unavailable"
  using node_status_follows_failures [of 2 "''n''" "[Probe 1 ''n'' False 9, Mark_up ''m'', Probe 2 ''n'' False 9]" 10 5]
  by (simp add: failures_in_a_row_def)

end
