(* ===== verification/Smooth_Weighted.thy ===== *)
theory Smooth_Weighted
  imports Prelude
begin

text \<open>
  The arithmetic of the weighted round robin of \<^verbatim>\<open>load_balancer.cpp\<close> on unbounded integers: every
  round adds each weight to its current value, takes the first largest and charges it the sum of
  the weights. \<open>Load_Balancer\<close> shows that the 32-bit code computes this.
\<close>

section \<open>The first largest element\<close>

definition best_index :: "int list \<Rightarrow> nat" where
  "best_index ws = fold (\<lambda>i best. if ws ! i > ws ! best then i else best) [1..<length ws] 0"

lemma best_index_upto:
  assumes "0 < n"
  shows "fold (\<lambda>i best. if ws ! i > ws ! best then i else best) [1..<n] 0 < n
    \<and> (\<forall>i < n. ws ! i \<le> (ws::int list) ! fold (\<lambda>i best. if ws ! i > ws ! best then i else best) [1..<n] 0)"
  using assms
proof (induction n)
  case (Suc n)
  let ?f = "\<lambda>i best. if ws ! i > ws ! best then i else best"
  show ?case
  proof (cases "n = 0")
    case False
    then have IH: "fold ?f [1..<n] 0 < n" "\<forall>i < n. ws ! i \<le> ws ! fold ?f [1..<n] 0"
      using Suc.IH by auto
    have "fold ?f [1..<Suc n] 0 = ?f n (fold ?f [1..<n] 0)" using False by simp
    with IH show ?thesis by (auto simp: less_Suc_eq)
  qed simp
qed simp

lemma best_index_bound: "ws \<noteq> [] \<Longrightarrow> best_index ws < length ws"
  using best_index_upto [of "length ws" ws] by (simp add: best_index_def)

lemma best_index_max: "i < length ws \<Longrightarrow> ws ! i \<le> ws ! best_index ws"
  using best_index_upto [of "length ws" ws] by (cases "length ws = 0") (auto simp: best_index_def)

section \<open>Rounds\<close>

definition wrr_step :: "int list \<Rightarrow> int list \<Rightarrow> nat \<times> int list" where
  "wrr_step w ws =
     (let a = map2 (+) ws w; b = best_index a in (b, a[b := a ! b - sum_list w]))"

fun wrr_run :: "int list \<Rightarrow> nat \<Rightarrow> int list \<Rightarrow> nat list \<times> int list" where
  "wrr_run w 0 ws = ([], ws)"
| "wrr_run w (Suc k) ws =
     (let (b, ws1) = wrr_step w ws; (bs, ws2) = wrr_run w k ws1 in (b # bs, ws2))"

text \<open>The current values add up to zero and none has been charged more than it can repay.\<close>

definition wrr_ok :: "int list \<Rightarrow> int list \<Rightarrow> bool" where
  "wrr_ok w ws \<longleftrightarrow> length ws = length w \<and> sum_list ws = 0 \<and> (\<forall>i < length ws. - sum_list w < ws ! i)"

definition wrr_weights :: "int list \<Rightarrow> bool" where
  "wrr_weights w \<longleftrightarrow> (\<forall>x \<in> set w. 0 \<le> x) \<and> 0 < sum_list w"

lemma sum_list_map2_add: "length xs = length ys \<Longrightarrow> sum_list (map2 (+) xs ys) = sum_list xs + sum_list (ys::int list)"
  by (induction xs ys rule: list_induct2) simp_all

lemma sum_list_upd: "i < length xs \<Longrightarrow> sum_list (xs[i := y]) = sum_list xs - xs ! i + (y::int)"
  by (induction xs arbitrary: i) (simp_all add: nth_Cons split: nat.split)

lemma sum_list_nonpos: "\<forall>i < length xs. xs ! i \<le> 0 \<Longrightarrow> sum_list xs \<le> (0::int)"
  by (induction xs) (fastforce simp: nth_Cons)+

lemma wrr_ok_zero: "wrr_weights w \<Longrightarrow> wrr_ok w (replicate (length w) 0)"
  by (simp add: wrr_ok_def wrr_weights_def sum_list_replicate)

lemma wrr_step_ok:
  assumes w: "wrr_weights w" and ok: "wrr_ok w ws" and st: "wrr_step w ws = (b, ws')"
  shows "b < length w" and "wrr_ok w ws'"
    and "i < length w \<Longrightarrow> ws' ! i = ws ! i + w ! i - (if i = b then sum_list w else 0)"
proof -
  let ?a = "map2 (+) ws w"
  have len: "length ws = length w" using ok by (simp add: wrr_ok_def)
  have ne: "w \<noteq> []" using w by (auto simp: wrr_weights_def)
  then have "ws \<noteq> []" using len by auto
  with ne have b: "b = best_index ?a" "b < length w" and ws': "ws' = ?a[b := ?a ! b - sum_list w]"
    using st len best_index_bound [of ?a] by (auto simp: wrr_step_def Let_def)
  then show "b < length w" by simp
  show nth: "ws' ! i = ws ! i + w ! i - (if i = b then sum_list w else 0)" if "i < length w" for i
    using that len b(2) by (simp add: ws')
  have sum: "sum_list ws' = 0"
    using b(2) len ok
    by (simp add: ws' sum_list_upd sum_list_map2_add wrr_ok_def)
  have "0 < ?a ! b"
  proof (rule ccontr)
    assume "\<not> 0 < ?a ! b"
    then have "\<forall>i < length ?a. ?a ! i \<le> 0"
      using best_index_max [of _ ?a] b(1) by force
    then have "sum_list ?a \<le> 0" by (rule sum_list_nonpos)
    then show False
      using ok w len by (simp add: sum_list_map2_add wrr_ok_def wrr_weights_def)
  qed
  then have "- sum_list w < ws' ! i" if "i < length w" for i
    using that nth [OF that] len b(2) w ok
    by (cases "i = b") (auto simp: wrr_ok_def wrr_weights_def, smt (verit) nth_mem)
  with sum len show "wrr_ok w ws'" by (simp add: wrr_ok_def ws')
qed

lemma wrr_run_ok:
  assumes "wrr_weights w" "wrr_ok w ws" "wrr_run w k ws = (bs, ws')"
  shows "wrr_ok w ws' \<and> length bs = k \<and> set bs \<subseteq> {..<length w} \<and>
    (\<forall>i < length w. ws' ! i = ws ! i + int k * w ! i - sum_list w * int (count_list bs i))"
  using assms(2,3)
proof (induction k arbitrary: ws bs)
  case (Suc k)
  obtain b ws1 where st: "wrr_step w ws = (b, ws1)" by fastforce
  obtain bs' where run: "wrr_run w k ws1 = (bs', ws')" "bs = b # bs'"
    using Suc.prems(2) st by (auto simp: split: prod.splits)
  note s = wrr_step_ok [OF assms(1) Suc.prems(1) st]
  from Suc.IH [OF s(2) run(1)] s(1,3) run(2) show ?case
    by (auto simp: algebra_simps)
qed simp

text \<open>From zero, as many rounds as the weights add up to give every index its weight in turns.\<close>

lemma wrr_period:
  assumes w: "wrr_weights w" and run: "wrr_run w (nat (sum_list w)) (replicate (length w) 0) = (bs, ws')"
  shows "ws' = replicate (length w) 0" and "i < length w \<Longrightarrow> int (count_list bs i) = w ! i"
proof -
  let ?T = "sum_list w"
  have T: "0 < ?T" using w by (simp add: wrr_weights_def)
  note r = wrr_run_ok [OF w wrr_ok_zero [OF w] run]
  have len: "length ws' = length w" using r by (simp add: wrr_ok_def)
  have eq: "ws' ! i = ?T * (w ! i - int (count_list bs i))" if "i < length w" for i
    using r that T by (simp add: algebra_simps)
  have "0 \<le> w ! i - int (count_list bs i)" if "i < length w" for i
  proof -
    have "?T * (- 1) < ?T * (w ! i - int (count_list bs i))"
      using r that eq [OF that] by (auto simp: wrr_ok_def)
    then have "- 1 < w ! i - int (count_list bs i)" using T by (simp only: mult_less_cancel_left_pos)
    then show ?thesis by simp
  qed
  then have "0 \<le> x" if "x \<in> set ws'" for x
    using that eq T len by (auto simp: in_set_conv_nth)
  then have "\<forall>x \<in> set ws'. x = 0"
    using r sum_list_nonneg_eq_0_iff [of ws'] by (simp add: wrr_ok_def)
  then show "ws' = replicate (length w) 0"
    using len by (simp add: replicate_eqI)
  then show "int (count_list bs i) = w ! i" if "i < length w"
    using eq [OF that] that T by simp
qed

text \<open>How large the intermediate values get.\<close>

lemma wrr_ok_upper:
  assumes "wrr_weights w" "wrr_ok w ws" "i < length w"
  shows "ws ! i \<le> (int (length w) - 1) * sum_list w"
proof -
  let ?J = "{..<length ws} - {i}"
  have len: "length ws = length w" using assms(2) by (simp add: wrr_ok_def)
  have "int (card ?J) * (- sum_list w) \<le> (\<Sum>j \<in> ?J. ws ! j)"
    using assms(2) by (intro sum_bounded_below) (auto simp: wrr_ok_def less_imp_le)
  moreover have "ws ! i + (\<Sum>j \<in> ?J. ws ! j) = 0"
    using assms len
    by (simp add: wrr_ok_def sum_list_sum_nth atLeast0LessThan sum.remove [symmetric])
  moreover have "int (card ?J) = int (length w) - 1" using assms(3) len by simp
  ultimately show ?thesis by simp
qed

end
