(* ===== verification/Load_Balancer.thy ===== *)
theory Load_Balancer
  imports Counters IP_Affinity Node_Health Smooth_Weighted
begin

text \<open>
  \<^verbatim>\<open>src/src/concurrency/load_balancer.cpp\<close> and \<^verbatim>\<open>failover_handler.cpp\<close>: which upstream node a client
  is sent to. The tags of the enabled nodes, in the node manager's order, are an argument; so is
  the health checker's state and the measured duration \<open>us\<close> of a decision.
\<close>

section \<open>State\<close>

datatype schedule_strategy = Round_robin | Weighted_round_robin | Least_connections | Lowest_latency

record schedule_result =
  sr_node_tag :: string
  sr_strategy_used :: string
  sr_from_affinity :: bool
  sr_decision_us :: int

record node_load_info =
  nl_tag :: string
  nl_active_connections :: int
  nl_weight :: int
  nl_latency_ms :: int
  nl_available :: bool

record load_balancer =
  lb_rr_index :: "64 word"
  lb_wrr_current_weights :: "int list"
  lb_strategy :: schedule_strategy
  lb_ip_affinity_enabled :: bool
  lb_node_capacity_threshold :: int
  lb_affinity :: affinity_table
  lb_node_connections :: "string \<rightharpoonup> int"
  lb_node_weights :: "string \<rightharpoonup> int"

definition new_load_balancer :: load_balancer where
  "new_load_balancer = \<lparr>lb_rr_index = 0, lb_wrr_current_weights = [], lb_strategy = Round_robin,
     lb_ip_affinity_enabled = True, lb_node_capacity_threshold = 1000,
     lb_affinity = new_affinity_table, lb_node_connections = Map.empty,
     lb_node_weights = Map.empty\<rparr>"

definition lb_init ::
    "schedule_strategy \<Rightarrow> bool \<Rightarrow> int \<Rightarrow> int \<Rightarrow> int \<Rightarrow> load_balancer \<Rightarrow> load_balancer" where
  "lb_init strategy affinity timeout_sec max_records capacity lb =
     lb\<lparr>lb_strategy := strategy, lb_ip_affinity_enabled := affinity,
        lb_node_capacity_threshold := capacity,
        lb_affinity := affinity_init timeout_sec max_records (lb_affinity lb)\<rparr>"

section \<open>Settings and node counters\<close>

definition set_strategy :: "schedule_strategy \<Rightarrow> load_balancer \<Rightarrow> load_balancer" where
  "set_strategy s lb = lb\<lparr>lb_strategy := s\<rparr>"

definition set_ip_affinity_enabled :: "bool \<Rightarrow> load_balancer \<Rightarrow> load_balancer" where
  "set_ip_affinity_enabled b lb = lb\<lparr>lb_ip_affinity_enabled := b\<rparr>"

definition set_node_capacity_threshold :: "int \<Rightarrow> load_balancer \<Rightarrow> load_balancer" where
  "set_node_capacity_threshold n lb = lb\<lparr>lb_node_capacity_threshold := n\<rparr>"

definition set_node_weight :: "string \<Rightarrow> int \<Rightarrow> load_balancer \<Rightarrow> load_balancer \<times> bool" where
  "set_node_weight tag weight lb = (lb\<lparr>lb_node_weights := (lb_node_weights lb)(tag \<mapsto> weight)\<rparr>, True)"

definition inc_node_connections :: "string \<Rightarrow> load_balancer \<Rightarrow> load_balancer" where
  "inc_node_connections tag lb =
     lb\<lparr>lb_node_connections := counter_inc tag (lb_node_connections lb)\<rparr>"

definition dec_node_connections :: "string \<Rightarrow> load_balancer \<Rightarrow> load_balancer" where
  "dec_node_connections tag lb =
     lb\<lparr>lb_node_connections := counter_dec tag (lb_node_connections lb)\<rparr>"

definition get_node_connections :: "string \<Rightarrow> load_balancer \<Rightarrow> int" where
  "get_node_connections tag lb = counter_get tag (lb_node_connections lb)"

definition strategy_from_string :: "string \<Rightarrow> schedule_strategy" where
  "strategy_from_string name =
     (if name = ''weighted_round_robin'' then Weighted_round_robin
      else if name = ''least_connections'' then Least_connections
      else if name = ''lowest_latency'' then Lowest_latency
      else Round_robin)"

fun strategy_to_string :: "schedule_strategy \<Rightarrow> string" where
  "strategy_to_string Round_robin = ''round_robin''"
| "strategy_to_string Weighted_round_robin = ''weighted_round_robin''"
| "strategy_to_string Least_connections = ''least_connections''"
| "strategy_to_string Lowest_latency = ''lowest_latency''"

section \<open>Candidates\<close>

definition candidate ::
    "string list \<Rightarrow> node_health_checker \<Rightarrow> load_balancer \<Rightarrow> string \<Rightarrow> node_load_info option" where
  "candidate exclude_tags hc lb tag =
     (if tag \<in> set exclude_tags then None
      else if health_get_status tag hc = Unavailable then None
      else
        let conns = get_node_connections tag lb
        in if conns \<ge> lb_node_capacity_threshold lb then None
           else Some \<lparr>nl_tag = tag, nl_active_connections = conns,
                      nl_weight = (case lb_node_weights lb tag of None \<Rightarrow> 100 | Some w \<Rightarrow> w),
                      nl_latency_ms = health_get_latency_ms tag hc, nl_available = True\<rparr>)"

definition get_candidates ::
    "string list \<Rightarrow> string list \<Rightarrow> node_health_checker \<Rightarrow> load_balancer \<Rightarrow> node_load_info list" where
  "get_candidates exclude_tags tags hc lb = List.map_filter (candidate exclude_tags hc lb) tags"

section \<open>The four strategies\<close>

definition do_round_robin ::
    "node_load_info list \<Rightarrow> load_balancer \<Rightarrow> string option \<times> load_balancer" where
  "do_round_robin cands lb =
     (Some (nl_tag (cands ! (unat (lb_rr_index lb) mod length cands))),
      lb\<lparr>lb_rr_index := lb_rr_index lb + 1\<rparr>)"

text \<open>\<^verbatim>\<open>vector::resize(n, 0)\<close> cuts the end off or appends zeros.\<close>

definition resize_zero :: "nat \<Rightarrow> int list \<Rightarrow> int list" where
  "resize_zero n ws = take n ws @ replicate (n - length ws) 0"

definition do_weighted_round_robin ::
    "node_load_info list \<Rightarrow> load_balancer \<Rightarrow> string option \<times> load_balancer" where
  "do_weighted_round_robin cands lb =
     (let ws = (if length (lb_wrr_current_weights lb) \<noteq> length cands
                then resize_zero (length cands) (lb_wrr_current_weights lb)
                else lb_wrr_current_weights lb);
          total_weight = fold (\<lambda>c t. to_int32 (t + nl_weight c)) cands 0
      in if total_weight = 0
         then (if cands = [] then None else Some (nl_tag (hd cands)),
               lb\<lparr>lb_wrr_current_weights := ws\<rparr>)
         else
           let ws1 = map2 (\<lambda>w c. to_int32 (w + nl_weight c)) ws cands;
               best = best_index ws1
           in (Some (nl_tag (cands ! best)),
               lb\<lparr>lb_wrr_current_weights := ws1[best := to_int32 (ws1 ! best - total_weight)]\<rparr>))"

text \<open>
  \<^verbatim>\<open>std::min_element\<close> returns the first smallest element; it is called on a non-empty range.
\<close>

fun min_element :: "('a \<Rightarrow> int) \<Rightarrow> 'a list \<Rightarrow> 'a option" where
  "min_element f [] = None"
| "min_element f (x # xs) = Some (foldl (\<lambda>best y. if f y < f best then y else best) x xs)"

definition do_least_connections :: "node_load_info list \<Rightarrow> string option" where
  "do_least_connections cands = map_option nl_tag (min_element nl_active_connections cands)"

definition do_lowest_latency :: "node_load_info list \<Rightarrow> string option" where
  "do_lowest_latency cands =
     (let min_latency = fold (\<lambda>c m. if nl_latency_ms c > 0 \<and> nl_latency_ms c < m
                                    then nl_latency_ms c else m) cands 2147483647;
          low_latency = filter (\<lambda>c. nl_latency_ms c \<le> to_int32 (min_latency + 10)) cands
      in if low_latency = [] then do_least_connections cands else do_least_connections low_latency)"

section \<open>Selection\<close>

definition apply_strategy ::
    "node_load_info list \<Rightarrow> load_balancer \<Rightarrow> string option \<times> load_balancer" where
  "apply_strategy cands lb =
     (case lb_strategy lb of
        Round_robin \<Rightarrow> do_round_robin cands lb
      | Weighted_round_robin \<Rightarrow> do_weighted_round_robin cands lb
      | Least_connections \<Rightarrow> (do_least_connections cands, lb)
      | Lowest_latency \<Rightarrow> (do_lowest_latency cands, lb))"

text \<open>
  Recording the choice in the affinity table, where that is enabled; \<open>None\<close> is the undefined
  behaviour of the table's eviction.
\<close>

definition remember_choice ::
    "time_point \<Rightarrow> string \<Rightarrow> string option \<Rightarrow> load_balancer \<Rightarrow> load_balancer option" where
  "remember_choice now ip selected lb =
     (case selected of
        Some tag \<Rightarrow>
          if lb_ip_affinity_enabled lb
          then map_option (\<lambda>t. lb\<lparr>lb_affinity := t\<rparr>) (affinity_update now ip tag (lb_affinity lb))
          else Some lb
      | None \<Rightarrow> Some lb)"

definition affinity_choice ::
    "time_point \<Rightarrow> node_health_checker \<Rightarrow> string \<Rightarrow> load_balancer \<Rightarrow> string option \<times> load_balancer" where
  "affinity_choice now hc ip lb =
     (if \<not> lb_ip_affinity_enabled lb then (None, lb)
      else
        case affinity_lookup now ip (lb_affinity lb) of
          None \<Rightarrow> (None, lb)
        | Some tag \<Rightarrow>
            if health_get_status tag hc \<noteq> Unavailable
               \<and> get_node_connections tag lb < lb_node_capacity_threshold lb
            then (Some tag, lb)
            else (None, lb\<lparr>lb_affinity := affinity_invalidate ip (lb_affinity lb)\<rparr>))"

definition select_node ::
    "time_point \<Rightarrow> int \<Rightarrow> string list \<Rightarrow> node_health_checker \<Rightarrow> string \<Rightarrow> load_balancer
     \<Rightarrow> (schedule_result option \<times> load_balancer) option" where
  "select_node now us tags hc ip lb =
     (case affinity_choice now hc ip lb of
        (Some tag, lb1) \<Rightarrow>
          Some (Some \<lparr>sr_node_tag = tag, sr_strategy_used = ''ip_affinity'',
                      sr_from_affinity = True, sr_decision_us = us\<rparr>, lb1)
      | (None, lb1) \<Rightarrow>
          let cands = get_candidates [] tags hc lb1
          in if cands = [] then Some (None, lb1)
             else
               let (selected, lb2) = apply_strategy cands lb1
               in map_option
                    (\<lambda>lb3. (Some \<lparr>sr_node_tag = (case selected of None \<Rightarrow> '''' | Some tag \<Rightarrow> tag),
                                  sr_strategy_used = strategy_to_string (lb_strategy lb1),
                                  sr_from_affinity = False, sr_decision_us = us\<rparr>, lb3))
                    (remember_choice now ip selected lb2))"

definition select_fallback_node ::
    "time_point \<Rightarrow> int \<Rightarrow> string list \<Rightarrow> node_health_checker \<Rightarrow> string \<Rightarrow> string list \<Rightarrow> load_balancer
     \<Rightarrow> (schedule_result option \<times> load_balancer) option" where
  "select_fallback_node now us tags hc ip exclude_tags lb =
     (let cands = get_candidates exclude_tags tags hc lb
      in if cands = [] then Some (None, lb)
         else
           let selected = do_least_connections cands
           in map_option
                (\<lambda>lb1. (Some \<lparr>sr_node_tag = (case selected of None \<Rightarrow> '''' | Some tag \<Rightarrow> tag),
                              sr_strategy_used = ''failover'', sr_from_affinity = False,
                              sr_decision_us = us\<rparr>, lb1))
                (remember_choice now ip selected lb))"

section \<open>Failover\<close>

record failover_result =
  fo_node_tag :: string
  fo_retried :: bool
  fo_retry_count :: int

definition MAX_RETRY :: int where
  "MAX_RETRY = 2"

definition on_connection_failed ::
    "time_point \<Rightarrow> int \<Rightarrow> string list \<Rightarrow> string \<Rightarrow> string \<Rightarrow> int \<Rightarrow> node_health_checker \<Rightarrow> load_balancer
     \<Rightarrow> (failover_result option \<times> node_health_checker \<times> load_balancer) option" where
  "on_connection_failed now us tags failed_tag ip retry_count hc lb =
     (if retry_count \<ge> MAX_RETRY then Some (None, hc, lb)
      else
        let hc1 = mark_unavailable failed_tag hc
        in map_option
             (\<lambda>(sched, lb1).
                (map_option (\<lambda>s. \<lparr>fo_node_tag = sr_node_tag s, fo_retried = True,
                                   fo_retry_count = retry_count + 1\<rparr>) sched, hc1, lb1))
             (select_fallback_node now us tags hc1 ip [failed_tag] lb))"

section \<open>Node counters\<close>

interpretation node_counter: counter_table inc_node_connections dec_node_connections
  get_node_connections "\<lambda>lb. counters_pos (lb_node_connections lb)"
  by unfold_locales
    (simp_all add: inc_node_connections_def dec_node_connections_def get_node_connections_def
      counter_get_inc counter_get_dec)

lemma strategy_roundtrip: "strategy_from_string (strategy_to_string s) = s"
  by (cases s) (simp_all add: strategy_from_string_def)

section \<open>Candidates and choices\<close>

definition usable :: "node_health_checker \<Rightarrow> load_balancer \<Rightarrow> string \<Rightarrow> bool" where
  "usable hc lb tag \<longleftrightarrow>
     health_get_status tag hc \<noteq> Unavailable \<and> get_node_connections tag lb < lb_node_capacity_threshold lb"

lemma candidate_usable:
  "candidate exclude hc lb tag = Some c
   \<Longrightarrow> nl_tag c = tag \<and> tag \<notin> set exclude \<and> usable hc lb tag
      \<and> nl_active_connections c = get_node_connections tag lb"
  by (auto simp: candidate_def usable_def Let_def split: if_splits)

lemma candidate_None: "candidate exclude hc lb tag = None \<longleftrightarrow> tag \<in> set exclude \<or> \<not> usable hc lb tag"
  by (auto simp: candidate_def usable_def Let_def)

lemma set_map_filter_Some: "set (List.map_filter f xs) = {y. \<exists>x \<in> set xs. f x = Some y}"
  by (induction xs) (auto simp: map_filter_simps split: option.splits)

lemma candidates_tags:
  "nl_tag ` set (get_candidates exclude tags hc lb)
   = {tag \<in> set tags. tag \<notin> set exclude \<and> usable hc lb tag}"
proof -
  have "tag \<in> nl_tag ` set (get_candidates exclude tags hc lb)
      \<longleftrightarrow> (\<exists>t \<in> set tags. \<exists>c. candidate exclude hc lb t = Some c \<and> nl_tag c = tag)" for tag
    unfolding get_candidates_def set_map_filter_Some by blast
  also have "\<dots> tag \<longleftrightarrow> tag \<in> set tags \<and> candidate exclude hc lb tag \<noteq> None" for tag
    using candidate_usable [of exclude hc lb] by (metis not_Some_eq option.distinct(1))
  finally show ?thesis by (auto simp: candidate_None)
qed

lemma foldl_min_element:
  "foldl (\<lambda>best y. if f y < f best then y else best) x xs \<in> set (x # xs)
   \<and> (\<forall>y \<in> set (x # xs). f (foldl (\<lambda>best y. if f y < f best then y else best) x xs) \<le> (f y :: int))"
proof (induction xs arbitrary: x)
  case (Cons a xs)
  show ?case using Cons [of "if f a < f x then a else x"] by (auto split: if_splits)
qed simp

lemma min_element_Some:
  "min_element f xs = Some c \<Longrightarrow> c \<in> set xs \<and> (\<forall>y \<in> set xs. f c \<le> f y)"
  using foldl_min_element [of f] by (cases xs) auto

lemma min_element_None [simp]: "min_element f xs = None \<longleftrightarrow> xs = []"
  by (cases xs) simp_all

lemma least_connections_least:
  assumes "xs \<noteq> []"
  shows "\<exists>c \<in> set xs. do_least_connections xs = Some (nl_tag c)
    \<and> (\<forall>d \<in> set xs. nl_active_connections c \<le> nl_active_connections d)"
proof -
  obtain c where c: "min_element nl_active_connections xs = Some c"
    using assms by (cases "min_element nl_active_connections xs") simp_all
  from min_element_Some [OF c] c show ?thesis
    by (intro bexI [of _ c]) (simp_all add: do_least_connections_def)
qed

lemma fold_min_positive:
  assumes "x \<in> set xs" "0 < f x" "f x \<le> m0" "\<And>y. y \<in> set xs \<Longrightarrow> 0 < f y \<Longrightarrow> f x \<le> (f y :: int)"
  shows "fold (\<lambda>c m. if 0 < f c \<and> f c < m then f c else m) xs m0 = f x"
proof -
  let ?step = "\<lambda>c m. if 0 < f c \<and> f c < m then f c else m"
  have anti: "fold ?step ys m \<le> m" for ys m
  proof (induction ys arbitrary: m)
    case (Cons y ys)
    show ?case using Cons [of "?step y m"] by (auto split: if_splits)
  qed simp
  have "k \<le> fold ?step ys m"
    if "k \<le> m" "\<And>c. c \<in> set ys \<Longrightarrow> 0 < f c \<Longrightarrow> k \<le> f c" for k m ys
    using that by (induction ys arbitrary: m) auto
  then have "f x \<le> fold ?step xs m0" using assms(3,4) by blast
  moreover have "fold ?step ys m \<le> f x" if "x \<in> set ys" for ys m
    using that
  proof (induction ys arbitrary: m)
    case (Cons y ys)
    show ?case
    proof (cases "x = y")
      case True
      then show ?thesis using anti [of ys "?step y m"] assms(2) by (auto split: if_splits)
    next
      case False
      then show ?thesis using Cons by simp
    qed
  qed simp
  ultimately show ?thesis using assms(1) by (simp add: order_antisym)
qed

lemma length_resize_zero [simp]: "length (resize_zero n ws) = n"
  by (simp add: resize_zero_def)

lemma least_connections_choice:
  "cands \<noteq> [] \<Longrightarrow> \<exists>tag. do_least_connections cands = Some tag \<and> tag \<in> nl_tag ` set cands"
  using min_element_Some [of nl_active_connections cands]
  by (cases "min_element nl_active_connections cands") (auto simp: do_least_connections_def)

lemma apply_strategy_choice:
  assumes "cands \<noteq> []" "apply_strategy cands lb = (selected, lb1)"
  shows "\<exists>tag. selected = Some tag \<and> tag \<in> nl_tag ` set cands"
    and "lb_affinity lb1 = lb_affinity lb" and "lb_node_connections lb1 = lb_node_connections lb"
    and "lb_ip_affinity_enabled lb1 = lb_ip_affinity_enabled lb"
    and "lb_node_capacity_threshold lb1 = lb_node_capacity_threshold lb"
proof -
  have rr: "cands ! (unat (lb_rr_index lb) mod length cands) \<in> set cands"
    using assms(1) by (intro nth_mem mod_less_divisor) simp
  have wrr: "best_index (map2 f ws cands) < length cands" if "length ws = length cands" for f and ws :: "int list"
    using best_index_bound [of "map2 f ws cands"] that assms(1) by (cases ws; cases cands) auto
  let ?low = "\<lambda>m. filter (\<lambda>c. nl_latency_ms c \<le> m) cands"
  have low: "?low m \<noteq> [] \<Longrightarrow> \<exists>tag. do_least_connections (?low m) = Some tag \<and> tag \<in> nl_tag ` set cands" for m
    using least_connections_choice [of "?low m"] by fastforce
  have "(\<exists>tag. selected = Some tag \<and> tag \<in> nl_tag ` set cands)
    \<and> lb_affinity lb1 = lb_affinity lb \<and> lb_node_connections lb1 = lb_node_connections lb
    \<and> lb_ip_affinity_enabled lb1 = lb_ip_affinity_enabled lb
    \<and> lb_node_capacity_threshold lb1 = lb_node_capacity_threshold lb"
  proof (cases "lb_strategy lb")
    case Round_robin
    with assms(2) rr show ?thesis by (auto simp: apply_strategy_def do_round_robin_def)
  next
    case Weighted_round_robin
    with assms wrr show ?thesis
      by (auto simp: apply_strategy_def do_weighted_round_robin_def Let_def split: if_splits)
  next
    case Least_connections
    with assms least_connections_choice show ?thesis by (auto simp: apply_strategy_def)
  next
    case Lowest_latency
    with assms least_connections_choice low show ?thesis
      by (auto simp: apply_strategy_def do_lowest_latency_def Let_def)
  qed
  then show "\<exists>tag. selected = Some tag \<and> tag \<in> nl_tag ` set cands"
    "lb_affinity lb1 = lb_affinity lb" "lb_node_connections lb1 = lb_node_connections lb"
    "lb_ip_affinity_enabled lb1 = lb_ip_affinity_enabled lb"
    "lb_node_capacity_threshold lb1 = lb_node_capacity_threshold lb" by simp_all
qed

lemma remember_choice_ok:
  assumes "affinity_inv (lb_affinity lb)"
  shows "\<exists>lb'. remember_choice now ip (Some tag) lb = Some lb' \<and> affinity_inv (lb_affinity lb')
    \<and> lb_node_connections lb' = lb_node_connections lb
    \<and> (lb_ip_affinity_enabled lb \<longrightarrow>
        affinity_update now ip tag (lb_affinity lb) = Some (lb_affinity lb'))"
  using ip_store.upd_ok [OF assms, of now ip tag] by (auto simp: remember_choice_def assms)

lemma affinity_choice_cases:
  assumes "affinity_choice now hc ip lb = (r, lb1)"
  shows "lb_node_connections lb1 = lb_node_connections lb"
    and "lb_node_capacity_threshold lb1 = lb_node_capacity_threshold lb"
    and "lb_ip_affinity_enabled lb1 = lb_ip_affinity_enabled lb"
    and "r = Some tag \<Longrightarrow> lb1 = lb \<and> usable hc lb tag
      \<and> affinity_lookup now ip (lb_affinity lb) = Some tag"
    and "affinity_inv (lb_affinity lb) \<Longrightarrow> affinity_inv (lb_affinity lb1)"
  using assms
  by (auto simp: affinity_choice_def usable_def affinity_invalidate_inv split: if_splits option.splits)

lemma usable_cong:
  "lb_node_connections lb1 = lb_node_connections lb
   \<Longrightarrow> lb_node_capacity_threshold lb1 = lb_node_capacity_threshold lb \<Longrightarrow> usable hc lb1 = usable hc lb"
  by (rule ext) (simp add: usable_def get_node_connections_def)

section \<open>Consecutive rounds\<close>

fun rounds :: "(load_balancer \<Rightarrow> string option \<times> load_balancer) \<Rightarrow> nat \<Rightarrow> load_balancer
    \<Rightarrow> string option list \<times> load_balancer" where
  "rounds pick 0 lb = ([], lb)"
| "rounds pick (Suc k) lb =
     (let (choice, lb1) = pick lb; (choices, lb2) = rounds pick k lb1 in (choice # choices, lb2))"

lemma round_robin_rounds:
  assumes "unat (lb_rr_index lb) + k \<le> 2 ^ 64"
  shows "fst (rounds (do_round_robin cands) k lb)
    = map (\<lambda>j. Some (nl_tag (cands ! ((unat (lb_rr_index lb) + j) mod length cands)))) [0..<k]"
  using assms
proof (induction k arbitrary: lb)
  case (Suc k)
  let ?lb = "lb\<lparr>lb_rr_index := lb_rr_index lb + 1\<rparr>"
  show ?case
  proof (cases "k = 0")
    case False
    then have "unat (lb_rr_index lb + 1) = unat (lb_rr_index lb) + 1"
      using Suc.prems by (simp add: unat_word_ariths)
    then have "fst (rounds (do_round_robin cands) k ?lb)
        = map (\<lambda>j. Some (nl_tag (cands ! ((unat (lb_rr_index lb) + Suc j) mod length cands)))) [0..<k]"
      using Suc.IH [of ?lb] Suc.prems by simp
    moreover have "do_round_robin cands lb
        = (Some (nl_tag (cands ! (unat (lb_rr_index lb) mod length cands))), ?lb)"
      by (simp add: do_round_robin_def)
    ultimately show ?thesis
      by (simp add: split_def Let_def map_upt_Suc del: upt_Suc)
  qed (simp add: do_round_robin_def)
qed simp

lemma rotation_as_map:
  "map (\<lambda>j. xs ! ((r + j) mod length xs)) [0..<length xs] = rotate r xs"
  by (rule nth_equalityI) (simp_all add: nth_rotate add.commute)

lemma mset_rotate: "mset (rotate r xs) = mset xs"
proof -
  have "mset (take k xs) + mset (drop k xs) = mset xs" for k
    by (metis append_take_drop_id mset_append)
  then show ?thesis by (simp add: rotate_drop_take add.commute)
qed

lemma fold_total_weight:
  assumes "\<forall>c \<in> set cands. 0 \<le> nl_weight c" "0 \<le> t" "t + sum_list (map nl_weight cands) < 2147483648"
  shows "fold (\<lambda>c t. to_int32 (t + nl_weight c)) cands t = t + sum_list (map nl_weight cands)"
  using assms
proof (induction cands arbitrary: t)
  case (Cons c cands)
  have "0 \<le> sum_list (map nl_weight cands)"
    using Cons.prems(1) by (intro sum_list_nonneg) auto
  then have "to_int32 (t + nl_weight c) = t + nl_weight c"
    using Cons.prems by (intro to_int32_id) auto
  then show ?case using Cons by (simp add: add.assoc)
qed simp

text \<open>Without overflow the 32-bit round is the round on integers.\<close>

lemma weighted_round_eq:
  assumes w: "wrr_weights (map nl_weight cands)" and ok: "wrr_ok (map nl_weight cands) (lb_wrr_current_weights lb)"
    and fit: "int (length cands) * sum_list (map nl_weight cands) < 2147483648"
    and st: "wrr_step (map nl_weight cands) (lb_wrr_current_weights lb) = (b, ws')"
  shows "do_weighted_round_robin cands lb
    = (Some (nl_tag (cands ! b)), lb\<lparr>lb_wrr_current_weights := ws'\<rparr>)"
proof -
  let ?w = "map nl_weight cands" and ?ws = "lb_wrr_current_weights lb"
  let ?T = "sum_list ?w"
  have len: "length ?ws = length cands" using ok by (simp add: wrr_ok_def)
  have T: "0 < ?T" using w by (simp add: wrr_weights_def)
  have n: "1 \<le> int (length cands)" using T by (cases cands) auto
  have small: "?T < 2147483648"
  proof -
    have "1 * ?T \<le> int (length cands) * ?T" using n T by (intro mult_right_mono) auto
    with fit show ?thesis by simp
  qed
  have total: "fold (\<lambda>c t. to_int32 (t + nl_weight c)) cands 0 = ?T"
    using fold_total_weight [of cands 0] w small by (auto simp: wrr_weights_def)
  have entry: "0 \<le> ?w ! i" "?w ! i \<le> ?T" "- ?T < ?ws ! i" "?ws ! i \<le> (int (length cands) - 1) * ?T"
    if "i < length cands" for i
    using that w ok len wrr_ok_upper [OF w ok, of i] member_le_sum_list [of "?w ! i" ?w]
    by (auto simp: wrr_weights_def wrr_ok_def)
  have exact: "to_int32 (?ws ! i + nl_weight (cands ! i)) = ?ws ! i + nl_weight (cands ! i)"
    if "i < length cands" for i
    using entry [OF that] that small fit by (intro to_int32_id) (auto simp: algebra_simps)
  have add: "map2 (\<lambda>w c. to_int32 (w + nl_weight c)) ?ws cands = map2 (+) ?ws ?w"
    by (rule nth_equalityI) (use len exact in simp_all)
  let ?a = "map2 (+) ?ws ?w"
  have b: "b = best_index ?a" "ws' = ?a[b := ?a ! b - ?T]"
    using st by (auto simp: wrr_step_def Let_def)
  have blt: "b < length cands" using wrr_step_ok(1) [OF w ok st] by simp
  have "- ?T < ws' ! b" "ws' ! b = ?a ! b - ?T"
    using wrr_step_ok(2) [OF w ok st] blt len by (auto simp: wrr_ok_def b(2))
  then have "to_int32 (?a ! b - ?T) = ?a ! b - ?T"
    using entry [OF blt] blt len small fit by (intro to_int32_id) (auto simp: algebra_simps)
  with b add total T len show ?thesis by (simp add: do_weighted_round_robin_def Let_def)
qed

lemma weighted_rounds_eq:
  assumes w: "wrr_weights (map nl_weight cands)"
    and fit: "int (length cands) * sum_list (map nl_weight cands) < 2147483648"
    and ok: "wrr_ok (map nl_weight cands) (lb_wrr_current_weights lb)"
    and run: "wrr_run (map nl_weight cands) k (lb_wrr_current_weights lb) = (bs, ws')"
  shows "rounds (do_weighted_round_robin cands) k lb
    = (map (\<lambda>b. Some (nl_tag (cands ! b))) bs, lb\<lparr>lb_wrr_current_weights := ws'\<rparr>)"
  using ok run
proof (induction k arbitrary: lb bs)
  case (Suc k)
  obtain b ws1 where st: "wrr_step (map nl_weight cands) (lb_wrr_current_weights lb) = (b, ws1)"
    by fastforce
  let ?lb = "lb\<lparr>lb_wrr_current_weights := ws1\<rparr>"
  obtain bs' where run: "wrr_run (map nl_weight cands) k ws1 = (bs', ws')" "bs = b # bs'"
    using Suc.prems(2) st by (auto split: prod.splits)
  have "wrr_ok (map nl_weight cands) (lb_wrr_current_weights ?lb)"
    using wrr_step_ok(2) [OF w Suc.prems(1) st] by simp
  from Suc.IH [OF this, of bs'] weighted_round_eq [OF w Suc.prems(1) fit st] run
  show ?case by simp
qed simp

lemma resize_self: "ws = replicate n 0 \<or> ws = [] \<Longrightarrow> (if length ws \<noteq> n then resize_zero n ws else ws) = replicate n 0"
  by (auto simp: resize_zero_def)

section \<open>Failover steps\<close>

lemma failover_step:
  assumes "affinity_inv (lb_affinity lb)"
    and "on_connection_failed now us tags failed ip n hc lb = Some (Some r, hc', lb')"
  shows "n < MAX_RETRY" and "fo_retry_count r = n + 1" and "health_get_status failed hc' = Unavailable"
    and "hc' = mark_unavailable failed hc" and "affinity_inv (lb_affinity lb')"
    and "usable hc' lb (fo_node_tag r)" and "fo_node_tag r \<in> set tags" and "fo_node_tag r \<noteq> failed"
proof -
  let ?hc = "mark_unavailable failed hc"
  let ?cands = "get_candidates [failed] tags ?hc lb"
  have n: "n < MAX_RETRY" and hc': "hc' = ?hc" and ne: "?cands \<noteq> []"
    using assms(2) by (auto simp: on_connection_failed_def select_fallback_node_def Let_def split: if_splits)
  obtain tag where tag: "do_least_connections ?cands = Some tag" "tag \<in> nl_tag ` set ?cands"
    using least_connections_choice [OF ne] by blast
  obtain lb1 where rem: "remember_choice now ip (Some tag) lb = Some lb1" "affinity_inv (lb_affinity lb1)"
    using remember_choice_ok [OF assms(1)] by blast
  have r: "fo_node_tag r = tag" "fo_retry_count r = n + 1" "lb' = lb1"
    using assms(2) n ne tag(1) rem(1)
    by (auto simp: on_connection_failed_def select_fallback_node_def Let_def)
  show "n < MAX_RETRY" "fo_retry_count r = n + 1" "hc' = ?hc" "affinity_inv (lb_affinity lb')"
    using n r rem(2) hc' by simp_all
  show "health_get_status failed hc' = Unavailable"
    by (simp add: hc' health_get_status_def mark_unavailable_def health_put_def)
  show "usable hc' lb (fo_node_tag r)" "fo_node_tag r \<in> set tags" "fo_node_tag r \<noteq> failed"
    using tag(2) r(1) by (simp_all add: candidates_tags hc')
qed

section \<open>Concrete balancers\<close>

lemmas lb_eval = select_node_def affinity_choice_def affinity_lookup_def affinity_find_def
  get_candidates_def candidate_def apply_strategy_def do_round_robin_def remember_choice_def
  affinity_update_def affinity_evict.simps affinity_push_def new_load_balancer_def
  new_affinity_table_def new_health_checker_def health_get_status_def health_get_latency_ms_def
  get_node_connections_def counter_get_def map_filter_simps usable_def on_connection_failed_def
  select_fallback_node_def MAX_RETRY_def do_least_connections_def mark_unavailable_def
  health_put_def health_entry_def new_health_info_def

lemma new_lb_inv: "affinity_inv (lb_affinity new_load_balancer)"
  using affinity_inv_init [of 10000 300]
  by (simp add: affinity_tight_def new_load_balancer_def affinity_init_def new_affinity_table_def)

definition sample_load :: "string \<Rightarrow> int \<Rightarrow> int \<Rightarrow> node_load_info" where
  "sample_load tag conns latency = \<lparr>nl_tag = tag, nl_active_connections = conns, nl_weight = 100,
     nl_latency_ms = latency, nl_available = True\<rparr>"

section \<open>Properties\<close>



text \<open>
  an address that has been given a node keeps it: any later selection within the affinity
  time-out of the first answers the same node from the table, whatever the strategy and the list of
  enabled nodes are by then, as long as that node is not unavailable and below capacity.
\<close>

theorem selection_is_sticky:
  assumes "affinity_inv (lb_affinity lb)" "lb_ip_affinity_enabled lb"
    and "select_node now us tags hc ip lb = Some (Some r, lb1)" "\<not> sr_from_affinity r"
    and "lb_affinity lb2 = lb_affinity lb1" "lb_ip_affinity_enabled lb2"
    and "usable hc2 lb2 (sr_node_tag r)"
    and "secs_between now2 now \<le> at_timeout_sec (lb_affinity lb)"
  shows "select_node now2 us2 tags2 hc2 ip lb2
    = Some (Some \<lparr>sr_node_tag = sr_node_tag r, sr_strategy_used = ''ip_affinity'',
                  sr_from_affinity = True, sr_decision_us = us2\<rparr>, lb2)"
proof -
  obtain aff lb0 where aff: "affinity_choice now hc ip lb = (aff, lb0)" by fastforce
  note a = affinity_choice_cases [OF aff]
  have None: "aff = None" using assms(3,4) aff by (cases aff) (auto simp: select_node_def)
  let ?cands = "get_candidates [] tags hc lb0"
  have ne: "?cands \<noteq> []" using assms(3) aff None by (auto simp: select_node_def)
  obtain selected lb' where st: "apply_strategy ?cands lb0 = (selected, lb')" by fastforce
  note c = apply_strategy_choice [OF ne st]
  obtain tag where tag: "selected = Some tag" using c(1) by blast
  obtain lb3 where rem: "remember_choice now ip (Some tag) lb' = Some lb3"
    "affinity_update now ip tag (lb_affinity lb') = Some (lb_affinity lb3)"
    using remember_choice_ok [of lb' now ip tag] c(2,4) a(3) a(5) [OF assms(1)] assms(2) by auto
  then have "sr_node_tag r = tag" "lb1 = lb3"
    using assms(3) aff None ne st tag by (auto simp: select_node_def)
  moreover have "at_timeout_sec (lb_affinity lb') = at_timeout_sec (lb_affinity lb)"
    using aff c(2) by (auto simp: affinity_choice_def split: if_splits option.splits)
  moreover have "affinity_inv (lb_affinity lb')" using a(5) [OF assms(1)] c(2) by simp
  ultimately have "affinity_lookup now2 ip (lb_affinity lb2) = Some (sr_node_tag r)"
    using ip_store.look_upd [OF _ rem(2), of now2] assms(5,8) by simp
  with assms(6,7) show ?thesis by (simp add: select_node_def affinity_choice_def usable_def)
qed

theorem selection_is_sticky_witness:
  "\<exists>r lb1. select_node 0 0 [''n''] new_health_checker ''ip'' new_load_balancer = Some (Some r, lb1)
    \<and> select_node 9 5 [] new_health_checker ''ip'' lb1
      = Some (Some \<lparr>sr_node_tag = ''n'', sr_strategy_used = ''ip_affinity'', sr_from_affinity = True,
                    sr_decision_us = 5\<rparr>, lb1)"
proof -
  let ?first = "select_node 0 0 [''n''] new_health_checker ''ip'' new_load_balancer"
  obtain r lb1 where first: "?first = Some (Some r, lb1)" "sr_node_tag r = ''n''" "\<not> sr_from_affinity r"
    "lb_ip_affinity_enabled lb1" "usable new_health_checker lb1 ''n''"
    by (simp add: lb_eval)
  then have "select_node 9 5 [] new_health_checker ''ip'' lb1
      = Some (Some \<lparr>sr_node_tag = sr_node_tag r, sr_strategy_used = ''ip_affinity'',
                    sr_from_affinity = True, sr_decision_us = 5\<rparr>, lb1)"
    by (intro selection_is_sticky [OF new_lb_inv _ first(1)])
      (simp_all add: new_load_balancer_def new_affinity_table_def secs_between_def ns_per_sec_def
        signed_divide_int_def)
  with first show ?thesis by auto
qed

text \<open>
  least-connections answers a candidate with the fewest connections; lowest-latency answers a
  least loaded one among the candidates within ten milliseconds of the smallest measured latency
  (candidates without a measurement count as that fast).
\<close>

theorem load_strategies_minimal:
  assumes "cands \<noteq> []" "c0 \<in> set cands" "0 < nl_latency_ms c0" "nl_latency_ms c0 < 2147483637"
    and "\<forall>c \<in> set cands. 0 < nl_latency_ms c \<longrightarrow> nl_latency_ms c0 \<le> nl_latency_ms c"
  shows "(\<exists>c \<in> set cands. do_least_connections cands = Some (nl_tag c)
      \<and> (\<forall>d \<in> set cands. nl_active_connections c \<le> nl_active_connections d))
    \<and> (\<exists>c \<in> set cands. do_lowest_latency cands = Some (nl_tag c) \<and> nl_latency_ms c \<le> nl_latency_ms c0 + 10
      \<and> (\<forall>d \<in> set cands. nl_latency_ms d \<le> nl_latency_ms c0 + 10
            \<longrightarrow> nl_active_connections c \<le> nl_active_connections d))"
proof -
  have min: "fold (\<lambda>c m. if 0 < nl_latency_ms c \<and> nl_latency_ms c < m then nl_latency_ms c else m)
      cands 2147483647 = nl_latency_ms c0"
    using assms(2-5) by (intro fold_min_positive) auto
  have wrap: "to_int32 (nl_latency_ms c0 + 10) = nl_latency_ms c0 + 10"
    using assms(3,4) by (intro to_int32_id) simp_all
  let ?low = "filter (\<lambda>c. nl_latency_ms c \<le> nl_latency_ms c0 + 10) cands"
  have "?low \<noteq> []" using assms(2) by (auto simp: filter_empty_conv intro!: bexI [of _ c0])
  then have "do_lowest_latency cands = do_least_connections ?low"
    by (simp add: do_lowest_latency_def min wrap Let_def)
  moreover obtain c where "c \<in> set ?low" "do_least_connections ?low = Some (nl_tag c)"
      "\<forall>d \<in> set ?low. nl_active_connections c \<le> nl_active_connections d"
    using least_connections_least [OF \<open>?low \<noteq> []\<close>] by blast
  ultimately have "\<exists>c \<in> set cands. do_lowest_latency cands = Some (nl_tag c)
      \<and> nl_latency_ms c \<le> nl_latency_ms c0 + 10
      \<and> (\<forall>d \<in> set cands. nl_latency_ms d \<le> nl_latency_ms c0 + 10
            \<longrightarrow> nl_active_connections c \<le> nl_active_connections d)"
    by (intro bexI [of _ c]) simp_all
  with least_connections_least [OF assms(1)] show ?thesis by blast
qed

theorem load_strategies_minimal_witness:
  "\<exists>c \<in> set [sample_load ''a'' 7 20, sample_load ''b'' 3 28, sample_load ''c'' 0 90].
     do_lowest_latency [sample_load ''a'' 7 20, sample_load ''b'' 3 28, sample_load ''c'' 0 90]
       = Some (nl_tag c) \<and> nl_latency_ms c \<le> 30"
  using load_strategies_minimal [of "[sample_load ''a'' 7 20, sample_load ''b'' 3 28, sample_load ''c'' 0 90]"
      "sample_load ''a'' 7 20"]
  by (simp add: sample_load_def)

text \<open>
  round robin is fair: as many consecutive choices as there are candidates take every one of
  them once, from wherever the 64-bit counter stands (short of its wrap-around).
\<close>

theorem round_robin_fair:
  assumes "unat (lb_rr_index lb) + length cands \<le> 2 ^ 64"
  shows "mset (fst (rounds (do_round_robin cands) (length cands) lb)) = mset (map (Some \<circ> nl_tag) cands)"
proof -
  have "fst (rounds (do_round_robin cands) (length cands) lb)
      = map (Some \<circ> nl_tag) (rotate (unat (lb_rr_index lb)) cands)"
    unfolding round_robin_rounds [OF assms] rotation_as_map [symmetric] by simp
  then show ?thesis by (simp add: mset_rotate)
qed

theorem round_robin_fair_witness:
  "mset (fst (rounds (do_round_robin [\<lparr>nl_tag = ''a'', nl_active_connections = 0, nl_weight = 100,
       nl_latency_ms = 0, nl_available = True\<rparr>]) 1 new_load_balancer)) = {#Some ''a''#}"
  using round_robin_fair [of new_load_balancer "[\<lparr>nl_tag = ''a'', nl_active_connections = 0,
      nl_weight = 100, nl_latency_ms = 0, nl_available = True\<rparr>]"]
  by (simp add: new_load_balancer_def)

text \<open>
  C12: Weighted round robin is exact. For candidates with distinct tags and weights of at least zero, not
  all zero, whose number times the sum of their weights stays below 2 to the 31, and starting from fresh
  weights: the 32-bit code makes the choices and reaches the current weights of the same algorithm on
  unbounded integers, for any number of rounds; within as many choices as the weights add up to, every
  candidate is chosen exactly as often as its weight says; and the balancer is then as it was.
\<close>

theorem weighted_round_robin_exact:
  assumes "distinct (map nl_tag cands)" "\<forall>c \<in> set cands. 0 \<le> nl_weight c"
    and "0 < sum_list (map nl_weight cands)"
    and "int (length cands) * sum_list (map nl_weight cands) < 2147483648"
    and "lb_wrr_current_weights lb = replicate (length cands) 0" "c \<in> set cands"
  shows "rounds (do_weighted_round_robin cands) k lb
      = (let (bs, ws) = wrr_run (map nl_weight cands) k (replicate (length cands) 0)
         in (map (\<lambda>b. Some (nl_tag (cands ! b))) bs, lb\<lparr>lb_wrr_current_weights := ws\<rparr>))
    \<and> int (count_list (fst (rounds (do_weighted_round_robin cands)
        (nat (sum_list (map nl_weight cands))) lb)) (Some (nl_tag c))) = nl_weight c
    \<and> snd (rounds (do_weighted_round_robin cands) (nat (sum_list (map nl_weight cands))) lb) = lb"
proof -
  let ?w = "map nl_weight cands"
  have w: "wrr_weights ?w" using assms(2,3) by (auto simp: wrr_weights_def)
  have ok: "wrr_ok ?w (lb_wrr_current_weights lb)" using wrr_ok_zero [OF w] assms(5) by simp
  note same = weighted_rounds_eq [OF w assms(4) ok]
  have unbounded: "rounds (do_weighted_round_robin cands) k lb
      = (let (bs, ws) = wrr_run ?w k (replicate (length cands) 0)
         in (map (\<lambda>b. Some (nl_tag (cands ! b))) bs, lb\<lparr>lb_wrr_current_weights := ws\<rparr>))"
    using same [of k] assms(5) by (simp add: split_beta Let_def)
  obtain bs ws' where run: "wrr_run ?w (nat (sum_list ?w)) (lb_wrr_current_weights lb) = (bs, ws')"
    by fastforce
  note rs = same [OF run]
  have zero: "lb_wrr_current_weights lb = replicate (length ?w) 0" using assms(5) by simp
  note per = wrr_period [OF w run [unfolded zero]]
  have idx: "set bs \<subseteq> {..<length cands}" using wrr_run_ok [OF w ok run] by simp
  obtain i where i: "i < length cands" "cands ! i = c" using assms(6) by (auto simp: in_set_conv_nth)
  have "nl_tag (cands ! b) = nl_tag c \<longleftrightarrow> b = i" if "b < length cands" for b
    using assms(1) i that by (auto simp: distinct_conv_nth)
  then have "count_list (map (\<lambda>b. Some (nl_tag (cands ! b))) bs) (Some (nl_tag c)) = count_list bs i"
    using idx by (induction bs) auto
  then show ?thesis
    using unbounded per(1) per(2) [of i] i assms(5) by (simp add: rs)
qed

theorem weighted_round_robin_exact_witness:
  "int (count_list (fst (rounds (do_weighted_round_robin
      [\<lparr>nl_tag = ''a'', nl_active_connections = 0, nl_weight = 2, nl_latency_ms = 0, nl_available = True\<rparr>,
       \<lparr>nl_tag = ''b'', nl_active_connections = 0, nl_weight = 1, nl_latency_ms = 0, nl_available = True\<rparr>])
      3 (new_load_balancer\<lparr>lb_wrr_current_weights := [0, 0]\<rparr>))) (Some ''a'')) = 2"
  using conjunct1 [OF conjunct2 [OF weighted_round_robin_exact [of
      "[\<lparr>nl_tag = ''a'', nl_active_connections = 0, nl_weight = 2, nl_latency_ms = 0, nl_available = True\<rparr>,
       \<lparr>nl_tag = ''b'', nl_active_connections = 0, nl_weight = 1, nl_latency_ms = 0, nl_available = True\<rparr>]"
      "new_load_balancer\<lparr>lb_wrr_current_weights := [0, 0]\<rparr>"
      "\<lparr>nl_tag = ''a'', nl_active_connections = 0, nl_weight = 2, nl_latency_ms = 0, nl_available = True\<rparr>"]]]
  by simp

text \<open>
  a connection is moved to another node at most twice, and never back: with the affinity table
  well formed, each failure answers a usable enabled node other than every node of the chain that
  failed before, and the third failure answers none.
\<close>

theorem failover_never_returns:
  assumes "affinity_inv (lb_affinity lb)"
    and "on_connection_failed now us tags t0 ip 0 hc lb = Some (Some r1, hc1, lb1)"
    and "on_connection_failed now' us' tags' (fo_node_tag r1) ip (fo_retry_count r1) hc1 lb1
      = Some (Some r2, hc2, lb2)"
  shows "fo_node_tag r1 \<in> set tags \<and> fo_node_tag r1 \<noteq> t0
    \<and> fo_node_tag r2 \<in> set tags' \<and> fo_node_tag r2 \<noteq> fo_node_tag r1 \<and> fo_node_tag r2 \<noteq> t0
    \<and> on_connection_failed now3 us3 tags3 (fo_node_tag r2) ip (fo_retry_count r2) hc2 lb2
      = Some (None, hc2, lb2)"
proof -
  note s1 = failover_step [OF assms(1,2)]
  note s2 = failover_step [OF s1(5) assms(3)]
  have "health_get_status t0 hc2 = Unavailable"
    using s1(3) s2(4) by (simp add: health_get_status_def mark_unavailable_def health_put_def)
  then have "fo_node_tag r2 \<noteq> t0" using s2(6) by (auto simp: usable_def)
  with s1 s2 show ?thesis by (simp add: on_connection_failed_def MAX_RETRY_def)
qed

theorem failover_never_returns_witness:
  "\<exists>r1 hc1 lb1 r2 hc2 lb2.
    on_connection_failed 0 0 [''a'', ''b'', ''c''] ''a'' ''ip'' 0 new_health_checker new_load_balancer
      = Some (Some r1, hc1, lb1)
    \<and> on_connection_failed 0 0 [''a'', ''b'', ''c''] (fo_node_tag r1) ''ip'' (fo_retry_count r1) hc1 lb1
      = Some (Some r2, hc2, lb2)
    \<and> fo_node_tag r2 \<noteq> ''a''"
proof -
  obtain r1 hc1 lb1 where one:
    "on_connection_failed 0 0 [''a'', ''b'', ''c''] ''a'' ''ip'' 0 new_health_checker new_load_balancer
      = Some (Some r1, hc1, lb1)" "fo_node_tag r1 = ''b''" "fo_retry_count r1 = 1"
    "hc1 = mark_unavailable ''a'' new_health_checker" "lb_node_connections lb1 = Map.empty"
    "lb_node_capacity_threshold lb1 = 1000" "lb_node_weights lb1 = Map.empty"
    by (simp add: lb_eval)
  have inv: "affinity_inv (lb_affinity lb1)" using failover_step(5) [OF new_lb_inv one(1)] .
  obtain lb2 where "remember_choice 0 ''ip'' (Some ''c'') lb1 = Some lb2"
    using remember_choice_ok [OF inv] by blast
  with one have two: "on_connection_failed 0 0 [''a'', ''b'', ''c''] (fo_node_tag r1) ''ip''
      (fo_retry_count r1) hc1 lb1
    = Some (Some \<lparr>fo_node_tag = ''c'', fo_retried = True, fo_retry_count = 2\<rparr>,
            mark_unavailable ''b'' hc1, lb2)"
    by (simp add: lb_eval)
  from failover_never_returns [OF new_lb_inv one(1) two] one(1) two show ?thesis by blast
qed

end
