(* ===== verification/Cpp_Strings.thy ===== *)
theory Cpp_Strings
  imports Prelude "HOL-Library.Sublist"
begin

text \<open>
  The operations of \<^verbatim>\<open>std::string\<close> and \<^verbatim>\<open>std::string_view\<close> the gateway parses with (\<^verbatim>\<open>find\<close>,
  \<^verbatim>\<open>rfind\<close>, \<^verbatim>\<open>substr\<close>, \<^verbatim>\<open>stoi\<close>) and the base64 routines of \<^verbatim>\<open>jwt_util.cpp\<close> and \<^verbatim>\<open>session.cpp\<close>, with the
  proof that decoding inverts encoding. \<open>None\<close> is \<^verbatim>\<open>npos\<close>, or an exception where that is said.
\<close>

section \<open>Searching\<close>

fun index_of :: "'a \<Rightarrow> 'a list \<Rightarrow> nat option" where
  "index_of c [] = None"
| "index_of c (x # xs) = (if x = c then Some 0 else map_option Suc (index_of c xs))"

definition find_char :: "'a \<Rightarrow> nat \<Rightarrow> 'a list \<Rightarrow> nat option" where
  "find_char c start s = map_option (\<lambda>i. i + start) (index_of c (drop start s))"

definition rfind_char :: "'a \<Rightarrow> 'a list \<Rightarrow> nat option" where
  "rfind_char c s = map_option (\<lambda>i. length s - 1 - i) (index_of c (rev s))"

fun index_of_sub :: "'a list \<Rightarrow> 'a list \<Rightarrow> nat option" where
  "index_of_sub p [] = (if p = [] then Some 0 else None)"
| "index_of_sub p (x # xs) =
     (if take (length p) (x # xs) = p then Some 0 else map_option Suc (index_of_sub p xs))"

definition find_sub :: "'a list \<Rightarrow> nat \<Rightarrow> 'a list \<Rightarrow> nat option" where
  "find_sub p start s =
     (if start > length s then None else map_option (\<lambda>i. i + start) (index_of_sub p (drop start s)))"

text \<open>\<^verbatim>\<open>substr(pos, n)\<close> with \<open>pos\<close> inside the string.\<close>

definition substr :: "nat \<Rightarrow> nat \<Rightarrow> 'a list \<Rightarrow> 'a list" where
  "substr pos n s = take n (drop pos s)"

lemma index_of_None: "index_of c s = None \<longleftrightarrow> c \<notin> set s"
  by (induction s) auto

lemma index_of_Some:
  "index_of c s = Some i \<longleftrightarrow> i < length s \<and> s ! i = c \<and> (\<forall>j < i. s ! j \<noteq> c)"
proof (induction s arbitrary: i)
  case (Cons x s)
  show ?case
  proof (cases i)
    case 0
    then show ?thesis by auto
  next
    case (Suc k)
    have "(\<forall>j < Suc k. (x # s) ! j \<noteq> c) \<longleftrightarrow> x \<noteq> c \<and> (\<forall>j < k. s ! j \<noteq> c)"
      by (auto simp: less_Suc_eq_0_disj)
    with Suc Cons show ?thesis by auto
  qed
qed simp

lemma index_of_append:
  "c \<notin> set xs \<Longrightarrow> index_of c (xs @ c # ys) = Some (length xs)"
  by (induction xs) auto

section \<open>Numbers\<close>

definition is_digit :: "char \<Rightarrow> bool" where
  "is_digit c \<longleftrightarrow> 48 \<le> (of_char c :: nat) \<and> (of_char c :: nat) \<le> 57"

definition is_space :: "char \<Rightarrow> bool" where
  "is_space c \<longleftrightarrow> (of_char c :: nat) = 32 \<or> (9 \<le> (of_char c :: nat) \<and> (of_char c :: nat) \<le> 13)"

definition digits_value :: "string \<Rightarrow> int" where
  "digits_value ds = foldl (\<lambda>v c. v * 10 + (of_char c - 48)) 0 ds"

text \<open>
  \<^verbatim>\<open>std::stoi\<close>: white space, a sign, digits; the rest is ignored. \<open>None\<close> is the exception it throws
  when there is no digit or the number does not fit 32 bits.
\<close>

definition stoi :: "string \<Rightarrow> int option" where
  "stoi s =
     (let s1 = dropWhile is_space s;
          neg = (s1 \<noteq> [] \<and> hd s1 = CHR ''-'');
          s2 = (if s1 \<noteq> [] \<and> (hd s1 = CHR ''-'' \<or> hd s1 = CHR ''+'') then tl s1 else s1);
          ds = takeWhile is_digit s2;
          v = (if neg then - digits_value ds else digits_value ds)
      in if ds = [] \<or> v < -2147483648 \<or> v > 2147483647 then None else Some v)"

section \<open>Base64\<close>

definition base64_table :: string where
  "base64_table = ''ABCDEFGHIJKLMNOPQRSTUVWXYZabcdefghijklmnopqrstuvwxyz0123456789+/''"

text \<open>A round of the encoder's loop takes up to three bytes; the padding it pushes is popped at the end.\<close>

definition sextet_char :: "int \<Rightarrow> char" where
  "sextet_char n = base64_table ! nat (n mod 64)"

fun encode_groups :: "string \<Rightarrow> string" where
  "encode_groups [] = []"
| "encode_groups [a] =
     (let n = of_char a * 65536 :: int
      in [sextet_char (n div 262144), sextet_char (n div 4096), CHR ''='', CHR ''=''])"
| "encode_groups [a, b] =
     (let n = of_char a * 65536 + of_char b * 256 :: int
      in [sextet_char (n div 262144), sextet_char (n div 4096), sextet_char (n div 64), CHR ''=''])"
| "encode_groups (a # b # c # s) =
     (let n = of_char a * 65536 + of_char b * 256 + of_char c :: int
      in [sextet_char (n div 262144), sextet_char (n div 4096), sextet_char (n div 64), sextet_char n]
         @ encode_groups s)"

definition strip_padding :: "string \<Rightarrow> string" where
  "strip_padding s = rev (dropWhile (\<lambda>c. c = CHR ''='') (rev s))"

definition base64_encode :: "string \<Rightarrow> string" where
  "base64_encode s = strip_padding (encode_groups s)"

text \<open>
  The decoder's loop: the accumulator is a 32-bit \<^verbatim>\<open>int\<close> whose high bits overflow away, a byte is
  pushed whenever eight bits are there.
\<close>

definition base64_feed :: "int \<Rightarrow> int \<times> int \<times> string \<Rightarrow> int \<times> int \<times> string" where
  "base64_feed idx st =
     (case st of (val, valb, out) \<Rightarrow>
        let val1 = to_int32 (val * 64 + idx); valb1 = valb + 6
        in if valb1 \<ge> 0
           then (val1, valb1 - 8, out @ [char_of ((val1 div 2 ^ nat valb1) mod 256)])
           else (val1, valb1, out))"

definition base64_run :: "int list \<Rightarrow> string" where
  "base64_run idxs = snd (snd (fold base64_feed idxs (0, -8, [])))"

text \<open>The table of \<^verbatim>\<open>session.cpp\<close>: the first character outside it ends the loop.\<close>

definition basic_index :: "char \<Rightarrow> int option" where
  "basic_index c = map_option int (index_of c base64_table)"

definition basic_decode :: "string \<Rightarrow> string" where
  "basic_decode s = base64_run (map (the \<circ> basic_index) (takeWhile (\<lambda>c. basic_index c \<noteq> None) s))"

text \<open>The table of \<^verbatim>\<open>jwt_util.cpp\<close> also knows the URL alphabet; other characters are skipped.\<close>

definition jwt_index :: "char \<Rightarrow> int option" where
  "jwt_index c = (if c = CHR ''-'' then Some 62 else if c = CHR ''_'' then Some 63 else basic_index c)"

definition jwt_base64_decode :: "string \<Rightarrow> string" where
  "jwt_base64_decode s = base64_run (List.map_filter jwt_index s)"

section \<open>Decoding inverts encoding\<close>

lemma to_int32_mod:
  assumes "m dvd 4294967296"
  shows "to_int32 x mod m = x mod m"
proof -
  have "(x + 2147483648) mod 4294967296
      = x + 2147483648 - 4294967296 * ((x + 2147483648) div 4294967296)"
    by (simp add: minus_mult_div_eq_mod)
  then have "to_int32 x - x = 4294967296 * (- ((x + 2147483648) div 4294967296))"
    by (simp add: to_int32_def)
  then have "4294967296 dvd to_int32 x - x" by (rule dvdI)
  with assms have "m dvd to_int32 x - x" by (rule dvd_trans)
  then show ?thesis by (simp add: mod_eq_dvd_iff)
qed

lemma div_pow_mod_256: "((v::int) div 2 ^ k) mod 256 = (v mod (2 ^ k * 256)) div 2 ^ k"
proof -
  have "v mod (2 ^ k * 256) = 2 ^ k * (v div 2 ^ k mod 256) + v mod 2 ^ k"
    by (rule zmod_zmult2_eq) simp
  then show ?thesis by simp
qed

lemma shift_mod:
  assumes "0 \<le> s" "s < 64" "0 < (m::int)"
  shows "(v * 64 + s) mod (64 * m) = (v mod m) * 64 + s"
proof -
  have "(v * 64 + s) mod (64 * m) = 64 * ((v * 64 + s) div 64 mod m) + (v * 64 + s) mod 64"
    using assms(3) by (intro zmod_zmult2_eq) simp
  with assms(1,2) show ?thesis by simp
qed

lemma shift_in_mod:
  assumes "0 \<le> s" "s < 64" "v mod m = r" "0 < m" "m * 64 dvd 4294967296"
  shows "to_int32 (v * 64 + s) mod (m * 64) = r * 64 + s"
proof -
  have "to_int32 (v * 64 + s) mod (m * 64) = (v * 64 + s) mod (64 * m)"
    using to_int32_mod [OF assms(5)] by (simp add: mult.commute)
  with assms(1-4) show ?thesis by (simp add: shift_mod)
qed

lemma quarter: "(x * 64 + y) div 4 = x * 16 + (y::int) div 4"
proof -
  have "x * 64 + y = 4 * (x * 16) + y" by simp
  then show ?thesis by (metis add.commute div_mult_self2 zero_neq_numeral)
qed

lemma feed_simps:
  "base64_feed s (v, -8, out) = (to_int32 (v * 64 + s), -2, out)"
  "base64_feed s (v, -2, out)
    = (to_int32 (v * 64 + s), -4, out @ [char_of ((to_int32 (v * 64 + s) div 16) mod 256)])"
  "base64_feed s (v, -4, out)
    = (to_int32 (v * 64 + s), -6, out @ [char_of ((to_int32 (v * 64 + s) div 4) mod 256)])"
  "base64_feed s (v, -6, out)
    = (to_int32 (v * 64 + s), -8, out @ [char_of (to_int32 (v * 64 + s) mod 256)])"
  by (simp_all add: base64_feed_def Let_def)

text \<open>
  The bytes three pushes read off the accumulator, whatever it held before.
\<close>

lemma feed_bytes:
  fixes v :: int
  assumes s: "0 \<le> s0" "s0 < 64" "0 \<le> s1" "s1 < 64" "0 \<le> s2" "s2 < 64" "0 \<le> s3" "s3 < 64"
  defines "v1 \<equiv> to_int32 (to_int32 (v * 64 + s0) * 64 + s1)"
  defines "v2 \<equiv> to_int32 (v1 * 64 + s2)"
  defines "v3 \<equiv> to_int32 (v2 * 64 + s3)"
  shows "(v1 div 16) mod 256 = s0 * 4 + s1 div 16"
    and "(v2 div 4) mod 256 = (s1 mod 16) * 16 + s2 div 4"
    and "v3 mod 256 = (s2 mod 4) * 64 + s3"
proof -
  have "to_int32 (v * 64 + s0) mod 64 = s0" using shift_in_mod [of s0 v 1 0] s by simp
  then have "v1 mod 4096 = s0 * 64 + s1"
    using shift_in_mod [of s1 _ 64 s0] s by (simp add: v1_def)
  then show "(v1 div 16) mod 256 = s0 * 4 + s1 div 16"
    using s div_pow_mod_256 [of v1 4] by simp
  have "v1 mod 64 = s1" using shift_in_mod [of s1 _ 1 0] s by (simp add: v1_def)
  then have v2: "v2 mod 4096 = s1 * 64 + s2"
    using shift_in_mod [of s2 v1 64 s1] s by (simp add: v2_def)
  have "v2 mod 1024 = (s1 * 64 + s2) mod 1024"
    by (simp flip: v2 add: mod_mod_cancel)
  also have "\<dots> = (s1 mod 16) * 64 + s2"
    using shift_mod [of s2 16 s1] s by simp
  finally show "(v2 div 4) mod 256 = (s1 mod 16) * 16 + s2 div 4"
    using s div_pow_mod_256 [of v2 2] quarter [of "s1 mod 16" s2] by simp
  have "v2 mod 64 = s2" using shift_in_mod [of s2 v1 1 0] s by (simp add: v2_def)
  then have v3: "v3 mod 4096 = s2 * 64 + s3"
    using shift_in_mod [of s3 v2 64 s2] s by (simp add: v3_def)
  have "v3 mod 256 = (s2 * 64 + s3) mod 256"
    by (simp flip: v3 add: mod_mod_cancel)
  then show "v3 mod 256 = (s2 mod 4) * 64 + s3"
    using shift_mod [of s3 4 s2] s by simp
qed

text \<open>The sextets the encoder writes.\<close>

fun sextets :: "string \<Rightarrow> int list" where
  "sextets [] = []"
| "sextets [a] = [of_char a div 4, (of_char a mod 4) * 16]"
| "sextets [a, b] = [of_char a div 4, (of_char a mod 4) * 16 + of_char b div 16, (of_char b mod 16) * 4]"
| "sextets (a # b # c # s) =
     [of_char a div 4, (of_char a mod 4) * 16 + of_char b div 16,
      (of_char b mod 16) * 4 + of_char c div 64, of_char c mod 64] @ sextets s"

lemma of_char_less: "(of_char c :: nat) < 256"
  using of_char_mod_256 [of c, where 'a = nat] mod_less_divisor [of 256 "of_char c :: nat"] by simp

lemma of_char_bounds: "0 \<le> (of_char c :: int)" "(of_char c :: int) < 256"
  using of_char_mod_256 [of c, where 'a = int]
    pos_mod_sign [of 256 "of_char c :: int"] pos_mod_bound [of 256 "of_char c :: int"]
  by (simp_all only: zero_less_numeral simp_thms)

lemma sextets_range: "\<forall>i \<in> set (sextets s). 0 \<le> i \<and> i < 64"
proof (induction s rule: sextets.induct)
  case (2 a)
  show ?case using of_char_bounds [of a] by auto
next
  case (3 a b)
  show ?case using of_char_bounds [of a] of_char_bounds [of b] by auto
next
  case (4 a b c s)
  then show ?case using of_char_bounds [of a] of_char_bounds [of b] of_char_bounds [of c] by auto
qed simp

definition b64_char :: "int \<Rightarrow> char" where
  "b64_char i = base64_table ! nat i"

lemma table_facts: "length base64_table = 64" "distinct base64_table" "CHR ''='' \<notin> set base64_table"
  "CHR ''-'' \<notin> set base64_table" "CHR ''_'' \<notin> set base64_table"
  by code_simp+

lemma b64_char_index:
  assumes "0 \<le> i" "i < 64"
  shows "basic_index (b64_char i) = Some i" and "jwt_index (b64_char i) = Some i"
    and "b64_char i \<noteq> CHR ''=''"
proof -
  have len: "nat i < length base64_table" using assms by (simp add: table_facts)
  then have "index_of (base64_table ! nat i) base64_table = Some (nat i)"
    using table_facts(2) by (auto simp: index_of_Some nth_eq_iff_index_eq)
  then show basic: "basic_index (b64_char i) = Some i"
    using assms(1) by (simp add: basic_index_def b64_char_def)
  have "b64_char i \<in> set base64_table" using len by (simp add: b64_char_def)
  then show "b64_char i \<noteq> CHR ''=''" "jwt_index (b64_char i) = Some i"
    using table_facts(3-5) basic by (auto simp: jwt_index_def)
qed

lemma sextet_char_eq: "sextet_char n = b64_char (n mod 64)"
  by (simp add: sextet_char_def b64_char_def)

lemma nibbles:
  assumes "0 \<le> (a::int)" "a < 256"
  shows "4 * (a div 4) + a mod 4 = a" "0 \<le> a mod 4" "a mod 4 < 4" "0 \<le> a div 4" "a div 4 < 64"
    "16 * (a div 16) + a mod 16 = a" "0 \<le> a mod 16" "a mod 16 < 16" "0 \<le> a div 16" "a div 16 < 16"
    "64 * (a div 64) + a mod 64 = a" "0 \<le> a mod 64" "a mod 64 < 64" "0 \<le> a div 64" "a div 64 < 4"
  using assms by simp_all

lemma group_sextets:
  fixes a b c :: int
  assumes "0 \<le> a" "a < 256" "0 \<le> b" "b < 256" "0 \<le> c" "c < 256"
  shows "(a * 65536 + b * 256 + c) div 262144 mod 64 = a div 4"
    and "(a * 65536 + b * 256 + c) div 4096 mod 64 = (a mod 4) * 16 + b div 16"
    and "(a * 65536 + b * 256 + c) div 64 mod 64 = (b mod 16) * 4 + c div 64"
    and "(a * 65536 + b * 256 + c) mod 64 = c mod 64"
proof -
  define p q u w x y where d: "p = a div 4" "q = a mod 4" "u = b div 16" "w = b mod 16" "x = c div 64" "y = c mod 64"
  have e: "a = 4 * p + q" "b = 16 * u + w" "c = 64 * x + y" by (simp_all add: d)
  have r: "0 \<le> q" "q < 4" "0 \<le> p" "p < 64" "0 \<le> w" "w < 16" "0 \<le> u" "u < 16" "0 \<le> y" "y < 64" "0 \<le> x" "x < 4"
    using assms by (simp_all add: d)
  let ?n = "a * 65536 + b * 256 + c"
  have "?n div 262144 = p"
    by (rule int_div_pos_eq [where r = "q * 65536 + b * 256 + c"]) (use e r in linarith)+
  moreover have "p mod 64 = p" using r by simp
  moreover have "?n div 4096 = a * 16 + u"
    by (rule int_div_pos_eq [where r = "w * 256 + c"]) (simp add: e(2), use e r in linarith, use e r in linarith)
  moreover have "(a * 16 + u) mod 64 = q * 16 + u"
    by (rule int_mod_pos_eq [where q = p]) (simp add: e, use r in linarith, use r in linarith)
  moreover have "?n div 64 = a * 1024 + b * 4 + x"
    by (rule int_div_pos_eq [where r = y]) (simp add: e, use r in linarith, use r in linarith)
  moreover have "(a * 1024 + b * 4 + x) mod 64 = w * 4 + x"
    by (rule int_mod_pos_eq [where q = "a * 16 + u"]) (simp add: e, use r in linarith, use r in linarith)
  moreover have "?n mod 64 = y"
    by (rule int_mod_pos_eq [where q = "a * 1024 + b * 4 + x"]) (simp add: e, use r in linarith, use r in linarith)
  ultimately show "?n div 262144 mod 64 = a div 4"
    "?n div 4096 mod 64 = (a mod 4) * 16 + b div 16"
    "?n div 64 mod 64 = (b mod 16) * 4 + c div 64"
    "?n mod 64 = c mod 64"
    unfolding d [symmetric] by (simp_all only:)
qed

text \<open>And back: the three bytes of the four sextets.\<close>

lemma sextets_group:
  fixes a b c :: int
  assumes "0 \<le> a" "a < 256" "0 \<le> b" "b < 256" "0 \<le> c" "c < 256"
  shows "a div 4 * 4 + (a mod 4 * 16 + b div 16) div 16 = a"
    and "(a mod 4 * 16 + b div 16) mod 16 * 16 + (b mod 16 * 4 + c div 64) div 4 = b"
    and "(b mod 16 * 4 + c div 64) mod 4 * 64 + c mod 64 = c"
proof -
  note a = nibbles [OF assms(1,2)] and b = nibbles [OF assms(3,4)] and c = nibbles [OF assms(5,6)]
  have "(a mod 4 * 16 + b div 16) div 16 = a mod 4"
    by (rule int_div_pos_eq [where r = "b div 16"]) (use b(6-10) in linarith)+
  moreover have "(a mod 4 * 16 + b div 16) mod 16 = b div 16"
    by (rule int_mod_pos_eq [where q = "a mod 4"]) (use b(6-10) in linarith)+
  moreover have "(b mod 16 * 4 + c div 64) div 4 = b mod 16"
    by (rule int_div_pos_eq [where r = "c div 64"]) (use c(11-15) in linarith)+
  moreover have "(b mod 16 * 4 + c div 64) mod 4 = c div 64"
    by (rule int_mod_pos_eq [where q = "b mod 16"]) (use c(11-15) in linarith)+
  ultimately show "a div 4 * 4 + (a mod 4 * 16 + b div 16) div 16 = a"
    "(a mod 4 * 16 + b div 16) mod 16 * 16 + (b mod 16 * 4 + c div 64) div 4 = b"
    "(b mod 16 * 4 + c div 64) mod 4 * 64 + c mod 64 = c"
    using a(1) b(6) c(11) by simp_all
qed

lemma encode_groups_sextets:
  "\<exists>pad. encode_groups s = map b64_char (sextets s) @ pad \<and> set pad \<subseteq> {CHR ''=''}"
proof (induction s rule: encode_groups.induct)
  case 1
  then show ?case by simp
next
  case (2 a)
  note g = group_sextets [OF of_char_bounds [of a], of 0 0, simplified]
  have "encode_groups [a] = map b64_char (sextets [a]) @ ''==''"
    by (simp add: Let_def sextet_char_eq g(1,2))
  then show ?case by (intro exI [of _ "''==''"]) simp
next
  case (3 a b)
  note g = group_sextets [OF of_char_bounds [of a] of_char_bounds [of b], of 0, simplified]
  have "encode_groups [a, b] = map b64_char (sextets [a, b]) @ ''=''"
    by (simp add: Let_def sextet_char_eq g(1-3))
  then show ?case by (intro exI [of _ "''=''"]) simp
next
  case (4 a b c s)
  note g = group_sextets [OF of_char_bounds [of a] of_char_bounds [of b] of_char_bounds [of c]]
  from 4 obtain pad where "encode_groups s = map b64_char (sextets s) @ pad" "set pad \<subseteq> {CHR ''=''}" by blast
  then show ?case
    by (intro exI [of _ pad]) (simp add: Let_def sextet_char_eq g)
qed

lemma base64_encode_eq: "base64_encode s = map b64_char (sextets s)"
proof -
  obtain pad where e: "encode_groups s = map b64_char (sextets s) @ pad" "set pad \<subseteq> {CHR ''=''}"
    using encode_groups_sextets by blast
  have body: "CHR ''='' \<notin> set (map b64_char (sextets s))"
    using sextets_range [of s] b64_char_index(3) by fastforce
  have "dropWhile (\<lambda>c. c = CHR ''='') (rev pad @ rev (map b64_char (sextets s)))
      = dropWhile (\<lambda>c. c = CHR ''='') (rev (map b64_char (sextets s)))"
    using e(2) by (intro dropWhile_append2) auto
  also have "\<dots> = rev (map b64_char (sextets s))"
    using body hd_in_set [of "rev (map b64_char (sextets s))"]
    by (auto simp: dropWhile_eq_self_iff)
  finally show ?thesis by (simp add: base64_encode_def strip_padding_def e(1))
qed

lemma feed_two:
  assumes "0 \<le> s0" "s0 < 64" "0 \<le> s1" "s1 < 64"
  shows "\<exists>v'. fold base64_feed [s0, s1] (v, -8, out) = (v', -4, out @ [char_of (s0 * 4 + s1 div 16)])"
proof -
  let ?v1 = "to_int32 (to_int32 (v * 64 + s0) * 64 + s1)"
  have "fold base64_feed [s0, s1] (v, -8, out) = (?v1, -4, out @ [char_of ((?v1 div 16) mod 256)])"
    by (simp only: fold_simps feed_simps)
  then show ?thesis unfolding feed_bytes(1) [OF assms, of 0 0 v, simplified] by blast
qed

lemma feed_three:
  assumes "0 \<le> s0" "s0 < 64" "0 \<le> s1" "s1 < 64" "0 \<le> s2" "s2 < 64"
  shows "\<exists>v'. fold base64_feed [s0, s1, s2] (v, -8, out)
    = (v', -6, out @ [char_of (s0 * 4 + s1 div 16), char_of ((s1 mod 16) * 16 + s2 div 4)])"
proof -
  let ?v1 = "to_int32 (to_int32 (v * 64 + s0) * 64 + s1)"
  let ?v2 = "to_int32 (?v1 * 64 + s2)"
  have "fold base64_feed [s0, s1, s2] (v, -8, out)
      = (?v2, -6, out @ [char_of ((?v1 div 16) mod 256), char_of ((?v2 div 4) mod 256)])"
    by (simp only: fold_simps feed_simps append_assoc append.simps)
  then show ?thesis unfolding feed_bytes(1,2) [OF assms, of 0 v, simplified] by blast
qed

lemma feed_four:
  assumes "0 \<le> s0" "s0 < 64" "0 \<le> s1" "s1 < 64" "0 \<le> s2" "s2 < 64" "0 \<le> s3" "s3 < 64"
  shows "\<exists>v'. fold base64_feed [s0, s1, s2, s3] (v, -8, out)
    = (v', -8, out @ [char_of (s0 * 4 + s1 div 16), char_of ((s1 mod 16) * 16 + s2 div 4),
                     char_of ((s2 mod 4) * 64 + s3)])"
proof -
  let ?v1 = "to_int32 (to_int32 (v * 64 + s0) * 64 + s1)"
  let ?v2 = "to_int32 (?v1 * 64 + s2)"
  let ?v3 = "to_int32 (?v2 * 64 + s3)"
  have "fold base64_feed [s0, s1, s2, s3] (v, -8, out)
      = (?v3, -8, out @ [char_of ((?v1 div 16) mod 256), char_of ((?v2 div 4) mod 256), char_of (?v3 mod 256)])"
    by (simp only: fold_simps feed_simps append_assoc append.simps)
  then show ?thesis unfolding feed_bytes [OF assms, of v] by blast
qed

lemma run_sextets: "\<exists>v' valb'. fold base64_feed (sextets s) (v, -8, out) = (v', valb', out @ s)"
proof (induction s arbitrary: v out rule: sextets.induct)
  case 1
  then show ?case by simp
next
  case (2 a)
  note e = sextets_group(1) [OF of_char_bounds [of a], of 0 0, simplified]
  have r: "0 \<le> (of_char a :: int) div 4" "(of_char a :: int) div 4 < 64"
    "0 \<le> (of_char a :: int) mod 4 * 16" "(of_char a :: int) mod 4 * 16 < 64"
    using sextets_range [of "[a]"] by simp_all
  from feed_two [OF r, of v out] show ?case by (auto simp: e simp del: fold_simps)
next
  case (3 a b)
  note e = sextets_group(1,2) [OF of_char_bounds [of a] of_char_bounds [of b], of 0, simplified]
  let ?x = "of_char a :: int" and ?y = "of_char b :: int"
  have r: "0 \<le> ?x div 4" "?x div 4 < 64" "0 \<le> ?x mod 4 * 16 + ?y div 16" "?x mod 4 * 16 + ?y div 16 < 64"
    "0 \<le> ?y mod 16 * 4" "?y mod 16 * 4 < 64"
    using sextets_range [of "[a, b]"] by simp_all
  from feed_three [OF r, of v out] show ?case by (auto simp: e simp del: fold_simps)
next
  case (4 a b c s)
  note e = sextets_group [OF of_char_bounds [of a] of_char_bounds [of b] of_char_bounds [of c]]
  let ?x = "of_char a :: int" and ?y = "of_char b :: int" and ?z = "of_char c :: int"
  have r: "0 \<le> ?x div 4" "?x div 4 < 64" "0 \<le> ?x mod 4 * 16 + ?y div 16" "?x mod 4 * 16 + ?y div 16 < 64"
    "0 \<le> ?y mod 16 * 4 + ?z div 64" "?y mod 16 * 4 + ?z div 64 < 64" "0 \<le> ?z mod 64" "?z mod 64 < 64"
    using sextets_range [of "a # b # c # s"] by simp_all
  obtain v4 where "fold base64_feed [?x div 4, ?x mod 4 * 16 + ?y div 16, ?y mod 16 * 4 + ?z div 64, ?z mod 64]
      (v, -8, out) = (v4, -8, out @ [a, b, c])"
    using feed_four [OF r, of v out] unfolding e by auto
  then have "fold base64_feed (sextets (a # b # c # s)) (v, -8, out)
      = fold base64_feed (sextets s) (v4, -8, out @ [a, b, c])"
    by (simp only: sextets.simps fold_append comp_apply)
  with 4 [of v4 "out @ [a, b, c]"] show ?case
    by (simp only: append_assoc append.simps)
qed

lemma base64_run_sextets: "base64_run (sextets s) = s"
  using run_sextets [of s 0 "[]"] by (auto simp: base64_run_def)

lemma decode_encode:
  "jwt_base64_decode (base64_encode s) = s"
  "basic_decode (base64_encode s) = s"
proof -
  have "List.map_filter jwt_index (map b64_char is) = is" if "\<forall>i \<in> set is. 0 \<le> i \<and> i < 64" for "is"
    using that by (induction "is") (auto simp: map_filter_simps b64_char_index)
  then show "jwt_base64_decode (base64_encode s) = s"
    using sextets_range [of s] by (simp add: jwt_base64_decode_def base64_encode_eq base64_run_sextets)
  have "takeWhile (\<lambda>c. basic_index c \<noteq> None) (map b64_char is) = map b64_char is"
    "map (the \<circ> basic_index) (map b64_char is) = is" if "\<forall>i \<in> set is. 0 \<le> i \<and> i < 64" for "is"
    using that by (induction "is") (simp_all add: b64_char_index)
  then show "basic_decode (base64_encode s) = s"
    using sextets_range [of s] by (simp only: basic_decode_def base64_encode_eq base64_run_sextets)
qed

section \<open>Numbers as text\<close>

text \<open>\<^verbatim>\<open>std::to_string\<close> of an integer, and that \<^verbatim>\<open>stoi\<close> reads it back.\<close>

definition digit_char :: "nat \<Rightarrow> char" where
  "digit_char d = char_of (48 + d)"

fun decimal :: "nat \<Rightarrow> string" where
  "decimal n = (if n < 10 then [digit_char n] else decimal (n div 10) @ [digit_char (n mod 10)])"

declare decimal.simps [simp del]

definition to_string :: "int \<Rightarrow> string" where
  "to_string i = (if i < 0 then CHR ''-'' # decimal (nat (- i)) else decimal (nat i))"

lemma of_digit_char: "d < 10 \<Longrightarrow> (of_char (digit_char d) :: nat) = 48 + d"
  by (simp add: digit_char_def)

lemma is_digit_char: "d < 10 \<Longrightarrow> is_digit (digit_char d)"
  by (simp add: is_digit_def of_digit_char)

lemma decimal_digits: "\<forall>c \<in> set (decimal n). is_digit c"
proof (induction n rule: decimal.induct)
  case (1 n)
  then show ?case by (subst decimal.simps) (simp add: is_digit_char)
qed

lemma decimal_not_Nil [simp]: "decimal n \<noteq> []"
  by (subst decimal.simps) simp

lemma digits_value_snoc: "digits_value (ds @ [c]) = digits_value ds * 10 + (of_char c - 48)"
  by (simp add: digits_value_def)

lemma digits_value_decimal: "digits_value (decimal n) = int n"
proof (induction n rule: decimal.induct)
  case (1 n)
  have of_int: "(of_char (digit_char d) :: int) = 48 + int d" if "d < 10" for d
    using of_digit_char [OF that] by (metis of_nat_add of_nat_numeral of_nat_of_char)
  show ?case
  proof (cases "n < 10")
    case True
    then show ?thesis by (subst decimal.simps) (simp add: digits_value_def of_int)
  next
    case False
    with 1 have "digits_value (decimal n) = int (n div 10) * 10 + int (n mod 10)"
      by (subst decimal.simps) (simp add: digits_value_snoc of_int)
    then show ?thesis by (simp add: zdiv_int zmod_int)
  qed
qed

lemma decimal_inj: "decimal m = decimal n \<longleftrightarrow> m = n"
  by (metis digits_value_decimal of_nat_eq_iff)

lemma digit_not_sign: "is_digit c \<Longrightarrow> c \<noteq> CHR ''-'' \<and> c \<noteq> CHR ''+'' \<and> \<not> is_space c"
  by (auto simp: is_digit_def is_space_def)

lemma stoi_to_string:
  assumes "-2147483648 \<le> i" "i \<le> 2147483647"
  shows "stoi (to_string i) = Some i"
proof -
  have ds: "takeWhile is_digit (decimal n) = decimal n" for n
    using decimal_digits by (auto simp: takeWhile_eq_all_conv)
  have sp: "dropWhile is_space (decimal n) = decimal n" "hd (decimal n) \<noteq> CHR ''-''"
    "hd (decimal n) \<noteq> CHR ''+''" for n
    using decimal_digits [of n] digit_not_sign by (cases "decimal n"; auto)+
  show ?thesis
  proof (cases "i < 0")
    case True
    then have "to_string i = CHR ''-'' # decimal (nat (- i))" by (simp add: to_string_def)
    moreover have "\<not> is_space CHR ''-''" by (simp add: is_space_def)
    ultimately show ?thesis
      using True assms by (simp add: stoi_def Let_def ds digits_value_decimal)
  next
    case False
    then show ?thesis
      using assms by (simp add: to_string_def stoi_def Let_def ds sp digits_value_decimal)
  qed
qed

end
