(* ===== verification/Metrics.thy ===== *)
theory Metrics
  imports Counters Overload_Protector Connection_Admitter
begin

text \<open>
  \<^verbatim>\<open>src/src/log_monitor/metrics_collector.cpp\<close> and \<^verbatim>\<open>src/src/concurrency/concurrency_metrics.cpp\<close>: the
  counters the status API reports, per node and per user, and the bounded history. Byte counters
  are 64 bits wide. The JSON documents are the records of the values put into them.
\<close>

section \<open>Traffic counters\<close>

record metrics_collector =
  mc_active_connections :: int
  mc_total_connections :: int
  mc_direct_bytes_up :: "64 word"
  mc_direct_bytes_down :: "64 word"
  mc_proxy_bytes_up :: "64 word"
  mc_proxy_bytes_down :: "64 word"

definition new_metrics_collector :: metrics_collector where
  "new_metrics_collector = \<lparr>mc_active_connections = 0, mc_total_connections = 0,
     mc_direct_bytes_up = 0, mc_direct_bytes_down = 0, mc_proxy_bytes_up = 0, mc_proxy_bytes_down = 0\<rparr>"

text \<open>The compare-exchange loops end with one decrement, or none where the counter is not positive.\<close>

definition dec_positive :: "int \<Rightarrow> int" where
  "dec_positive n = (if n > 0 then n - 1 else n)"

definition mc_inc_active_connections :: "metrics_collector \<Rightarrow> metrics_collector" where
  "mc_inc_active_connections mc = mc\<lparr>mc_active_connections := mc_active_connections mc + 1\<rparr>"

definition mc_dec_active_connections :: "metrics_collector \<Rightarrow> metrics_collector" where
  "mc_dec_active_connections mc = mc\<lparr>mc_active_connections := dec_positive (mc_active_connections mc)\<rparr>"

definition mc_inc_total_connections :: "metrics_collector \<Rightarrow> metrics_collector" where
  "mc_inc_total_connections mc = mc\<lparr>mc_total_connections := mc_total_connections mc + 1\<rparr>"

definition add_direct_bytes_up :: "64 word \<Rightarrow> metrics_collector \<Rightarrow> metrics_collector" where
  "add_direct_bytes_up b mc = mc\<lparr>mc_direct_bytes_up := mc_direct_bytes_up mc + b\<rparr>"

definition add_direct_bytes_down :: "64 word \<Rightarrow> metrics_collector \<Rightarrow> metrics_collector" where
  "add_direct_bytes_down b mc = mc\<lparr>mc_direct_bytes_down := mc_direct_bytes_down mc + b\<rparr>"

definition add_proxy_bytes_up :: "64 word \<Rightarrow> metrics_collector \<Rightarrow> metrics_collector" where
  "add_proxy_bytes_up b mc = mc\<lparr>mc_proxy_bytes_up := mc_proxy_bytes_up mc + b\<rparr>"

definition add_proxy_bytes_down :: "64 word \<Rightarrow> metrics_collector \<Rightarrow> metrics_collector" where
  "add_proxy_bytes_down b mc = mc\<lparr>mc_proxy_bytes_down := mc_proxy_bytes_down mc + b\<rparr>"

definition mc_snapshot :: "metrics_collector \<Rightarrow> metrics_collector" where
  "mc_snapshot mc = mc"

section \<open>Concurrency metrics\<close>

record node_metrics =
  nm_tag :: string
  nm_active_connections :: int
  nm_total_connections :: int
  nm_bytes_up :: "64 word"
  nm_bytes_down :: "64 word"
  nm_latency_ms :: int
  nm_health :: string

record user_metrics =
  um_username :: string
  um_active_connections :: int
  um_total_connections :: int
  um_bytes_up :: "64 word"
  um_bytes_down :: "64 word"

record history_snapshot =
  hs_timestamp :: time_point
  hs_active_connections :: int
  hs_queued_connections :: int
  hs_node_connections :: "string \<rightharpoonup> int"

record global_stats =
  gs_active_connections :: int
  gs_total_connections :: int
  gs_queued_connections :: int
  gs_max_connections :: int
  gs_is_overloaded :: bool

record concurrency_metrics =
  cm_node_metrics :: "string \<rightharpoonup> node_metrics"
  cm_user_metrics :: "string \<rightharpoonup> user_metrics"
  cm_history :: "history_snapshot list"
  cm_active_connections :: int
  cm_total_connections :: int
  cm_queued_connections :: int
  cm_history_running :: bool

definition new_node_metrics :: node_metrics where
  "new_node_metrics = \<lparr>nm_tag = '''', nm_active_connections = 0, nm_total_connections = 0,
     nm_bytes_up = 0, nm_bytes_down = 0, nm_latency_ms = 0, nm_health = ''''\<rparr>"

definition new_user_metrics :: user_metrics where
  "new_user_metrics = \<lparr>um_username = '''', um_active_connections = 0, um_total_connections = 0,
     um_bytes_up = 0, um_bytes_down = 0\<rparr>"

definition new_concurrency_metrics :: concurrency_metrics where
  "new_concurrency_metrics = \<lparr>cm_node_metrics = Map.empty, cm_user_metrics = Map.empty,
     cm_history = [], cm_active_connections = 0, cm_total_connections = 0,
     cm_queued_connections = 0, cm_history_running = False\<rparr>"

definition MAX_HISTORY :: nat where
  "MAX_HISTORY = 1440"

text \<open>The references \<^verbatim>\<open>m_node_metrics[tag]\<close> and \<^verbatim>\<open>m_user_metrics[name]\<close>, created where missing.\<close>

definition update_node :: "string \<Rightarrow> (node_metrics \<Rightarrow> node_metrics) \<Rightarrow> concurrency_metrics \<Rightarrow> concurrency_metrics" where
  "update_node tag f cm =
     cm\<lparr>cm_node_metrics := (cm_node_metrics cm)
          (tag \<mapsto> f (case cm_node_metrics cm tag of None \<Rightarrow> new_node_metrics | Some m \<Rightarrow> m))\<rparr>"

definition update_user :: "string \<Rightarrow> (user_metrics \<Rightarrow> user_metrics) \<Rightarrow> concurrency_metrics \<Rightarrow> concurrency_metrics" where
  "update_user name f cm =
     cm\<lparr>cm_user_metrics := (cm_user_metrics cm)
          (name \<mapsto> f (case cm_user_metrics cm name of None \<Rightarrow> new_user_metrics | Some m \<Rightarrow> m))\<rparr>"

definition cm_inc_node_connections :: "string \<Rightarrow> concurrency_metrics \<Rightarrow> concurrency_metrics" where
  "cm_inc_node_connections tag =
     update_node tag (\<lambda>m. m\<lparr>nm_tag := tag, nm_active_connections := nm_active_connections m + 1,
                            nm_total_connections := nm_total_connections m + 1\<rparr>)"

definition cm_dec_node_connections :: "string \<Rightarrow> concurrency_metrics \<Rightarrow> concurrency_metrics" where
  "cm_dec_node_connections tag cm =
     (case cm_node_metrics cm tag of
        None \<Rightarrow> cm
      | Some m \<Rightarrow>
          if nm_active_connections m > 0
          then cm\<lparr>cm_node_metrics := (cm_node_metrics cm)
                    (tag \<mapsto> m\<lparr>nm_active_connections := nm_active_connections m - 1\<rparr>)\<rparr>
          else cm)"

definition add_node_bytes :: "string \<Rightarrow> 64 word \<Rightarrow> 64 word \<Rightarrow> concurrency_metrics \<Rightarrow> concurrency_metrics" where
  "add_node_bytes tag up down =
     update_node tag (\<lambda>m. m\<lparr>nm_tag := tag, nm_bytes_up := nm_bytes_up m + up,
                            nm_bytes_down := nm_bytes_down m + down\<rparr>)"

definition update_node_latency :: "string \<Rightarrow> int \<Rightarrow> concurrency_metrics \<Rightarrow> concurrency_metrics" where
  "update_node_latency tag latency = update_node tag (\<lambda>m. m\<lparr>nm_tag := tag, nm_latency_ms := latency\<rparr>)"

definition update_node_health :: "string \<Rightarrow> string \<Rightarrow> concurrency_metrics \<Rightarrow> concurrency_metrics" where
  "update_node_health tag health = update_node tag (\<lambda>m. m\<lparr>nm_tag := tag, nm_health := health\<rparr>)"

definition cm_inc_user_connections :: "string \<Rightarrow> concurrency_metrics \<Rightarrow> concurrency_metrics" where
  "cm_inc_user_connections name cm =
     (let cm1 = update_user name
        (\<lambda>m. m\<lparr>um_username := name, um_active_connections := um_active_connections m + 1,
               um_total_connections := um_total_connections m + 1\<rparr>) cm
      in cm1\<lparr>cm_active_connections := cm_active_connections cm1 + 1,
             cm_total_connections := cm_total_connections cm1 + 1\<rparr>)"

definition cm_dec_user_connections :: "string \<Rightarrow> concurrency_metrics \<Rightarrow> concurrency_metrics" where
  "cm_dec_user_connections name cm =
     (let cm1 = (case cm_user_metrics cm name of
                   None \<Rightarrow> cm
                 | Some m \<Rightarrow>
                     if um_active_connections m > 0
                     then cm\<lparr>cm_user_metrics := (cm_user_metrics cm)
                               (name \<mapsto> m\<lparr>um_active_connections := um_active_connections m - 1\<rparr>)\<rparr>
                     else cm)
      in cm1\<lparr>cm_active_connections := dec_positive (cm_active_connections cm1)\<rparr>)"

definition add_user_bytes :: "string \<Rightarrow> 64 word \<Rightarrow> 64 word \<Rightarrow> concurrency_metrics \<Rightarrow> concurrency_metrics" where
  "add_user_bytes name up down =
     update_user name (\<lambda>m. m\<lparr>um_username := name, um_bytes_up := um_bytes_up m + up,
                             um_bytes_down := um_bytes_down m + down\<rparr>)"

definition set_queued_count :: "int \<Rightarrow> concurrency_metrics \<Rightarrow> concurrency_metrics" where
  "set_queued_count n cm = cm\<lparr>cm_queued_connections := n\<rparr>"

definition record_history_snapshot :: "time_point \<Rightarrow> concurrency_metrics \<Rightarrow> concurrency_metrics" where
  "record_history_snapshot now cm =
     (let snap = \<lparr>hs_timestamp = now, hs_active_connections = cm_active_connections cm,
                  hs_queued_connections = cm_queued_connections cm,
                  hs_node_connections = map_option nm_active_connections \<circ> cm_node_metrics cm\<rparr>;
          h = cm_history cm @ [snap]
      in cm\<lparr>cm_history := (if length h > MAX_HISTORY then tl h else h)\<rparr>)"

definition get_global_stats ::
    "(rat \<Rightarrow> rat) \<Rightarrow> os_view \<Rightarrow> overload_protector \<Rightarrow> 'cb connection_admitter \<Rightarrow> concurrency_metrics \<Rightarrow> global_stats" where
  "get_global_stats rnd os op adm cm =
     \<lparr>gs_active_connections = cm_active_connections cm, gs_total_connections = cm_total_connections cm,
      gs_queued_connections = cm_queued_connections cm, gs_max_connections = adm_max_connections adm,
      gs_is_overloaded = sys_overloaded rnd os op\<rparr>"

definition get_node_metrics :: "string \<Rightarrow> concurrency_metrics \<Rightarrow> node_metrics" where
  "get_node_metrics tag cm = (case cm_node_metrics cm tag of None \<Rightarrow> new_node_metrics | Some m \<Rightarrow> m)"

definition get_all_node_metrics :: "string list \<Rightarrow> concurrency_metrics \<Rightarrow> node_metrics list" where
  "get_all_node_metrics ks cm = vals ks (cm_node_metrics cm)"

definition get_user_metrics :: "string \<Rightarrow> concurrency_metrics \<Rightarrow> user_metrics" where
  "get_user_metrics name cm = (case cm_user_metrics cm name of None \<Rightarrow> new_user_metrics | Some m \<Rightarrow> m)"

definition get_all_user_metrics :: "string list \<Rightarrow> concurrency_metrics \<Rightarrow> user_metrics list" where
  "get_all_user_metrics ks cm = vals ks (cm_user_metrics cm)"

definition get_history :: "time_point \<Rightarrow> int \<Rightarrow> concurrency_metrics \<Rightarrow> history_snapshot list" where
  "get_history now minutes cm =
     filter (\<lambda>snap. hs_timestamp snap \<ge> plus_secs now (- (60 * minutes))) (cm_history cm)"

text \<open>What the realtime push carries: the global numbers and tag, connections, latency, health of each node.\<close>

definition get_realtime_push_data ::
    "(rat \<Rightarrow> rat) \<Rightarrow> os_view \<Rightarrow> overload_protector \<Rightarrow> 'cb connection_admitter \<Rightarrow> string list \<Rightarrow> concurrency_metrics
     \<Rightarrow> (int \<times> int \<times> int \<times> bool) \<times> (string \<times> int \<times> int \<times> string) list" where
  "get_realtime_push_data rnd os op adm ks cm =
     (let stats = get_global_stats rnd os op adm cm
      in ((gs_active_connections stats, gs_total_connections stats, gs_queued_connections stats,
           gs_is_overloaded stats),
          map (\<lambda>n. (nm_tag n, nm_active_connections n, nm_latency_ms n, nm_health n))
            (get_all_node_metrics ks cm)))"

text \<open>Starting returns whether this call is the one that spawns the collecting thread.\<close>

definition start_history_collection :: "concurrency_metrics \<Rightarrow> concurrency_metrics \<times> bool" where
  "start_history_collection cm = (cm\<lparr>cm_history_running := True\<rparr>, \<not> cm_history_running cm)"

definition stop_history_collection :: "concurrency_metrics \<Rightarrow> concurrency_metrics" where
  "stop_history_collection cm = cm\<lparr>cm_history_running := False\<rparr>"

section \<open>The history holds the latest snapshots\<close>

definition keep_last :: "nat \<Rightarrow> 'a \<Rightarrow> 'a list \<Rightarrow> 'a list" where
  "keep_last n x xs = (if length xs < n then xs @ [x] else tl (xs @ [x]))"

lemma fold_keep_last:
  "length xs \<le> n \<Longrightarrow> fold (keep_last n) ys xs = drop (length xs + length ys - n) (xs @ ys)"
proof (induction ys arbitrary: xs)
  case (Cons y ys)
  show ?case
  proof (cases "length xs < n")
    case True
    moreover from True have "keep_last n y xs = xs @ [y]" by (simp add: keep_last_def)
    ultimately show ?thesis using Cons.IH [of "xs @ [y]"] by simp
  next
    case False
    then have n: "length xs = n" using Cons.prems by simp
    have tl: "tl (xs @ [y]) @ ys = tl (xs @ y # ys)" by (cases xs) simp_all
    have "keep_last n y xs = tl (xs @ [y])" using n by (simp add: keep_last_def)
    then have "fold (keep_last n) (y # ys) xs = drop (length ys) (tl (xs @ [y]) @ ys)"
      using Cons.IH [of "tl (xs @ [y])"] n by simp
    moreover have "length xs + length (y # ys) - n = Suc (length ys)" using n by simp
    ultimately show ?thesis by (simp only: tl drop_Suc)
  qed
qed simp

lemma history_step:
  "map hs_timestamp (cm_history (record_history_snapshot t cm))
   = keep_last MAX_HISTORY t (map hs_timestamp (cm_history cm))"
  by (simp add: record_history_snapshot_def keep_last_def Let_def map_tl not_less)

lemma history_timestamps:
  assumes "length (cm_history cm) \<le> MAX_HISTORY"
  shows "map hs_timestamp (cm_history (fold record_history_snapshot ts cm))
    = drop (length (cm_history cm) + length ts - MAX_HISTORY) (map hs_timestamp (cm_history cm) @ ts)"
proof -
  have "map hs_timestamp (cm_history (fold record_history_snapshot ts c))
      = fold (keep_last MAX_HISTORY) ts (map hs_timestamp (cm_history c))" for c
    by (induction ts arbitrary: c) (simp_all add: history_step)
  then show ?thesis using fold_keep_last [of "map hs_timestamp (cm_history cm)" MAX_HISTORY ts] assms by simp
qed

end
