(* ===== verification/Route_Engine.thy ===== *)
theory Route_Engine
  imports Prelude
begin

text \<open>
  \<^verbatim>\<open>src/src/route_decision\<close>: the routing rules, the decision between a direct connection and the
  upstream proxy, the rule manager that stores custom rules, the DNS cache and the domain matcher.
  A rules file is what the JSON library reads from it (\<open>rules_doc\<close>); the GeoIP database and
  \<^verbatim>\<open>std::sort\<close> are arguments.
\<close>

section \<open>State\<close>

datatype route_action = Direct | Proxy

record route_result =
  rr_action :: route_action
  rr_rule_id :: string
  rr_match_type :: string

record route_rule =
  ru_rule_id :: string
  ru_rule_type :: string
  ru_pattern :: string
  ru_action :: route_action
  ru_priority :: int
  ru_enabled :: bool
  ru_is_builtin :: bool

record route_engine =
  re_builtin_rules :: "route_rule list"
  re_custom_rules :: "route_rule list"
  re_default_action :: route_action
  re_exact_domain_map :: "string \<rightharpoonup> route_action"
  re_suffix_domain_list :: "(string \<times> route_action) list"
  re_geoip_available :: bool
  re_geoip_db_path :: string

definition new_route_engine :: route_engine where
  "new_route_engine = \<lparr>re_builtin_rules = [], re_custom_rules = [], re_default_action = Proxy,
     re_exact_domain_map = Map.empty, re_suffix_domain_list = [], re_geoip_available = False,
     re_geoip_db_path = ''''\<rparr>"

definition no_match :: route_result where
  "no_match = \<lparr>rr_action = Proxy, rr_rule_id = '''', rr_match_type = ''''\<rparr>"

section \<open>Rules files\<close>

text \<open>
  The members the loader reads from one entry of a rules file, \<open>None\<close> where the entry has no such
  member.
\<close>

record raw_rule =
  raw_rule_id :: "string option"
  raw_rule_type :: "string option"
  raw_pattern :: "string option"
  raw_action :: "string option"
  raw_priority :: "int option"
  raw_enabled :: "bool option"

text \<open>
  What opening and parsing a rules file gives: no file, a parse error, a document without an array
  \<^verbatim>\<open>rules\<close>, or its entries, where \<open>None\<close> is an entry at which an accessor throws (it is not an
  object, or a member has the wrong type).
\<close>

datatype rules_doc = No_file | Unparsable | Without_rules | Rules "raw_rule option list"

definition rule_of_raw :: "bool \<Rightarrow> raw_rule \<Rightarrow> route_rule" where
  "rule_of_raw builtin r =
     \<lparr>ru_rule_id = member_or '''' (raw_rule_id r), ru_rule_type = member_or '''' (raw_rule_type r),
      ru_pattern = member_or '''' (raw_pattern r),
      ru_action = (if member_or ''direct'' (raw_action r) = ''direct'' then Direct else Proxy),
      ru_priority = member_or 0 (raw_priority r), ru_enabled = member_or True (raw_enabled r),
      ru_is_builtin = builtin\<rparr>"

text \<open>The loop over the entries; an exception ends it and keeps the rules read so far.\<close>

fun rules_of_entries :: "bool \<Rightarrow> raw_rule option list \<Rightarrow> route_rule list" where
  "rules_of_entries builtin [] = []"
| "rules_of_entries builtin (None # es) = []"
| "rules_of_entries builtin (Some r # es) = rule_of_raw builtin r # rules_of_entries builtin es"

fun rules_of_doc :: "bool \<Rightarrow> rules_doc \<Rightarrow> route_rule list" where
  "rules_of_doc builtin (Rules es) = rules_of_entries builtin es"
| "rules_of_doc builtin doc = []"

definition load_builtin_rules :: "(string \<Rightarrow> rules_doc) \<Rightarrow> string \<Rightarrow> route_engine \<Rightarrow> route_engine" where
  "load_builtin_rules fs path re =
     (if path = '''' then re else re\<lparr>re_builtin_rules := rules_of_doc True (fs path)\<rparr>)"

definition load_custom_rules :: "(string \<Rightarrow> rules_doc) \<Rightarrow> string \<Rightarrow> route_engine \<Rightarrow> route_engine" where
  "load_custom_rules fs path re =
     (if path = '''' then re\<lparr>re_custom_rules := []\<rparr>
      else re\<lparr>re_custom_rules := rules_of_doc False (fs path)\<rparr>)"

section \<open>The domain index\<close>

definition index_rule ::
    "route_rule \<Rightarrow> (string \<rightharpoonup> route_action) \<times> (string \<times> route_action) list
     \<Rightarrow> (string \<rightharpoonup> route_action) \<times> (string \<times> route_action) list" where
  "index_rule r ix =
     (if \<not> ru_enabled r then ix
      else if ru_rule_type r = ''domain_exact'' then ((fst ix)(ru_pattern r \<mapsto> ru_action r), snd ix)
      else if ru_rule_type r = ''domain_suffix'' then (fst ix, snd ix @ [(ru_pattern r, ru_action r)])
      else ix)"

definition build_domain_index :: "route_engine \<Rightarrow> route_engine" where
  "build_domain_index re =
     (let ix = fold index_rule (re_custom_rules re) (fold index_rule (re_builtin_rules re) (Map.empty, []))
      in re\<lparr>re_exact_domain_map := fst ix, re_suffix_domain_list := snd ix\<rparr>)"

section \<open>GeoIP\<close>

text \<open>
  The answers of the MaxMind library for one address: the error codes of the lookup and whether an
  entry was found; the status of the query for the country code, the type of its data and the text.
\<close>

record mmdb_answer =
  mm_gai_error :: int
  mm_mmdb_error :: int
  mm_found_entry :: bool
  mm_value_status :: int
  mm_has_data :: bool
  mm_is_utf8_string :: bool
  mm_text :: string

definition is_china :: "(string \<Rightarrow> mmdb_answer) \<Rightarrow> bool \<Rightarrow> string \<Rightarrow> bool" where
  "is_china mmdb available ip =
     (if \<not> available then False
      else
        let a = mmdb ip
        in if mm_gai_error a \<noteq> 0 \<or> mm_mmdb_error a \<noteq> 0 \<or> \<not> mm_found_entry a then False
           else if mm_value_status a \<noteq> 0 \<or> \<not> mm_has_data a \<or> \<not> mm_is_utf8_string a then False
           else mm_text a = ''CN'')"

section \<open>The decision\<close>

definition has_suffix :: "string \<Rightarrow> string \<Rightarrow> bool" where
  "has_suffix host s \<longleftrightarrow> length host \<ge> length s \<and> take (length s) (drop (length host - length s) host) = s"

definition custom_result :: "string \<Rightarrow> string \<Rightarrow> route_rule \<Rightarrow> route_result option" where
  "custom_result host ip r =
     (if \<not> ru_enabled r then None
      else if ru_rule_type r = ''domain_exact'' \<and> host = ru_pattern r
      then Some \<lparr>rr_action = ru_action r, rr_rule_id = ru_rule_id r, rr_match_type = ''custom_domain_exact''\<rparr>
      else if ru_rule_type r = ''domain_suffix'' \<and> has_suffix host (ru_pattern r)
      then Some \<lparr>rr_action = ru_action r, rr_rule_id = ru_rule_id r, rr_match_type = ''custom_domain_suffix''\<rparr>
      else if ru_rule_type r = ''ip_cidr'' \<and> ip \<noteq> ''''
      then Some \<lparr>rr_action = ru_action r, rr_rule_id = ru_rule_id r, rr_match_type = ''custom_ip_cidr''\<rparr>
      else None)"

fun first_result :: "('a \<Rightarrow> 'b option) \<Rightarrow> 'a list \<Rightarrow> 'b option" where
  "first_result f [] = None"
| "first_result f (x # xs) = (case f x of None \<Rightarrow> first_result f xs | Some y \<Rightarrow> Some y)"

definition match_custom_rules :: "string \<Rightarrow> string \<Rightarrow> route_engine \<Rightarrow> route_result" where
  "match_custom_rules host ip re =
     (case first_result (custom_result host ip) (re_custom_rules re) of
        None \<Rightarrow> no_match | Some r \<Rightarrow> r)"

definition match_domain_rules :: "string \<Rightarrow> route_engine \<Rightarrow> route_result" where
  "match_domain_rules host re =
     (case re_exact_domain_map re host of
        Some a \<Rightarrow> \<lparr>rr_action = a, rr_rule_id = ''builtin_exact_'' @ host,
                   rr_match_type = ''builtin_domain_exact''\<rparr>
      | None \<Rightarrow>
          (case List.find (\<lambda>(s, a). has_suffix host s) (re_suffix_domain_list re) of
             Some (s, a) \<Rightarrow> \<lparr>rr_action = a, rr_rule_id = ''builtin_suffix_'' @ s,
                             rr_match_type = ''builtin_domain_suffix''\<rparr>
           | None \<Rightarrow> no_match))"

definition match_geoip :: "(string \<Rightarrow> mmdb_answer) \<Rightarrow> string \<Rightarrow> route_engine \<Rightarrow> route_result" where
  "match_geoip mmdb ip re =
     (if \<not> re_geoip_available re then no_match
      else if is_china mmdb (re_geoip_available re) ip
      then \<lparr>rr_action = Direct, rr_rule_id = ''geoip_cn'', rr_match_type = ''geoip''\<rparr>
      else \<lparr>rr_action = Proxy, rr_rule_id = ''geoip_international'', rr_match_type = ''geoip''\<rparr>)"

definition default_decision :: "route_engine \<Rightarrow> route_result" where
  "default_decision re =
     \<lparr>rr_action = re_default_action re, rr_rule_id = ''default'', rr_match_type = ''default''\<rparr>"

definition decide :: "(string \<Rightarrow> mmdb_answer) \<Rightarrow> string \<Rightarrow> string \<Rightarrow> route_engine \<Rightarrow> route_result" where
  "decide mmdb host ip re =
     (let r1 = match_custom_rules host ip re
      in if (rr_action r1 \<noteq> Proxy \<or> rr_rule_id r1 \<noteq> '''') \<and> rr_rule_id r1 \<noteq> '''' then r1
         else
           let r2 = match_domain_rules host re
           in if rr_rule_id r2 \<noteq> '''' then r2
              else
                let r3 = match_geoip mmdb ip re
                in if ip \<noteq> '''' \<and> rr_rule_id r3 \<noteq> '''' then r3 else default_decision re)"

section \<open>Operations on the rules\<close>

definition action_from_string :: "string \<Rightarrow> route_action" where
  "action_from_string s = (if s = ''direct'' then Direct else Proxy)"

definition engine_init ::
    "(string \<Rightarrow> rules_doc) \<Rightarrow> bool \<Rightarrow> string \<Rightarrow> string \<Rightarrow> string \<Rightarrow> string \<Rightarrow> route_engine \<Rightarrow> route_engine" where
  "engine_init fs geoip_opens builtin_path custom_path geoip_path default_action re =
     build_domain_index
       (load_custom_rules fs custom_path
         (load_builtin_rules fs builtin_path
           (re\<lparr>re_geoip_db_path := geoip_path, re_default_action := action_from_string default_action,
               re_geoip_available := geoip_opens\<rparr>)))"

definition add_custom_rule ::
    "(route_rule list \<Rightarrow> route_rule list) \<Rightarrow> route_rule \<Rightarrow> route_engine \<Rightarrow> route_engine" where
  "add_custom_rule srt rule re = re\<lparr>re_custom_rules := srt (re_custom_rules re @ [rule])\<rparr>"

fun remove_first :: "('a \<Rightarrow> bool) \<Rightarrow> 'a list \<Rightarrow> 'a list" where
  "remove_first p [] = []"
| "remove_first p (x # xs) = (if p x then xs else x # remove_first p xs)"

definition remove_custom_rule :: "string \<Rightarrow> route_engine \<Rightarrow> bool \<times> route_engine" where
  "remove_custom_rule rule_id re =
     (case List.find (\<lambda>r. ru_rule_id r = rule_id) (re_custom_rules re) of
        None \<Rightarrow> (False, re)
      | Some r \<Rightarrow>
          if \<not> ru_is_builtin r
          then (True, re\<lparr>re_custom_rules := remove_first (\<lambda>r. ru_rule_id r = rule_id) (re_custom_rules re)\<rparr>)
          else (False, re))"

definition get_all_rules :: "route_engine \<Rightarrow> route_rule list" where
  "get_all_rules re = re_builtin_rules re @ re_custom_rules re"

definition set_default_action :: "string \<Rightarrow> route_engine \<Rightarrow> route_engine" where
  "set_default_action action re = re\<lparr>re_default_action := action_from_string action\<rparr>"

definition reload_rules :: "(string \<Rightarrow> rules_doc) \<Rightarrow> route_engine \<Rightarrow> route_engine" where
  "reload_rules fs re =
     (let builtin_path = (if re_builtin_rules re = [] then '''' else ''reload'');
          custom_path = ''''
      in build_domain_index
           (load_custom_rules fs custom_path (load_builtin_rules fs builtin_path re)))"

section \<open>The rule manager\<close>

text \<open>
  Saving writes the custom rules to a temporary file and renames it over the target: \<open>opens\<close> and
  \<open>renames\<close> are the outcomes of the two system calls.
\<close>

definition raw_of_rule :: "route_rule \<Rightarrow> raw_rule" where
  "raw_of_rule r =
     \<lparr>raw_rule_id = Some (ru_rule_id r), raw_rule_type = Some (ru_rule_type r),
      raw_pattern = Some (ru_pattern r),
      raw_action = Some (if ru_action r = Direct then ''direct'' else ''proxy''),
      raw_priority = Some (ru_priority r), raw_enabled = Some (ru_enabled r)\<rparr>"

definition save_to_file ::
    "bool \<Rightarrow> bool \<Rightarrow> string \<Rightarrow> route_engine \<Rightarrow> (string \<Rightarrow> rules_doc) \<Rightarrow> bool \<times> (string \<Rightarrow> rules_doc)" where
  "save_to_file opens renames path re fs =
     (let doc = Rules (map (Some \<circ> raw_of_rule) (filter (\<lambda>r. \<not> ru_is_builtin r) (get_all_rules re)));
          tmp = path @ ''.tmp''
      in if \<not> opens then (False, fs)
         else if renames then (True, fs(path := doc, tmp := No_file))
         else (False, fs(tmp := doc)))"

definition manager_add_rule ::
    "(route_rule list \<Rightarrow> route_rule list) \<Rightarrow> bool \<Rightarrow> bool \<Rightarrow> route_rule \<Rightarrow> string \<Rightarrow> route_engine
     \<Rightarrow> (string \<Rightarrow> rules_doc) \<Rightarrow> bool \<times> route_engine \<times> (string \<Rightarrow> rules_doc)" where
  "manager_add_rule srt opens renames rule path re fs =
     (let re1 = add_custom_rule srt rule re
      in (True, re1, if path \<noteq> '''' then snd (save_to_file opens renames path re1 fs) else fs))"

definition manager_remove_rule ::
    "bool \<Rightarrow> bool \<Rightarrow> string \<Rightarrow> string \<Rightarrow> route_engine \<Rightarrow> (string \<Rightarrow> rules_doc)
     \<Rightarrow> bool \<times> route_engine \<times> (string \<Rightarrow> rules_doc)" where
  "manager_remove_rule opens renames rule_id path re fs =
     (case remove_custom_rule rule_id re of
        (True, re1) \<Rightarrow> (True, re1, if path \<noteq> '''' then snd (save_to_file opens renames path re1 fs) else fs)
      | (False, re1) \<Rightarrow> (False, re1, fs))"

definition manager_get_rules :: "route_engine \<Rightarrow> route_rule list" where
  "manager_get_rules re = get_all_rules re"

text \<open>The path argument is not used.\<close>

definition manager_reload_from_file ::
    "(string \<Rightarrow> rules_doc) \<Rightarrow> string \<Rightarrow> route_engine \<Rightarrow> bool \<times> route_engine" where
  "manager_reload_from_file fs path re = (True, reload_rules fs re)"

section \<open>DNS cache\<close>

record dns_entry =
  de_ip :: string
  de_expire_time :: time_point

definition dns_get :: "time_point \<Rightarrow> string \<Rightarrow> (string \<rightharpoonup> dns_entry) \<Rightarrow> string option \<times> (string \<rightharpoonup> dns_entry)" where
  "dns_get now domain cache =
     (case cache domain of
        None \<Rightarrow> (None, cache)
      | Some e \<Rightarrow> if now > de_expire_time e then (None, cache(domain := None))
                  else (Some (de_ip e), cache))"

definition dns_put :: "time_point \<Rightarrow> string \<Rightarrow> string \<Rightarrow> int \<Rightarrow> (string \<rightharpoonup> dns_entry) \<Rightarrow> (string \<rightharpoonup> dns_entry)" where
  "dns_put now domain ip ttl cache =
     cache(domain \<mapsto> \<lparr>de_ip = ip, de_expire_time = plus_secs now ttl\<rparr>)"

definition dns_clear :: "(string \<rightharpoonup> dns_entry) \<Rightarrow> (string \<rightharpoonup> dns_entry)" where
  "dns_clear cache = Map.empty"

lemma dns_get_put:
  "fst (dns_get now' d' (dns_put now d ip ttl cache))
   = (if d' = d then if now' > plus_secs now ttl then None else Some ip else fst (dns_get now' d' cache))"
  by (simp add: dns_get_def dns_put_def split: option.split)

section \<open>Domain matcher\<close>

record domain_matcher =
  dm_direct_exact :: "string set"
  dm_proxy_exact :: "string set"
  dm_suffix_list :: "(string \<times> bool) list"

definition dm_add_exact :: "string \<Rightarrow> bool \<Rightarrow> domain_matcher \<Rightarrow> domain_matcher" where
  "dm_add_exact domain is_direct dm =
     (if is_direct then dm\<lparr>dm_direct_exact := insert domain (dm_direct_exact dm)\<rparr>
      else dm\<lparr>dm_proxy_exact := insert domain (dm_proxy_exact dm)\<rparr>)"

definition dm_add_suffix :: "string \<Rightarrow> bool \<Rightarrow> domain_matcher \<Rightarrow> domain_matcher" where
  "dm_add_suffix s is_direct dm = dm\<lparr>dm_suffix_list := dm_suffix_list dm @ [(s, is_direct)]\<rparr>"

fun dm_load_entries :: "raw_rule option list \<Rightarrow> domain_matcher \<Rightarrow> domain_matcher" where
  "dm_load_entries [] dm = dm"
| "dm_load_entries (None # es) dm = dm"
| "dm_load_entries (Some r # es) dm =
     dm_load_entries es
       (if member_or '''' (raw_rule_type r) = ''domain_exact''
        then dm_add_exact (member_or '''' (raw_pattern r)) (member_or ''proxy'' (raw_action r) = ''direct'') dm
        else if member_or '''' (raw_rule_type r) = ''domain_suffix''
        then dm_add_suffix (member_or '''' (raw_pattern r)) (member_or ''proxy'' (raw_action r) = ''direct'') dm
        else dm)"

definition dm_load_builtin_rules :: "(string \<Rightarrow> rules_doc) \<Rightarrow> string \<Rightarrow> domain_matcher \<Rightarrow> domain_matcher" where
  "dm_load_builtin_rules fs path dm =
     (case fs path of Rules es \<Rightarrow> dm_load_entries es dm | _ \<Rightarrow> dm)"

definition dm_match :: "string \<Rightarrow> domain_matcher \<Rightarrow> bool option" where
  "dm_match domain dm =
     (if domain \<in> dm_direct_exact dm then Some True
      else if domain \<in> dm_proxy_exact dm then Some False
      else first_result (\<lambda>(s, direct). if has_suffix domain s then Some direct else None) (dm_suffix_list dm))"

definition dm_clear :: "domain_matcher \<Rightarrow> domain_matcher" where
  "dm_clear dm = \<lparr>dm_direct_exact = {}, dm_proxy_exact = {}, dm_suffix_list = []\<rparr>"

section \<open>First match\<close>

lemma first_result_Some:
  "first_result f xs = Some y \<longleftrightarrow> (\<exists>us x vs. xs = us @ x # vs \<and> (\<forall>u \<in> set us. f u = None) \<and> f x = Some y)"
proof
  show "first_result f xs = Some y \<Longrightarrow> \<exists>us x vs. xs = us @ x # vs \<and> (\<forall>u \<in> set us. f u = None) \<and> f x = Some y"
  proof (induction xs)
    case (Cons a xs)
    show ?case
    proof (cases "f a")
      case None
      with Cons obtain us x vs where "xs = us @ x # vs" "\<forall>u \<in> set us. f u = None" "f x = Some y" by auto
      with None have "a # xs = (a # us) @ x # vs \<and> (\<forall>u \<in> set (a # us). f u = None) \<and> f x = Some y" by simp
      then show ?thesis by blast
    next
      case (Some z)
      with Cons.prems have "a # xs = [] @ a # xs \<and> (\<forall>u \<in> set []. f u = None) \<and> f a = Some y" by simp
      then show ?thesis by blast
    qed
  qed simp
next
  have skip: "\<forall>u \<in> set us. f u = None \<Longrightarrow> first_result f (us @ ws) = first_result f ws" for us ws
    by (induction us) auto
  assume "\<exists>us x vs. xs = us @ x # vs \<and> (\<forall>u \<in> set us. f u = None) \<and> f x = Some y"
  then show "first_result f xs = Some y" by (elim exE conjE) (simp add: skip)
qed

lemma first_result_None: "first_result f xs = None \<longleftrightarrow> (\<forall>x \<in> set xs. f x = None)"
  by (induction xs) (simp_all split: option.split)

text \<open>On a list in descending order of a key, the first match has the largest key of all matches.\<close>

lemma first_result_largest:
  assumes "sorted_wrt (\<lambda>a b. k b \<le> (k a :: int)) xs" "first_result f xs = Some y"
  shows "\<exists>x \<in> set xs. f x = Some y \<and> (\<forall>z \<in> set xs. f z \<noteq> None \<longrightarrow> k z \<le> k x)"
proof -
  obtain us x vs where xs: "xs = us @ x # vs" "\<forall>u \<in> set us. f u = None" "f x = Some y"
    using assms(2) unfolding first_result_Some by blast
  have "\<forall>z \<in> set vs. k z \<le> k x"
    using assms(1) by (simp add: xs(1) sorted_wrt_append)
  with xs(2) have "\<forall>z \<in> set xs. f z \<noteq> None \<longrightarrow> k z \<le> k x" by (auto simp: xs(1))
  then show ?thesis using xs(1,3) by (intro bexI [of _ x]) simp_all
qed

section \<open>The domain index as a search\<close>

definition exact_rule :: "string \<Rightarrow> route_rule \<Rightarrow> bool" where
  "exact_rule host r \<longleftrightarrow> ru_enabled r \<and> ru_rule_type r = ''domain_exact'' \<and> ru_pattern r = host"

definition suffix_rule :: "string \<Rightarrow> route_rule \<Rightarrow> bool" where
  "suffix_rule host r \<longleftrightarrow>
     ru_enabled r \<and> ru_rule_type r = ''domain_suffix'' \<and> has_suffix host (ru_pattern r)"

lemma fold_index_rule:
  "fst (fold index_rule rs ix) host
     = (case List.find (exact_rule host) (rev rs) of Some r \<Rightarrow> Some (ru_action r) | None \<Rightarrow> fst ix host)"
  "snd (fold index_rule rs ix)
     = snd ix @ map (\<lambda>r. (ru_pattern r, ru_action r))
         (filter (\<lambda>r. ru_enabled r \<and> ru_rule_type r = ''domain_suffix'') rs)"
proof (induction rs arbitrary: ix rule: rev_induct)
  case (snoc r rs)
  { case 1 then show ?case using snoc by (simp add: index_rule_def exact_rule_def) }
  { case 2 then show ?case using snoc by (simp add: index_rule_def) }
qed simp_all

lemma find_suffix:
  "List.find (\<lambda>(s, a). has_suffix host s)
     (map (\<lambda>r. (ru_pattern r, ru_action r))
       (filter (\<lambda>r. ru_enabled r \<and> ru_rule_type r = ''domain_suffix'') rs))
   = map_option (\<lambda>r. (ru_pattern r, ru_action r)) (List.find (suffix_rule host) rs)"
  by (induction rs) (simp_all add: suffix_rule_def)

lemma index_of_engine:
  "re_exact_domain_map (build_domain_index re) host
     = map_option ru_action (List.find (exact_rule host) (rev (get_all_rules re)))"
  "List.find (\<lambda>(s, a). has_suffix host s) (re_suffix_domain_list (build_domain_index re))
     = map_option (\<lambda>r. (ru_pattern r, ru_action r)) (List.find (suffix_rule host) (get_all_rules re))"
proof -
  have "build_domain_index re = re\<lparr>re_exact_domain_map := fst (fold index_rule (get_all_rules re) (Map.empty, [])),
      re_suffix_domain_list := snd (fold index_rule (get_all_rules re) (Map.empty, []))\<rparr>"
    by (simp add: build_domain_index_def Let_def get_all_rules_def)
  then show "re_exact_domain_map (build_domain_index re) host
     = map_option ru_action (List.find (exact_rule host) (rev (get_all_rules re)))"
    "List.find (\<lambda>(s, a). has_suffix host s) (re_suffix_domain_list (build_domain_index re))
     = map_option (\<lambda>r. (ru_pattern r, ru_action r)) (List.find (suffix_rule host) (get_all_rules re))"
    by (simp_all add: fold_index_rule find_suffix split: option.split)
qed

section \<open>Sorting the custom rules\<close>

text \<open>
  What the code relies on of \<^verbatim>\<open>std::sort\<close> with its comparison: a permutation in descending order of
  priority. The order of rules of equal priority is not specified.
\<close>

definition std_sort :: "(route_rule list \<Rightarrow> route_rule list) \<Rightarrow> bool" where
  "std_sort srt \<longleftrightarrow>
     (\<forall>rs. mset (srt rs) = mset rs \<and> sorted_wrt (\<lambda>a b. ru_priority b \<le> ru_priority a) (srt rs))"

lemma std_sort_stable: "std_sort (sort_key (\<lambda>r. - ru_priority r))"
proof -
  have "sorted_wrt (\<lambda>a b. ru_priority b \<le> ru_priority a) (sort_key (\<lambda>r. - ru_priority r) rs)" for rs
    using sorted_sort_key [of "\<lambda>r. - ru_priority r" rs] by (simp add: sorted_map)
  moreover have "mset (sort_key (\<lambda>r. - ru_priority r) rs) = mset rs" for rs by simp
  ultimately show ?thesis unfolding std_sort_def by blast
qed

lemma add_custom_rules:
  assumes "std_sort srt"
  shows "mset (re_custom_rules (fold (add_custom_rule srt) rules re)) = mset (re_custom_rules re) + mset rules"
    and "rules \<noteq> [] \<or> sorted_wrt (\<lambda>a b. ru_priority b \<le> ru_priority a) (re_custom_rules re) \<Longrightarrow>
      sorted_wrt (\<lambda>a b. ru_priority b \<le> ru_priority a) (re_custom_rules (fold (add_custom_rule srt) rules re))"
proof (induction rules rule: rev_induct)
  case (snoc r rules)
  { case 1 then show ?case using snoc assms by (simp add: add_custom_rule_def std_sort_def) }
  { case 2 then show ?case using assms by (simp add: add_custom_rule_def std_sort_def) }
qed simp_all

section \<open>Properties\<close>

text \<open>
  custom rules added at run time decide before everything else and by priority: when some of
  them matches, the decision is that of a matching rule that no other matching rule exceeds in
  priority, whatever order sorting leaves equal priorities in.
\<close>

theorem custom_rules_by_priority:
  assumes "std_sort srt" "\<forall>r \<in> set rules. ru_rule_id r \<noteq> ''''"
    and "\<exists>r \<in> set rules. custom_result host ip r \<noteq> None"
  shows "\<exists>r \<in> set rules. custom_result host ip r
      = Some (decide mmdb host ip (fold (add_custom_rule srt) rules new_route_engine))
    \<and> (\<forall>z \<in> set rules. custom_result host ip z \<noteq> None \<longrightarrow> ru_priority z \<le> ru_priority r)"
proof -
  let ?re = "fold (add_custom_rule srt) rules new_route_engine"
  have "mset (re_custom_rules ?re) = mset rules"
    using add_custom_rules(1) [OF assms(1)] by (simp add: new_route_engine_def)
  then have set: "set (re_custom_rules ?re) = set rules" by (rule mset_eq_setD)
  have sorted: "sorted_wrt (\<lambda>a b. ru_priority b \<le> ru_priority a) (re_custom_rules ?re)"
    using add_custom_rules(2) [OF assms(1), of rules new_route_engine] by (simp add: new_route_engine_def)
  have "first_result (custom_result host ip) (re_custom_rules ?re) \<noteq> None"
    using assms(3) set by (simp add: first_result_None)
  then obtain res where res: "first_result (custom_result host ip) (re_custom_rules ?re) = Some res" by blast
  obtain r where r: "r \<in> set rules" "custom_result host ip r = Some res"
    "\<forall>z \<in> set rules. custom_result host ip z \<noteq> None \<longrightarrow> ru_priority z \<le> ru_priority r"
    using first_result_largest [OF sorted res] set by blast
  have "rr_rule_id res = ru_rule_id r"
    using r(2) by (auto simp: custom_result_def split: if_splits)
  then have "rr_rule_id res \<noteq> ''''" using assms(2) r(1) by simp
  then have "decide mmdb host ip ?re = res" by (simp add: decide_def match_custom_rules_def res)
  with r show ?thesis by blast
qed

theorem custom_rules_by_priority_witness:
  "\<exists>r \<in> set [\<lparr>ru_rule_id = ''low'', ru_rule_type = ''domain_suffix'', ru_pattern = ''.com'',
        ru_action = Proxy, ru_priority = 1, ru_enabled = True, ru_is_builtin = False\<rparr>].
     custom_result ''a.com'' '''' r = Some (decide (\<lambda>_. undefined) ''a.com'' ''''
       (fold (add_custom_rule (sort_key (\<lambda>r. - ru_priority r)))
         [\<lparr>ru_rule_id = ''low'', ru_rule_type = ''domain_suffix'', ru_pattern = ''.com'',
           ru_action = Proxy, ru_priority = 1, ru_enabled = True, ru_is_builtin = False\<rparr>]
         new_route_engine))"
  using custom_rules_by_priority [OF std_sort_stable,
      of "[\<lparr>ru_rule_id = ''low'', ru_rule_type = ''domain_suffix'', ru_pattern = ''.com'',
           ru_action = Proxy, ru_priority = 1, ru_enabled = True, ru_is_builtin = False\<rparr>]"
         "''a.com''" "''''" "\<lambda>_. undefined"]
  by (simp add: custom_result_def has_suffix_def)

text \<open>
  C19: with no matching custom rule the decision is that of the last enabled exact rule for the
  host over the built-in rules followed by the indexed custom rules; without one, of the first
  enabled suffix rule that matches; without one, of the country of the address where an address and
  the database are at hand; and otherwise the default.
\<close>

theorem decide_precedence:
  assumes "\<forall>r \<in> set (re_custom_rules re). custom_result host ip r = None"
  shows "rr_action (decide mmdb host ip (build_domain_index re)) =
    (case List.find (exact_rule host) (rev (get_all_rules re)) of
       Some r \<Rightarrow> ru_action r
     | None \<Rightarrow>
         case List.find (suffix_rule host) (get_all_rules re) of
           Some r \<Rightarrow> ru_action r
         | None \<Rightarrow>
             if ip \<noteq> '''' \<and> re_geoip_available re
             then if is_china mmdb True ip then Direct else Proxy
             else re_default_action re)"
proof -
  have "re_custom_rules (build_domain_index re) = re_custom_rules re"
    "re_geoip_available (build_domain_index re) = re_geoip_available re"
    "re_default_action (build_domain_index re) = re_default_action re"
    by (simp_all add: build_domain_index_def Let_def)
  moreover from this have "match_custom_rules host ip (build_domain_index re) = no_match"
    using assms by (simp add: match_custom_rules_def first_result_None [THEN iffD2])
  ultimately show ?thesis
    by (simp add: decide_def match_domain_rules_def index_of_engine match_geoip_def
        default_decision_def no_match_def Let_def split: option.split)
qed

theorem decide_precedence_witness:
  "rr_action (decide (\<lambda>_. undefined) ''www.baidu.com'' ''''
     (build_domain_index (new_route_engine\<lparr>re_builtin_rules :=
       [\<lparr>ru_rule_id = ''b'', ru_rule_type = ''domain_suffix'', ru_pattern = ''.com'', ru_action = Direct,
         ru_priority = 100, ru_enabled = True, ru_is_builtin = True\<rparr>]\<rparr>))) = Direct"
  using decide_precedence [of "new_route_engine\<lparr>re_builtin_rules :=
       [\<lparr>ru_rule_id = ''b'', ru_rule_type = ''domain_suffix'', ru_pattern = ''.com'', ru_action = Direct,
         ru_priority = 100, ru_enabled = True, ru_is_builtin = True\<rparr>]\<rparr>" "''www.baidu.com''" "''''" "\<lambda>_. undefined"]
  by (simp add: new_route_engine_def get_all_rules_def exact_rule_def suffix_rule_def has_suffix_def)

text \<open>
  reloading the rules forgets them: no custom rule survives, no built-in rule either unless a
  file named reload in the working directory holds some, and every host then gets the default.
\<close>

theorem reload_forgets_rules:
  assumes "fs ''reload'' = No_file"
  shows "get_all_rules (reload_rules fs re) = []
    \<and> decide mmdb host '''' (reload_rules fs re) = default_decision re"
  by (simp add: assms reload_rules_def load_builtin_rules_def load_custom_rules_def build_domain_index_def
      get_all_rules_def decide_def match_custom_rules_def match_domain_rules_def default_decision_def
      no_match_def Let_def)

theorem reload_forgets_rules_witness:
  "get_all_rules (reload_rules (\<lambda>_. No_file) new_route_engine) = []"
  using reload_forgets_rules [of "\<lambda>_. No_file" new_route_engine] by simp

text \<open>
  saving and loading custom rules is a round trip: what a successful save wrote, a later load
  of the file restores, rule for rule and in order.
\<close>

theorem save_load_custom_rules:
  assumes "save_to_file opens renames path re fs = (True, fs')" "path \<noteq> ''''"
    and "\<forall>r \<in> set (re_builtin_rules re). ru_is_builtin r"
    and "\<forall>r \<in> set (re_custom_rules re). \<not> ru_is_builtin r"
  shows "re_custom_rules (load_custom_rules fs' path re') = re_custom_rules re"
proof -
  have raw: "rule_of_raw False (raw_of_rule r) = r" if "\<not> ru_is_builtin r" for r
    using that
    by (cases r; cases "ru_action r") (simp_all add: rule_of_raw_def raw_of_rule_def member_or_def)
  have entries: "rules_of_entries False (map (Some \<circ> raw_of_rule) rs) = rs"
    if "\<forall>r \<in> set rs. \<not> ru_is_builtin r" for rs
    using that raw by (induction rs) auto
  have "path \<noteq> path @ ''.tmp''" by simp
  with assms show ?thesis
    by (auto simp: save_to_file_def load_custom_rules_def get_all_rules_def Let_def entries
        split: if_splits)
qed

theorem save_load_custom_rules_witness:
  "re_custom_rules (load_custom_rules
     (snd (save_to_file True True ''rules.json'' (new_route_engine\<lparr>re_custom_rules :=
       [\<lparr>ru_rule_id = ''r'', ru_rule_type = ''domain_exact'', ru_pattern = ''a.com'', ru_action = Proxy,
         ru_priority = 7, ru_enabled = False, ru_is_builtin = False\<rparr>]\<rparr>) (\<lambda>_. No_file)))
     ''rules.json'' new_route_engine)
   = [\<lparr>ru_rule_id = ''r'', ru_rule_type = ''domain_exact'', ru_pattern = ''a.com'', ru_action = Proxy,
       ru_priority = 7, ru_enabled = False, ru_is_builtin = False\<rparr>]"
proof -
  let ?re = "new_route_engine\<lparr>re_custom_rules :=
       [\<lparr>ru_rule_id = ''r'', ru_rule_type = ''domain_exact'', ru_pattern = ''a.com'', ru_action = Proxy,
         ru_priority = 7, ru_enabled = False, ru_is_builtin = False\<rparr>]\<rparr>"
  have "save_to_file True True ''rules.json'' ?re (\<lambda>_. No_file)
      = (True, snd (save_to_file True True ''rules.json'' ?re (\<lambda>_. No_file)))"
    by (simp add: save_to_file_def Let_def)
  from save_load_custom_rules [OF this, of new_route_engine] show ?thesis
    by (simp add: new_route_engine_def)
qed

text \<open>
  A custom rule read from the file at start is also in the domain index, and removing it does not
  rebuild the index: the host is still routed by the removed rule.
\<close>

lemma removed_rule_still_routes:
  "(let re = build_domain_index (new_route_engine\<lparr>re_custom_rules :=
       [\<lparr>ru_rule_id = ''r'', ru_rule_type = ''domain_exact'', ru_pattern = ''a.com'', ru_action = Direct,
         ru_priority = 7, ru_enabled = True, ru_is_builtin = False\<rparr>]\<rparr>);
        (removed, re') = remove_custom_rule ''r'' re
    in removed \<and> re_custom_rules re' = [] \<and> re_default_action re' = Proxy
       \<and> rr_action (decide mmdb ''a.com'' '''' re') = Direct)"
  by (simp add: build_domain_index_def index_rule_def remove_custom_rule_def decide_def
      match_custom_rules_def match_domain_rules_def new_route_engine_def no_match_def Let_def)

end
