(* ===== verification/Session_Protocol.thy ===== *)
theory Session_Protocol
  imports Cpp_Strings
begin

text \<open>
  The wire formats of \<^verbatim>\<open>src/src/proxy_core/session.cpp\<close> and \<^verbatim>\<open>protocol.h\<close>: SOCKS5 greeting,
  user/password message and request, the HTTP CONNECT request with basic credentials, and the
  request the gateway sends upstream. A byte is a \<open>char\<close>; a parser gets the bytes of one read.
\<close>

section \<open>Constants\<close>

definition byte :: "nat \<Rightarrow> char" where
  "byte n = char_of n"

definition byte_val :: "char \<Rightarrow> nat" where
  "byte_val c = of_char c"

abbreviation (input) SOCKS_VERSION :: nat where "SOCKS_VERSION \<equiv> 5"
abbreviation (input) AUTH_NONE :: nat where "AUTH_NONE \<equiv> 0"
abbreviation (input) AUTH_USERPASS :: nat where "AUTH_USERPASS \<equiv> 2"
abbreviation (input) AUTH_NO_ACCEPTABLE :: nat where "AUTH_NO_ACCEPTABLE \<equiv> 255"
abbreviation (input) CMD_CONNECT :: nat where "CMD_CONNECT \<equiv> 1"
abbreviation (input) ATYP_IPV4 :: nat where "ATYP_IPV4 \<equiv> 1"
abbreviation (input) ATYP_DOMAIN :: nat where "ATYP_DOMAIN \<equiv> 3"
abbreviation (input) ATYP_IPV6 :: nat where "ATYP_IPV6 \<equiv> 4"

lemma byte_val_lt [simp]: "byte_val c < 256"
  by (simp add: byte_val_def)

lemma byte_val_byte [simp]: "byte_val (byte n) = n mod 256"
  by (simp add: byte_val_def byte_def)

lemma byte_byte_val [simp]: "byte (byte_val c) = c"
  by (simp add: byte_val_def byte_def)

section \<open>SOCKS5 messages of the client\<close>

text \<open>The greeting: malformed, not complete in this read, or complete, with or without method 2.\<close>

datatype greeting = Greeting_invalid | Greeting_short | Greeting bool

definition parse_greeting :: "string \<Rightarrow> greeting" where
  "parse_greeting data =
     (if length data < 2 \<or> byte_val (data ! 0) \<noteq> SOCKS_VERSION then Greeting_invalid
      else
        let nmethods = byte_val (data ! 1)
        in if length data < 2 + nmethods then Greeting_short
           else Greeting (AUTH_USERPASS \<in> byte_val ` set (take nmethods (drop 2 data))))"

datatype auth_message = Auth_invalid | Auth_short | Auth_message string string

definition parse_auth :: "string \<Rightarrow> auth_message" where
  "parse_auth data =
     (if length data < 2 \<or> byte_val (data ! 0) \<noteq> 1 then Auth_invalid
      else
        let ulen = byte_val (data ! 1)
        in if length data < 2 + ulen + 1 then Auth_short
           else
             let plen = byte_val (data ! (2 + ulen))
             in if length data < 2 + ulen + 1 + plen then Auth_short
                else Auth_message (substr 2 ulen data) (substr (2 + ulen + 1) plen data))"

text \<open>
  The request. The textual form of an IPv4 and an IPv6 address is an argument (\<open>v4\<close>, \<open>v6\<close>, from
  the bytes). A domain request of exactly four bytes takes its length byte from an older read; it is
  incomplete whatever that byte is.
\<close>

datatype request =
  Request_invalid | Request_unsupported | Request_address_type | Request_short
| Connect_request string "16 word"

definition port_of :: "char \<Rightarrow> char \<Rightarrow> 16 word" where
  "port_of hi lo = word_of_nat (byte_val hi * 256 + byte_val lo)"

definition parse_request :: "(string \<Rightarrow> string) \<Rightarrow> (string \<Rightarrow> string) \<Rightarrow> string \<Rightarrow> request" where
  "parse_request v4 v6 data =
     (if length data < 4 \<or> byte_val (data ! 0) \<noteq> SOCKS_VERSION then Request_invalid
      else if byte_val (data ! 1) \<noteq> CMD_CONNECT then Request_unsupported
      else
        let atyp = byte_val (data ! 3)
        in if atyp = ATYP_IPV4 then
             (if length data < 10 then Request_short
              else Connect_request (v4 (substr 4 4 data)) (port_of (data ! 8) (data ! 9)))
           else if atyp = ATYP_DOMAIN then
             (case drop 4 data of
                [] \<Rightarrow> Request_short
              | len # _ \<Rightarrow>
                  let domain_len = byte_val len
                  in if length data < 5 + domain_len + 2 then Request_short
                     else Connect_request (substr 5 domain_len data)
                            (port_of (data ! (5 + domain_len)) (data ! (5 + domain_len + 1))))
           else if atyp = ATYP_IPV6 then
             (if length data < 22 then Request_short
              else Connect_request (v6 (substr 4 16 data)) (port_of (data ! 20) (data ! 21)))
           else Request_address_type)"

section \<open>Messages of the gateway\<close>

definition method_reply :: "bool \<Rightarrow> string" where
  "method_reply support_auth =
     [byte SOCKS_VERSION, byte (if support_auth then AUTH_USERPASS else AUTH_NO_ACCEPTABLE)]"

definition auth_reply :: "bool \<Rightarrow> string" where
  "auth_reply authenticated = [byte 1, byte (if authenticated then 0 else 1)]"

definition error_reply :: "nat \<Rightarrow> string" where
  "error_reply code =
     map byte [SOCKS_VERSION, code, 0, ATYP_IPV4, 0, 0, 0, 0, 0, 0]"

definition port_bytes :: "16 word \<Rightarrow> string" where
  "port_bytes p = [byte (unat p div 256), byte (unat p mod 256)]"

definition success_reply :: "string \<Rightarrow> 16 word \<Rightarrow> string" where
  "success_reply bound_bytes bound_port =
     map byte [SOCKS_VERSION, 0, 0, ATYP_IPV4] @ bound_bytes @ port_bytes bound_port"

definition upstream_greeting :: string where
  "upstream_greeting = map byte [SOCKS_VERSION, 1, AUTH_NONE]"

text \<open>The length byte is the low byte of the host's length; the host follows in full.\<close>

definition upstream_connect :: "string \<Rightarrow> 16 word \<Rightarrow> string" where
  "upstream_connect host port =
     map byte [SOCKS_VERSION, CMD_CONNECT, 0, ATYP_DOMAIN]
     @ [byte (length host mod 256)] @ host @ port_bytes port"

section \<open>HTTP CONNECT\<close>

definition is_http_connect :: "string \<Rightarrow> bool" where
  "is_http_connect data \<longleftrightarrow> length data \<ge> 8 \<and> take 8 data = ''CONNECT ''"

definition crlf :: string where
  "crlf = [char_of (13::nat), char_of (10::nat)]"

definition basic_header :: string where
  "basic_header = ''Proxy-Authorization: Basic ''"

text \<open>The credentials of the header, where it is there and its line ends: user and password.\<close>

definition http_credentials :: "string \<Rightarrow> (string \<times> string) option" where
  "http_credentials sv =
     (case find_sub basic_header 0 sv of
        None \<Rightarrow> None
      | Some pos \<Rightarrow>
          let cred_start = pos + 27
          in case find_sub crlf cred_start sv of
               None \<Rightarrow> None
             | Some line_end \<Rightarrow>
                 let decoded = basic_decode (substr cred_start (line_end - cred_start) sv)
                 in case find_char CHR '':'' 0 decoded of
                      None \<Rightarrow> None
                    | Some colon \<Rightarrow> Some (take colon decoded, drop (colon + 1) decoded))"

text \<open>
  \<open>Http_bad\<close>: answered with 400. \<open>Http_throws\<close>: the exception \<^verbatim>\<open>std::stoi\<close> throws for the port.
\<close>

datatype http_request = Http_bad | Http_throws | Http_request string "16 word" "(string \<times> string) option"

definition parse_http_connect :: "string \<Rightarrow> http_request" where
  "parse_http_connect sv =
     (case find_char CHR '' '' 0 sv of
        None \<Rightarrow> Http_bad
      | Some sp \<Rightarrow>
          let host_start = sp + 1
          in case find_char CHR '' '' host_start sv of
               None \<Rightarrow> Http_bad
             | Some host_end \<Rightarrow>
                 let host_port = substr host_start (host_end - host_start) sv
                 in case rfind_char CHR '':'' host_port of
                      None \<Rightarrow> Http_bad
                    | Some colon \<Rightarrow>
                        (case stoi (drop (colon + 1) host_port) of
                           None \<Rightarrow> Http_throws
                         | Some port \<Rightarrow>
                             Http_request (take colon host_port) (word_of_int port) (http_credentials sv)))"

definition http_200 :: string where
  "http_200 = ''HTTP/1.1 200 Connection established'' @ crlf @ crlf"

definition http_400 :: string where
  "http_400 = ''HTTP/1.1 400 Bad Request'' @ crlf @ crlf"

definition http_407 :: string where
  "http_407 = ''HTTP/1.1 407 Proxy Authentication Required'' @ crlf
     @ ''Proxy-Authenticate: Basic realm=\"proxy\"'' @ crlf @ crlf"

definition http_502 :: string where
  "http_502 = ''HTTP/1.1 502 Bad Gateway'' @ crlf @ crlf"

section \<open>Round trips\<close>

lemma port_of_bytes: "port_of (byte (unat p div 256)) (byte (unat p mod 256)) = p"
proof -
  have "unat p < 65536" using unsigned_less [of p, where ?'a = nat] by simp
  then have "unat p div 256 < 256" by (simp add: less_mult_imp_div_less)
  then have "unat p div 256 mod 256 * 256 + unat p mod 256 mod 256 = unat p" by simp
  then show ?thesis by (simp add: port_of_def)
qed

lemma parse_upstream_connect:
  "parse_request v4 v6 (upstream_connect host port) =
     (let n = length host mod 256
      in Connect_request (take n host)
           (port_of ((host @ port_bytes port) ! n) ((host @ port_bytes port) ! (n + 1))))"
proof -
  let ?head = "map byte [SOCKS_VERSION, CMD_CONNECT, 0, ATYP_DOMAIN]"
  let ?n = "length host mod 256"
  let ?rest = "host @ port_bytes port"
  have up: "upstream_connect host port = ?head @ byte ?n # ?rest"
    by (simp add: upstream_connect_def)
  have len: "length ?rest = length host + 2" by (simp add: port_bytes_def)
  have nth: "(?head @ byte ?n # ?rest) ! (5 + k) = ?rest ! k" for k by simp
  have n: "?n \<le> length host" by simp
  have "parse_request v4 v6 (?head @ byte ?n # ?rest)
      = Connect_request (substr 5 ?n (?head @ byte ?n # ?rest))
          (port_of ((?head @ byte ?n # ?rest) ! (5 + ?n)) ((?head @ byte ?n # ?rest) ! (5 + ?n + 1)))"
    using n len by (simp add: parse_request_def Let_def del: nth_Cons_numeral)
  moreover have "substr 5 ?n (?head @ byte ?n # ?rest) = take ?n host"
    using n by (simp add: substr_def)
  ultimately show ?thesis unfolding up using nth [of ?n] nth [of "?n + 1"] by (simp add: Let_def)
qed

text \<open>
  the request the gateway sends upstream carries host and port exactly, for hosts of fewer than
  256 characters: read as a SOCKS5 request it names the same host and the same port.
\<close>

theorem upstream_connect_roundtrip:
  assumes "length host < 256"
  shows "parse_request v4 v6 (upstream_connect host port) = Connect_request host port"
proof -
  have "(host @ port_bytes port) ! length host = byte (unat port div 256)"
    "(host @ port_bytes port) ! (length host + 1) = byte (unat port mod 256)"
    by (simp_all add: port_bytes_def nth_append)
  with assms show ?thesis by (simp add: parse_upstream_connect Let_def port_of_bytes)
qed

theorem upstream_connect_roundtrip_witness:
  "parse_request id id (upstream_connect ''example.com'' 443) = Connect_request ''example.com'' 443"
  by (rule upstream_connect_roundtrip) simp

text \<open>
  a host of 256 characters or more, which an HTTP CONNECT can name, is sent upstream with a
  truncated length: the request then names a proper prefix of the host as its host.
\<close>

theorem long_host_is_truncated:
  assumes "256 \<le> length host"
  shows "\<exists>port'. parse_request v4 v6 (upstream_connect host port)
      = Connect_request (take (length host mod 256) host) port'
    \<and> take (length host mod 256) host \<noteq> host"
proof -
  have "length (take (length host mod 256) host) < length host"
    using assms by (simp add: order.strict_trans2 [OF mod_less_divisor])
  then have "take (length host mod 256) host \<noteq> host" by (metis order_less_irrefl)
  then show ?thesis by (simp add: parse_upstream_connect Let_def)
qed

theorem long_host_is_truncated_witness:
  "\<exists>port'. parse_request id id (upstream_connect (replicate 300 CHR ''a'') 443)
    = Connect_request (replicate 44 CHR ''a'') port'"
  using long_host_is_truncated [of "replicate 300 CHR ''a''" id id 443]
  by (auto simp: min_def)

end
