(* ===== verification/Session.thy ===== *)
theory Session
  imports Session_Protocol Route_Engine Load_Balancer Connection_Admitter Connection_Registry Metrics
begin

text \<open>
  \<^verbatim>\<open>src/src/proxy_core/session.cpp\<close>: one client connection as a state machine. Every asynchronous
  operation the code starts is an entry of \<open>s_pending\<close>; a step completes one of them and runs its
  handler. Any pending operation may complete next, with any outcome that fits it: this covers every
  order the network produces and the failed completions after the sockets are closed. Handlers are
  atomic. \<open>None\<close> is an exception that no handler catches, which ends the program.
\<close>

section \<open>State\<close>

datatype session_route_action = Via_direct | Via_proxy

text \<open>
  The pending operations, named after the method whose read, write, resolve or connect is under
  way. \<open>Wr_close\<close> is a response after which the session is closed with the reason; \<open>Wr_established\<close>
  the success response after which the relay starts.
\<close>

datatype pending =
  Rd_handshake | Rd_methods | Wr_method bool
| Rd_auth | Rd_auth_rest | Wr_auth bool
| Rd_request | Rd_request_rest
| Wr_close string
| Resolve_direct | Connect_direct
| Resolve_upstream | Connect_upstream
| Wr_greeting | Rd_greeting | Wr_connect | Rd_connect
| Wr_established string
| Rd_client | Wr_remote | Rd_remote | Wr_client

text \<open>
  Outcomes. \<open>Resolved\<close>: the text of the first address, if there is one. \<open>Connected\<close>: the four bytes
  and the port of the local endpoint, \<open>None\<close> where it is an IPv6 endpoint.
\<close>

datatype completion =
  Failed | Read string | Written | Resolved "string option" | Connected "(string \<times> 16 word) option"

record session =
  s_is_http :: bool
  s_target_host :: string
  s_target_port :: "16 word"
  s_resolved_ip :: string
  s_http_username :: string
  s_http_password :: string
  s_session_id :: string
  s_username :: string
  s_client_addr :: string
  s_bytes_up :: "64 word"
  s_bytes_down :: "64 word"
  s_tunnel_active :: bool
  s_route_action :: session_route_action
  s_selected_node_tag :: string
  s_admitted :: bool
  s_local :: "(string \<times> 16 word) option"
  s_pending :: "pending list"
  s_to_client :: "string list"
  s_to_remote :: "string list"

definition new_session :: "string \<Rightarrow> session" where
  "new_session sid = \<lparr>s_is_http = False, s_target_host = '''', s_target_port = 0, s_resolved_ip = '''',
     s_http_username = '''', s_http_password = '''', s_session_id = sid, s_username = '''',
     s_client_addr = '''', s_bytes_up = 0, s_bytes_down = 0, s_tunnel_active = False,
     s_route_action = Via_direct, s_selected_node_tag = '''', s_admitted = False, s_local = None,
     s_pending = [], s_to_client = [], s_to_remote = []\<rparr>"

text \<open>The components a session works with.\<close>

record gateway =
  gw_overload :: overload_protector
  gw_limiter :: rate_limiter
  gw_admitter :: "unit connection_admitter"
  gw_registry :: connection_registry
  gw_balancer :: load_balancer
  gw_metrics :: metrics_collector
  gw_concurrency :: concurrency_metrics

text \<open>
  What a session reads: the user manager's check of a name and a password, the route engine's
  decision, the textual form of addresses, the operating system, the enabled nodes and their health.
\<close>

record env =
  en_auth :: "string \<Rightarrow> string \<Rightarrow> bool"
  en_decide :: "string \<Rightarrow> string \<Rightarrow> route_result"
  en_v4 :: "string \<Rightarrow> string"
  en_v6 :: "string \<Rightarrow> string"
  en_rnd :: "rat \<Rightarrow> rat"
  en_os :: os_view
  en_tags :: "string list"
  en_health :: node_health_checker

type_synonym world = "gateway \<times> session"

section \<open>Starting operations\<close>

definition push_op :: "pending \<Rightarrow> session \<Rightarrow> session" where
  "push_op p s = s\<lparr>s_pending := s_pending s @ [p]\<rparr>"

definition write_client :: "string \<Rightarrow> pending \<Rightarrow> session \<Rightarrow> session" where
  "write_client bytes p s = push_op p (s\<lparr>s_to_client := s_to_client s @ [bytes]\<rparr>)"

definition write_remote :: "string \<Rightarrow> pending \<Rightarrow> session \<Rightarrow> session" where
  "write_remote bytes p s = push_op p (s\<lparr>s_to_remote := s_to_remote s @ [bytes]\<rparr>)"

definition client_ip_of :: "session \<Rightarrow> string" where
  "client_ip_of s =
     (case rfind_char CHR '':'' (s_client_addr s) of
        None \<Rightarrow> s_client_addr s | Some i \<Rightarrow> take i (s_client_addr s))"

section \<open>Closing\<close>

text \<open>
  The sockets are closed, which makes pending operations fail; the admitter's release may invoke
  queued callbacks, which the sessions of this program leave empty. The reason is only logged.
\<close>

definition close_session :: "time_point \<Rightarrow> string \<Rightarrow> world \<Rightarrow> world" where
  "close_session now why w =
     (case w of (g, s) \<Rightarrow>
        let g1 = (if s_admitted s
                  then g\<lparr>gw_overload := dec_total_connections (gw_overload g),
                         gw_metrics := mc_dec_active_connections (gw_metrics g)\<rparr>
                  else g);
            g2 = (if s_tunnel_active s \<and> s_route_action s = Via_proxy \<and> s_selected_node_tag s \<noteq> ''''
                  then g1\<lparr>gw_balancer := dec_node_connections (s_selected_node_tag s) (gw_balancer g1),
                          gw_concurrency := cm_dec_node_connections (s_selected_node_tag s) (gw_concurrency g1)\<rparr>
                  else g1);
            g3 = (if s_admitted s
                  then g2\<lparr>gw_admitter := fst (release_connection now (s_username s) (gw_admitter g2))\<rparr>
                  else g2);
            g4 = g3\<lparr>gw_registry := unregister_connection (s_session_id s) (gw_registry g3)\<rparr>;
            g5 = (if s_tunnel_active s then
                    if s_route_action s = Via_direct
                    then g4\<lparr>gw_metrics := add_direct_bytes_down (s_bytes_down s)
                                           (add_direct_bytes_up (s_bytes_up s) (gw_metrics g4))\<rparr>
                    else g4\<lparr>gw_metrics := add_proxy_bytes_down (s_bytes_down s)
                                           (add_proxy_bytes_up (s_bytes_up s) (gw_metrics g4))\<rparr>
                  else g4)
        in (g5, s\<lparr>s_tunnel_active := False\<rparr>))"

section \<open>Start\<close>

text \<open>The client's endpoint is \<open>ip\<close> and \<open>port\<close>, the latter as text.\<close>

definition do_handshake :: "session \<Rightarrow> session" where
  "do_handshake s = push_op Rd_handshake s"

definition session_start :: "env \<Rightarrow> time_point \<Rightarrow> string \<Rightarrow> string \<Rightarrow> world \<Rightarrow> world" where
  "session_start env now ip port w =
     (case w of (g, s0) \<Rightarrow>
        let s = s0\<lparr>s_client_addr := ip @ '':'' @ port\<rparr>
        in if sys_overloaded (en_rnd env) (en_os env) (gw_overload g)
           then close_session now ''system overloaded'' (g, s)
           else
             let (ok, rl1) = check_connection_rate now ip (gw_limiter g);
                 g1 = g\<lparr>gw_limiter := rl1\<rparr>
             in if \<not> ok then close_session now ''rate limited'' (g1, s)
                else
                  let op1 = inc_total_connections (gw_overload g1);
                      (resp, rl2, adm2) = request_admit (en_rnd env) (en_os env) now (s_session_id s) ip ''''
                        None None False (gw_limiter g1) op1 (gw_admitter g1);
                      g2 = g1\<lparr>gw_overload := op1, gw_limiter := rl2, gw_admitter := adm2\<rparr>
                  in if ar_result resp \<in> {Rejected_total, Rejected_user, Rejected_rate, Rejected_banned,
                                          Rejected_overload}
                     then close_session now (ar_reason resp)
                            (g2\<lparr>gw_overload := dec_total_connections (gw_overload g2)\<rparr>, s)
                     else
                       (g2\<lparr>gw_registry := register_connection now (s_session_id s) (s_client_addr s) ''''
                                            (gw_registry g2),
                           gw_metrics := mc_inc_total_connections (mc_inc_active_connections (gw_metrics g2))\<rparr>,
                        do_handshake (s\<lparr>s_admitted := True\<rparr>)))"

section \<open>Routing and connecting\<close>

definition do_resolve :: "session \<Rightarrow> session" where
  "do_resolve s = push_op Resolve_direct s"

definition do_connect_via_v2rayn :: "session \<Rightarrow> session" where
  "do_connect_via_v2rayn s = push_op Resolve_upstream s"

text \<open>\<open>None\<close>: the undefined behaviour of the affinity table, see \<open>select_node\<close>.\<close>

definition do_route_decision :: "env \<Rightarrow> time_point \<Rightarrow> world \<Rightarrow> world option" where
  "do_route_decision env now w =
     (case w of (g, s) \<Rightarrow>
        if rr_action (en_decide env (s_target_host s) (s_resolved_ip s)) = Direct
        then Some (g, do_resolve (s\<lparr>s_route_action := Via_direct\<rparr>))
        else
          case select_node now 0 (en_tags env) (en_health env) (client_ip_of s) (gw_balancer g) of
            None \<Rightarrow> None
          | Some (None, lb) \<Rightarrow>
              Some (g\<lparr>gw_balancer := lb\<rparr>, do_connect_via_v2rayn (s\<lparr>s_route_action := Via_proxy\<rparr>))
          | Some (Some r, lb) \<Rightarrow>
              Some (g\<lparr>gw_balancer := inc_node_connections (sr_node_tag r) lb\<rparr>,
                    do_connect_via_v2rayn
                      (s\<lparr>s_route_action := Via_proxy, s_selected_node_tag := sr_node_tag r\<rparr>)))"

text \<open>An error response over the protocol the client speaks, then the close.\<close>

definition fail_with :: "nat \<Rightarrow> string \<Rightarrow> session \<Rightarrow> session" where
  "fail_with code why s =
     write_client (if s_is_http s then http_502 else error_reply code) (Wr_close why) s"

text \<open>
  The success response of both kinds of tunnel. A SOCKS client is told the local endpoint, whose
  conversion to an IPv4 address throws for an IPv6 endpoint.
\<close>

definition tunnel_up :: "session \<Rightarrow> session option" where
  "tunnel_up s =
     (if s_is_http s then Some (write_client http_200 (Wr_established ''200 write error'') s)
      else
        case s_local s of
          None \<Rightarrow> None
        | Some (bytes, port) \<Rightarrow>
            Some (write_client (success_reply bytes port) (Wr_established ''socks5 reply error'') s))"

definition do_stream :: "session \<Rightarrow> session" where
  "do_stream s = push_op Rd_remote (push_op Rd_client s)"

section \<open>Handlers: HTTP\<close>

definition auth_failed :: "time_point \<Rightarrow> world \<Rightarrow> gateway" where
  "auth_failed now w =
     (case w of (g, s) \<Rightarrow>
        g\<lparr>gw_limiter := record_auth_failure now (client_ip_of s) (gw_limiter g)\<rparr>)"

definition auth_succeeded :: "time_point \<Rightarrow> string \<Rightarrow> world \<Rightarrow> gateway" where
  "auth_succeeded now user w =
     (case w of (g, s) \<Rightarrow>
        g\<lparr>gw_registry := reg_update_state now (s_session_id s) Handshaking (gw_registry g),
          gw_concurrency := cm_inc_user_connections user (gw_concurrency g)\<rparr>)"

definition do_http_auth :: "env \<Rightarrow> time_point \<Rightarrow> world \<Rightarrow> world option" where
  "do_http_auth env now w =
     (case w of (g, s) \<Rightarrow>
        if \<not> en_auth env (s_http_username s) (s_http_password s)
        then Some (auth_failed now w, write_client http_407 (Wr_close ''auth failed'') s)
        else do_route_decision env now
               (auth_succeeded now (s_http_username s) w, s\<lparr>s_http_password := ''''\<rparr>))"

definition handle_http_connect :: "env \<Rightarrow> time_point \<Rightarrow> string \<Rightarrow> world \<Rightarrow> world option" where
  "handle_http_connect env now sv w =
     (case w of (g, s) \<Rightarrow>
        case parse_http_connect sv of
          Http_bad \<Rightarrow> Some (g, write_client http_400 (Wr_close ''bad request'') s)
        | Http_throws \<Rightarrow> None
        | Http_request host port creds \<Rightarrow>
            let s1 = s\<lparr>s_target_host := host, s_target_port := port\<rparr>;
                s2 = (case creds of
                        None \<Rightarrow> s1
                      | Some (user, pass) \<Rightarrow> s1\<lparr>s_http_username := user, s_http_password := pass\<rparr>)
            in if s_http_username s2 = '''' \<and> s_http_password s2 = ''''
               then Some (g, write_client http_407 (Wr_close ''no auth'') s2)
               else do_http_auth env now (g, s2\<lparr>s_username := s_http_username s2\<rparr>))"

section \<open>Handlers: SOCKS5\<close>

definition handle_socks5_handshake :: "time_point \<Rightarrow> string \<Rightarrow> world \<Rightarrow> world option" where
  "handle_socks5_handshake now data w =
     (case w of (g, s) \<Rightarrow>
        case parse_greeting data of
          Greeting_invalid \<Rightarrow> Some (close_session now ''invalid handshake'' w)
        | Greeting_short \<Rightarrow> Some (g, push_op Rd_methods s)
        | Greeting support_auth \<Rightarrow>
            Some (g, write_client (method_reply support_auth) (Wr_method support_auth) s))"

definition do_auth :: "session \<Rightarrow> session" where
  "do_auth s = push_op Rd_auth s"

definition handle_auth :: "env \<Rightarrow> time_point \<Rightarrow> string \<Rightarrow> world \<Rightarrow> world option" where
  "handle_auth env now data w =
     (case w of (g, s) \<Rightarrow>
        case parse_auth data of
          Auth_invalid \<Rightarrow> Some (close_session now ''invalid auth'' w)
        | Auth_short \<Rightarrow> Some (g, push_op Rd_auth_rest s)
        | Auth_message user pass \<Rightarrow>
            if en_auth env user pass
            then Some (auth_succeeded now user w, write_client (auth_reply True) (Wr_auth True) (s\<lparr>s_username := user\<rparr>))
            else Some (auth_failed now w, write_client (auth_reply False) (Wr_auth False) s))"

definition do_request :: "session \<Rightarrow> session" where
  "do_request s = push_op Rd_request s"

definition handle_request :: "env \<Rightarrow> time_point \<Rightarrow> string \<Rightarrow> world \<Rightarrow> world option" where
  "handle_request env now data w =
     (case w of (g, s) \<Rightarrow>
        case parse_request (en_v4 env) (en_v6 env) data of
          Request_invalid \<Rightarrow> Some (close_session now ''invalid request'' w)
        | Request_unsupported \<Rightarrow> Some (g, write_client (error_reply 7) (Wr_close ''unsupported command'') s)
        | Request_address_type \<Rightarrow> Some (g, write_client (error_reply 8) (Wr_close ''unknown address type'') s)
        | Request_short \<Rightarrow> Some (g, push_op Rd_request_rest s)
        | Connect_request host port \<Rightarrow>
            do_route_decision env now (g, s\<lparr>s_target_host := host, s_target_port := port\<rparr>))"

section \<open>Handlers: tunnels and relay\<close>

definition handle_direct_connected ::
    "time_point \<Rightarrow> (string \<times> 16 word) option \<Rightarrow> world \<Rightarrow> world option" where
  "handle_direct_connected now local w =
     (case w of (g, s) \<Rightarrow>
        map_option
          (\<lambda>s1. (g\<lparr>gw_registry := reg_update_state now (s_session_id s) Active (gw_registry g)\<rparr>, s1))
          (tunnel_up (s\<lparr>s_tunnel_active := True, s_local := local\<rparr>)))"

definition handle_upstream_greeting :: "time_point \<Rightarrow> string \<Rightarrow> world \<Rightarrow> world option" where
  "handle_upstream_greeting now data w =
     (case w of (g, s) \<Rightarrow>
        if length data < 2
        then Some (close_session now ''v2rayn socks5 greeting read error'' w)
        else if byte_val (data ! 0) \<noteq> SOCKS_VERSION \<or> byte_val (data ! 1) \<noteq> AUTH_NONE
        then Some (close_session now ''v2rayn socks5 auth rejected'' w)
        else Some (g, write_remote (upstream_connect (s_target_host s) (s_target_port s)) Wr_connect s))"

definition handle_upstream_reply :: "time_point \<Rightarrow> string \<Rightarrow> world \<Rightarrow> world option" where
  "handle_upstream_reply now data w =
     (case w of (g, s) \<Rightarrow>
        if length data < 2
        then Some (close_session now ''v2rayn socks5 connect read error'' w)
        else if byte_val (data ! 1) \<noteq> 0
        then Some (close_session now ''v2rayn socks5 connect rejected'' w)
        else
          let reg1 = reg_update_state now (s_session_id s) Active (gw_registry g);
              reg2 = (if s_selected_node_tag s \<noteq> ''''
                      then reg_update_node (s_session_id s) (s_selected_node_tag s) reg1 else reg1)
          in map_option (\<lambda>s1. (g\<lparr>gw_registry := reg2\<rparr>, s1)) (tunnel_up (s\<lparr>s_tunnel_active := True\<rparr>)))"

definition handle_client_data :: "time_point \<Rightarrow> string \<Rightarrow> world \<Rightarrow> world" where
  "handle_client_data now data w =
     (case w of (g, s) \<Rightarrow>
        (g\<lparr>gw_registry := mark_active now (s_session_id s) (gw_registry g)\<rparr>,
         write_remote data Wr_remote (s\<lparr>s_bytes_up := s_bytes_up s + of_nat (length data)\<rparr>)))"

definition handle_remote_data :: "time_point \<Rightarrow> string \<Rightarrow> world \<Rightarrow> world" where
  "handle_remote_data now data w =
     (case w of (g, s) \<Rightarrow>
        (g\<lparr>gw_registry := mark_active now (s_session_id s) (gw_registry g)\<rparr>,
         write_client data Wr_client (s\<lparr>s_bytes_down := s_bytes_down s + of_nat (length data)\<rparr>)))"

section \<open>Steps\<close>

fun fits :: "pending \<Rightarrow> completion \<Rightarrow> bool" where
  "fits p Failed = True"
| "fits p (Read data) \<longleftrightarrow> p \<in> {Rd_handshake, Rd_methods, Rd_auth, Rd_auth_rest, Rd_request,
     Rd_request_rest, Rd_greeting, Rd_connect, Rd_client, Rd_remote}"
| "fits p Written \<longleftrightarrow> (case p of Wr_method b \<Rightarrow> True | Wr_auth b \<Rightarrow> True | Wr_close why \<Rightarrow> True
     | Wr_greeting \<Rightarrow> True | Wr_connect \<Rightarrow> True | Wr_established why \<Rightarrow> True | Wr_remote \<Rightarrow> True
     | Wr_client \<Rightarrow> True | _ \<Rightarrow> False)"
| "fits p (Resolved ip) \<longleftrightarrow> p \<in> {Resolve_direct, Resolve_upstream}"
| "fits p (Connected local) \<longleftrightarrow> p \<in> {Connect_direct, Connect_upstream}"

text \<open>
  The handler of an operation, run after the operation has left \<open>s_pending\<close>. A write whose handler
  does nothing on an error (\<open>Wr_method\<close>, a successful \<open>Wr_auth\<close>) leaves the world as it is.
\<close>

definition run_handler :: "env \<Rightarrow> time_point \<Rightarrow> pending \<Rightarrow> completion \<Rightarrow> world \<Rightarrow> world option" where
  "run_handler env now p c w =
     (case w of (g, s) \<Rightarrow>
        case p of
          Rd_handshake \<Rightarrow>
            (case c of
               Read data \<Rightarrow>
                 if is_http_connect data then handle_http_connect env now data (g, s\<lparr>s_is_http := True\<rparr>)
                 else handle_socks5_handshake now data w
             | _ \<Rightarrow> Some (close_session now ''handshake error'' w))
        | Rd_methods \<Rightarrow>
            (case c of
               Read data \<Rightarrow> handle_socks5_handshake now data w
             | _ \<Rightarrow> Some (close_session now ''handshake read error'' w))
        | Wr_method support_auth \<Rightarrow>
            (case c of
               Written \<Rightarrow> Some (if support_auth then (g, do_auth s)
                               else close_session now ''auth not supported'' w)
             | _ \<Rightarrow> Some w)
        | Rd_auth \<Rightarrow>
            (case c of
               Read data \<Rightarrow> handle_auth env now data w
             | _ \<Rightarrow> Some (close_session now ''auth read error'' w))
        | Rd_auth_rest \<Rightarrow>
            (case c of
               Read data \<Rightarrow> Some (g, do_auth s)
             | _ \<Rightarrow> Some (close_session now ''auth read error'' w))
        | Wr_auth authenticated \<Rightarrow>
            (if c = Written \<and> authenticated then Some (g, do_request s)
             else if \<not> authenticated then Some (close_session now ''auth failed'' w)
             else Some w)
        | Rd_request \<Rightarrow>
            (case c of
               Read data \<Rightarrow> handle_request env now data w
             | _ \<Rightarrow> Some (close_session now ''request read error'' w))
        | Rd_request_rest \<Rightarrow>
            (case c of
               Read data \<Rightarrow> Some (g, do_request s)
             | _ \<Rightarrow> Some (close_session now ''request read error'' w))
        | Wr_close why \<Rightarrow> Some (close_session now why w)
        | Resolve_direct \<Rightarrow>
            (case c of
               Resolved ip \<Rightarrow>
                 Some (g, push_op Connect_direct
                            (case ip of None \<Rightarrow> s | Some a \<Rightarrow> s\<lparr>s_resolved_ip := a\<rparr>))
             | _ \<Rightarrow> Some (g, fail_with 4 ''dns failed'' s))
        | Connect_direct \<Rightarrow>
            (case c of
               Connected local \<Rightarrow> handle_direct_connected now local w
             | _ \<Rightarrow> Some (g, fail_with 5 ''connect failed'' s))
        | Resolve_upstream \<Rightarrow>
            (case c of
               Resolved ip \<Rightarrow> Some (g, push_op Connect_upstream s)
             | _ \<Rightarrow> Some (close_session now ''v2rayn resolve failed'' w))
        | Connect_upstream \<Rightarrow>
            (case c of
               Connected local \<Rightarrow> Some (g, write_remote upstream_greeting Wr_greeting (s\<lparr>s_local := local\<rparr>))
             | _ \<Rightarrow> Some (g, fail_with 5 ''v2rayn connect failed'' s))
        | Wr_greeting \<Rightarrow>
            (case c of
               Written \<Rightarrow> Some (g, push_op Rd_greeting s)
             | _ \<Rightarrow> Some (close_session now ''v2rayn socks5 greeting write error'' w))
        | Rd_greeting \<Rightarrow>
            (case c of
               Read data \<Rightarrow> handle_upstream_greeting now data w
             | _ \<Rightarrow> Some (close_session now ''v2rayn socks5 greeting read error'' w))
        | Wr_connect \<Rightarrow>
            (case c of
               Written \<Rightarrow> Some (g, push_op Rd_connect s)
             | _ \<Rightarrow> Some (close_session now ''v2rayn socks5 connect write error'' w))
        | Rd_connect \<Rightarrow>
            (case c of
               Read data \<Rightarrow> handle_upstream_reply now data w
             | _ \<Rightarrow> Some (close_session now ''v2rayn socks5 connect read error'' w))
        | Wr_established why \<Rightarrow>
            (case c of Written \<Rightarrow> Some (g, do_stream s) | _ \<Rightarrow> Some (close_session now why w))
        | Rd_client \<Rightarrow>
            (case c of
               Read data \<Rightarrow> Some (handle_client_data now data w)
             | _ \<Rightarrow> Some (close_session now ''client disconnect'' w))
        | Wr_remote \<Rightarrow>
            (case c of Written \<Rightarrow> Some (g, push_op Rd_client s)
             | _ \<Rightarrow> Some (close_session now ''remote write error'' w))
        | Rd_remote \<Rightarrow>
            (case c of
               Read data \<Rightarrow> Some (handle_remote_data now data w)
             | _ \<Rightarrow> Some (close_session now ''remote disconnect'' w))
        | Wr_client \<Rightarrow>
            (case c of Written \<Rightarrow> Some (g, push_op Rd_remote s)
             | _ \<Rightarrow> Some (close_session now ''client write error'' w)))"

definition remove_nth :: "nat \<Rightarrow> 'a list \<Rightarrow> 'a list" where
  "remove_nth i xs = take i xs @ drop (Suc i) xs"

definition session_step :: "env \<Rightarrow> time_point \<Rightarrow> nat \<Rightarrow> completion \<Rightarrow> world \<Rightarrow> world option" where
  "session_step env now i c w =
     (case w of (g, s) \<Rightarrow>
        if i < length (s_pending s) \<and> fits (s_pending s ! i) c
        then run_handler env now (s_pending s ! i) c (g, s\<lparr>s_pending := remove_nth i (s_pending s)\<rparr>)
        else Some w)"

text \<open>A run: the completions in the order they happen; an uncaught exception ends it.\<close>

fun session_run :: "env \<Rightarrow> (time_point \<times> nat \<times> completion) list \<Rightarrow> world \<Rightarrow> world option" where
  "session_run env [] w = Some w"
| "session_run env ((now, i, c) # es) w =
     Option.bind (session_step env now i c w) (session_run env es)"

section \<open>Authentication before anything else\<close>

text \<open>
  The operations of the handshake. While one of them is pending it is the only one, and nothing has
  been sent upstream; everything else a session does needs a user who passed the check.
\<close>

definition handshake_op :: "pending \<Rightarrow> bool" where
  "handshake_op p \<longleftrightarrow> (case p of Rd_handshake \<Rightarrow> True | Rd_methods \<Rightarrow> True | Wr_method b \<Rightarrow> True
     | Rd_auth \<Rightarrow> True | Rd_auth_rest \<Rightarrow> True | Wr_auth ok \<Rightarrow> \<not> ok | _ \<Rightarrow> False)"

definition closing_op :: "pending \<Rightarrow> bool" where
  "closing_op p \<longleftrightarrow> (case p of Wr_close why \<Rightarrow> True | _ \<Rightarrow> False)"

definition logged_in :: "env \<Rightarrow> session \<Rightarrow> bool" where
  "logged_in env s \<longleftrightarrow> (\<exists>pass. en_auth env (s_username s) pass)"

definition untouched :: "session \<Rightarrow> bool" where
  "untouched s \<longleftrightarrow> s_to_remote s = [] \<and> \<not> s_tunnel_active s"

definition auth_inv :: "env \<Rightarrow> session \<Rightarrow> bool" where
  "auth_inv env s \<longleftrightarrow>
     (logged_in env s \<and> (\<forall>p \<in> set (s_pending s). \<not> handshake_op p))
     \<or> (untouched s \<and> (s_pending s = [] \<or> (\<exists>p. s_pending s = [p] \<and> (handshake_op p \<or> closing_op p))))"

lemma snd_close_session [simp]:
  "snd (close_session now why w) = (snd w)\<lparr>s_tunnel_active := False\<rparr>"
  by (simp add: close_session_def split_beta Let_def)

lemmas op_defs = push_op_def write_client_def write_remote_def fail_with_def do_auth_def
  do_request_def do_resolve_def do_connect_via_v2rayn_def do_stream_def do_handshake_def

text \<open>What a handler may do to a session that is past the login.\<close>

definition past_login :: "session \<Rightarrow> session \<Rightarrow> bool" where
  "past_login s s' \<longleftrightarrow> s_username s' = s_username s
     \<and> (\<forall>p \<in> set (s_pending s') - set (s_pending s). \<not> handshake_op p)"

lemma past_login_auth_inv:
  "logged_in env s \<Longrightarrow> \<forall>p \<in> set (s_pending s). \<not> handshake_op p \<Longrightarrow> past_login s s' \<Longrightarrow> auth_inv env s'"
  by (auto simp: past_login_def auth_inv_def logged_in_def)

lemma route_decision_past_login:
  "do_route_decision env now (g, s) = Some (g', s') \<Longrightarrow> past_login s s'"
  by (auto simp: do_route_decision_def past_login_def op_defs handshake_op_def
      split: if_splits option.splits prod.splits)

lemma tunnel_up_past_login: "tunnel_up s = Some s' \<Longrightarrow> past_login s s'"
  by (auto simp: tunnel_up_def past_login_def op_defs handshake_op_def split: if_splits option.splits)

lemma close_snd: "close_session now why (g, s) = (g', s') \<Longrightarrow> s' = s\<lparr>s_tunnel_active := False\<rparr>"
  using snd_close_session [of now why "(g, s)"] by simp

lemma past_login_push: "\<not> handshake_op p \<Longrightarrow> past_login s (push_op p s)"
  by (auto simp: past_login_def op_defs)

lemma past_login_write:
  "\<not> handshake_op p \<Longrightarrow> past_login s (write_client bytes p s)"
  "\<not> handshake_op p \<Longrightarrow> past_login s (write_remote bytes p s)"
  by (auto simp: past_login_def op_defs)

lemma past_login_cong:
  "past_login s1 s' \<Longrightarrow> s_username s1 = s_username s \<Longrightarrow> s_pending s1 = s_pending s \<Longrightarrow> past_login s s'"
  by (simp add: past_login_def)

lemma past_login_tunnel [simp]: "past_login s (s\<lparr>s_tunnel_active := b\<rparr>)"
  by (simp add: past_login_def)

lemma handle_request_past_login:
  assumes "handle_request env now data (g, s) = Some (g', s')"
  shows "past_login s s'"
proof (cases "parse_request (en_v4 env) (en_v6 env) data")
  case (Connect_request host port)
  with assms have "do_route_decision env now (g, s\<lparr>s_target_host := host, s_target_port := port\<rparr>) = Some (g', s')"
    by (simp add: handle_request_def)
  from past_login_cong [OF route_decision_past_login [OF this]] show ?thesis by simp
qed (use assms in \<open>auto simp: handle_request_def handshake_op_def dest: close_snd
      intro: past_login_push past_login_write\<close>)

lemma handle_direct_past_login:
  assumes "handle_direct_connected now local (g, s) = Some (g', s')"
  shows "past_login s s'"
proof -
  have "tunnel_up (s\<lparr>s_tunnel_active := True, s_local := local\<rparr>) = Some s'"
    using assms by (auto simp: handle_direct_connected_def)
  from past_login_cong [OF tunnel_up_past_login [OF this]] show ?thesis by simp
qed

lemma handle_upstream_past_login:
  "handle_upstream_greeting now data (g, s) = Some (g', s') \<Longrightarrow> past_login s s'"
  by (auto simp: handle_upstream_greeting_def handshake_op_def dest: close_snd
      intro: past_login_write split: if_splits)

lemma handle_reply_past_login:
  assumes "handle_upstream_reply now data (g, s) = Some (g', s')"
  shows "past_login s s'"
proof (cases "length data < 2 \<or> byte_val (data ! 1) \<noteq> 0")
  case True
  with assms show ?thesis by (auto simp: handle_upstream_reply_def dest: close_snd split: if_splits)
next
  case False
  with assms have "tunnel_up (s\<lparr>s_tunnel_active := True\<rparr>) = Some s'"
    by (auto simp: handle_upstream_reply_def Let_def)
  from past_login_cong [OF tunnel_up_past_login [OF this]] show ?thesis by simp
qed

text \<open>The three outcomes of most handlers: a close, an operation started, a response written.\<close>

lemma handler_past_login:
  assumes "\<not> handshake_op p" "run_handler env now p c (g, s) = Some (g', s')"
  shows "past_login s s'"
proof (cases p)
  case Rd_request
  then show ?thesis
    using assms(2) handle_request_past_login
    by (cases c) (auto simp: run_handler_def dest: close_snd)
next
  case Connect_direct
  then show ?thesis
    using assms(2) handle_direct_past_login
    by (cases c) (auto simp: run_handler_def fail_with_def handshake_op_def intro: past_login_write)
next
  case Rd_greeting
  then show ?thesis
    using assms(2) handle_upstream_past_login
    by (cases c) (auto simp: run_handler_def dest: close_snd)
next
  case Rd_connect
  then show ?thesis
    using assms(2) handle_reply_past_login
    by (cases c) (auto simp: run_handler_def dest: close_snd)
next
  case (Wr_auth ok)
  then show ?thesis
    using assms by (cases c) (auto simp: run_handler_def handshake_op_def do_request_def
        past_login_def op_defs)
next
  case Resolve_direct
  then show ?thesis
    using assms(2)
    by (cases c) (auto simp: run_handler_def handshake_op_def fail_with_def past_login_def op_defs
        split: option.splits)
next
  case Resolve_upstream
  then show ?thesis
    using assms(2)
    by (cases c) (auto simp: run_handler_def handshake_op_def dest: close_snd intro: past_login_push)
next
  case Connect_upstream
  then show ?thesis
    using assms(2)
    by (cases c) (auto simp: run_handler_def handshake_op_def fail_with_def past_login_def op_defs)
next
  case Wr_greeting
  then show ?thesis
    using assms(2)
    by (cases c) (auto simp: run_handler_def handshake_op_def dest: close_snd intro: past_login_push)
next
  case Wr_connect
  then show ?thesis
    using assms(2)
    by (cases c) (auto simp: run_handler_def handshake_op_def dest: close_snd intro: past_login_push)
next
  case (Wr_established why)
  then show ?thesis
    using assms(2)
    by (cases c) (auto simp: run_handler_def handshake_op_def past_login_def op_defs dest: close_snd)
next
  case Rd_client
  then show ?thesis
    using assms(2)
    by (cases c) (auto simp: run_handler_def handle_client_data_def handshake_op_def past_login_def
        op_defs dest: close_snd)
next
  case Rd_remote
  then show ?thesis
    using assms(2)
    by (cases c) (auto simp: run_handler_def handle_remote_data_def handshake_op_def past_login_def
        op_defs dest: close_snd)
next
  case Wr_remote
  then show ?thesis
    using assms(2)
    by (cases c) (auto simp: run_handler_def handshake_op_def dest: close_snd intro: past_login_push)
next
  case Wr_client
  then show ?thesis
    using assms(2)
    by (cases c) (auto simp: run_handler_def handshake_op_def dest: close_snd intro: past_login_push)
next
  case Rd_request_rest
  then show ?thesis
    using assms(2)
    by (cases c) (auto simp: run_handler_def handshake_op_def do_request_def dest: close_snd
        intro: past_login_push)
next
  case (Wr_close why)
  then show ?thesis using assms(2) by (auto simp: run_handler_def dest: close_snd)
qed (use assms(1) in \<open>simp_all add: handshake_op_def\<close>)

lemma auth_inv_handshake:
  "untouched s \<Longrightarrow> s_pending s = [p] \<Longrightarrow> handshake_op p \<or> closing_op p \<Longrightarrow> auth_inv env s"
  by (simp add: auth_inv_def)

lemma auth_inv_closed: "untouched s \<Longrightarrow> s_pending s = [] \<Longrightarrow> auth_inv env (s\<lparr>s_tunnel_active := False\<rparr>)"
  by (simp add: auth_inv_def untouched_def)

lemma route_decision_auth_inv:
  assumes "logged_in env s" "s_pending s = []" "do_route_decision env now (g, s) = Some (g', s')"
  shows "auth_inv env s'"
  using past_login_auth_inv [OF assms(1) _ route_decision_past_login [OF assms(3)]] assms(2) by simp

text \<open>What a \<^verbatim>\<open>CONNECT\<close> request leads to: a refusal, or the check of the credentials it brought.\<close>

lemma http_connect_cases:
  assumes "handle_http_connect env now sv (g, s) = Some (g', s')"
  obtains (refused) why bytes h p u w where "g' = g"
      "s' = write_client bytes (Wr_close why) (s\<lparr>s_target_host := h, s_target_port := p,
         s_http_username := u, s_http_password := w\<rparr>)"
  | (checked) h p u w where
      "do_http_auth env now (g, s\<lparr>s_target_host := h, s_target_port := p, s_http_username := u,
         s_http_password := w, s_username := u\<rparr>) = Some (g', s')"
proof (cases "parse_http_connect sv")
  case Http_bad
  with assms have "g' = g" "s' = write_client http_400 (Wr_close ''bad request'') s"
    by (auto simp: handle_http_connect_def)
  then show thesis
    by (intro refused [where bytes = http_400 and why = "''bad request''" and h = "s_target_host s"
          and p = "s_target_port s" and u = "s_http_username s" and w = "s_http_password s"]) simp_all
next
  case Http_throws
  with assms show thesis by (simp add: handle_http_connect_def)
next
  case (Http_request host port creds)
  obtain u w where uw: "(case creds of None \<Rightarrow> s\<lparr>s_target_host := host, s_target_port := port\<rparr>
      | Some (user, pass) \<Rightarrow> s\<lparr>s_target_host := host, s_target_port := port, s_http_username := user,
          s_http_password := pass\<rparr>)
      = s\<lparr>s_target_host := host, s_target_port := port, s_http_username := u, s_http_password := w\<rparr>"
  proof (cases creds)
    case None
    then show thesis by (intro that [where u = "s_http_username s" and w = "s_http_password s"]) simp
  next
    case (Some up)
    then show thesis by (intro that [where u = "fst up" and w = "snd up"]) (simp add: split_beta)
  qed
  let ?s = "s\<lparr>s_target_host := host, s_target_port := port, s_http_username := u, s_http_password := w\<rparr>"
  have h: "handle_http_connect env now sv (g, s)
      = (if u = [] \<and> w = [] then Some (g, write_client http_407 (Wr_close ''no auth'') ?s)
         else do_http_auth env now (g, ?s\<lparr>s_username := u\<rparr>))"
    by (simp add: handle_http_connect_def Http_request Let_def uw)
  show thesis
  proof (cases "u = [] \<and> w = []")
    case True
    with h assms show thesis
      by (intro refused [where bytes = http_407 and why = "''no auth''" and h = host and p = port
            and u = u and w = w]) simp_all
  next
    case False
    with h assms have "do_http_auth env now (g, ?s\<lparr>s_username := u\<rparr>) = Some (g', s')" by (simp only: if_False)
    then show thesis by (intro checked [where h = host and p = port and u = u and w = w]) simp
  qed
qed

lemma http_auth_cases:
  assumes "do_http_auth env now (g, s) = Some (g', s')"
  obtains (refused) "\<not> en_auth env (s_http_username s) (s_http_password s)"
      "g' = auth_failed now (g, s)" "s' = write_client http_407 (Wr_close ''auth failed'') s"
  | (routed) "en_auth env (s_http_username s) (s_http_password s)"
      "do_route_decision env now (auth_succeeded now (s_http_username s) (g, s), s\<lparr>s_http_password := []\<rparr>)
         = Some (g', s')"
proof (cases "en_auth env (s_http_username s) (s_http_password s)")
  case True
  with assms show thesis by (intro routed) (simp_all add: do_http_auth_def)
next
  case False
  with assms show thesis by (intro refused) (simp_all add: do_http_auth_def)
qed

lemma http_connect_auth_inv:
  assumes "untouched s" "s_pending s = []" "handle_http_connect env now sv (g, s) = Some (g', s')"
  shows "auth_inv env s'"
  using assms(3)
proof (cases rule: http_connect_cases)
  case (refused why bytes h p u w)
  with assms(1,2) show ?thesis
    by (intro auth_inv_handshake [of _ "Wr_close why"]) (auto simp: op_defs untouched_def closing_op_def)
next
  case (checked h p u w)
  then show ?thesis
  proof (cases rule: http_auth_cases)
    case refused
    with assms(1,2) show ?thesis
      by (intro auth_inv_handshake [of _ "Wr_close ''auth failed''"])
        (auto simp: op_defs untouched_def closing_op_def)
  next
    case routed
    then have "en_auth env u w" by simp
    then show ?thesis
      by (intro route_decision_auth_inv [OF _ _ routed(2)]) (use assms(2) in \<open>auto simp: logged_in_def\<close>)
  qed
qed

lemma socks_handshake_auth_inv:
  assumes "untouched s" "s_pending s = []" "handle_socks5_handshake now data (g, s) = Some (g', s')"
  shows "auth_inv env s'"
proof (cases "parse_greeting data")
  case Greeting_invalid
  with assms auth_inv_closed [of s env] show ?thesis
    by (auto simp: handle_socks5_handshake_def dest: close_snd)
next
  case Greeting_short
  with assms show ?thesis
    by (intro auth_inv_handshake [of _ Rd_methods])
      (auto simp: handle_socks5_handshake_def op_defs untouched_def handshake_op_def)
next
  case (Greeting support)
  with assms show ?thesis
    by (intro auth_inv_handshake [of _ "Wr_method support"])
      (auto simp: handle_socks5_handshake_def op_defs untouched_def handshake_op_def)
qed

lemma socks_auth_auth_inv:
  assumes "untouched s" "s_pending s = []" "handle_auth env now data (g, s) = Some (g', s')"
  shows "auth_inv env s'"
proof (cases "parse_auth data")
  case Auth_invalid
  with assms auth_inv_closed [of s env] show ?thesis
    by (auto simp: handle_auth_def dest: close_snd)
next
  case Auth_short
  with assms show ?thesis
    by (intro auth_inv_handshake [of _ Rd_auth_rest])
      (auto simp: handle_auth_def op_defs untouched_def handshake_op_def)
next
  case (Auth_message user pass)
  show ?thesis
  proof (cases "en_auth env user pass")
    case True
    with Auth_message assms show ?thesis
      by (auto simp: handle_auth_def op_defs auth_inv_def logged_in_def handshake_op_def)
  next
    case False
    with Auth_message assms show ?thesis
      by (intro auth_inv_handshake [of _ "Wr_auth False"])
        (auto simp: handle_auth_def op_defs untouched_def handshake_op_def)
  qed
qed

lemma handler_handshake:
  assumes "handshake_op p \<or> closing_op p" "untouched s" "s_pending s = []"
    and "run_handler env now p c (g, s) = Some (g', s')"
  shows "auth_inv env s'"
proof -
  have close: "auth_inv env (s\<lparr>s_tunnel_active := False\<rparr>)"
    using auth_inv_closed [OF assms(2,3)] .
  have stay: "auth_inv env s" using assms(2,3) by (simp add: auth_inv_def)
  have one: "auth_inv env (push_op q s)" if "handshake_op q" for q
    using assms(2,3) that by (intro auth_inv_handshake [of _ q]) (auto simp: op_defs untouched_def)
  show ?thesis
  proof (cases p)
    case Rd_handshake
    show ?thesis
    proof (cases c)
      case (Read data)
      show ?thesis
      proof (cases "is_http_connect data")
        case True
        with Read Rd_handshake assms(4)
        have "handle_http_connect env now data (g, s\<lparr>s_is_http := True\<rparr>) = Some (g', s')"
          by (simp add: run_handler_def)
        then show ?thesis
          by (rule http_connect_auth_inv [rotated 2]) (use assms(2,3) in \<open>simp_all add: untouched_def\<close>)
      next
        case False
        with Read Rd_handshake assms(4) socks_handshake_auth_inv [OF assms(2,3)] show ?thesis
          by (simp add: run_handler_def)
      qed
    qed (use Rd_handshake assms(4) close in \<open>auto simp: run_handler_def dest: close_snd\<close>)
  next
    case Rd_methods
    then show ?thesis
      using assms(4) close socks_handshake_auth_inv [OF assms(2,3)]
      by (cases c) (auto simp: run_handler_def dest: close_snd)
  next
    case (Wr_method b)
    then show ?thesis
      using assms(4) close stay one [of Rd_auth]
      by (cases c; cases b) (auto simp: run_handler_def do_auth_def handshake_op_def dest: close_snd)
  next
    case Rd_auth
    then show ?thesis
      using assms(4) close socks_auth_auth_inv [OF assms(2,3)]
      by (cases c) (auto simp: run_handler_def dest: close_snd)
  next
    case Rd_auth_rest
    then show ?thesis
      using assms(4) close one [of Rd_auth]
      by (cases c) (auto simp: run_handler_def do_auth_def handshake_op_def dest: close_snd)
  next
    case (Wr_auth ok)
    then show ?thesis
      using assms(1,4) close
      by (auto simp: run_handler_def handshake_op_def closing_op_def dest: close_snd)
  next
    case (Wr_close why)
    then show ?thesis
      using assms(4) close by (auto simp: run_handler_def dest: close_snd)
  qed (use assms(1) in \<open>simp_all add: handshake_op_def closing_op_def\<close>)
qed

lemma session_step_auth_inv:
  assumes "auth_inv env s" "session_step env now i c (g, s) = Some (g', s')"
  shows "auth_inv env s'"
proof (cases "i < length (s_pending s) \<and> fits (s_pending s ! i) c")
  case False
  with assms show ?thesis by (auto simp: session_step_def)
next
  case True
  let ?p = "s_pending s ! i"
  let ?s = "s\<lparr>s_pending := remove_nth i (s_pending s)\<rparr>"
  have run: "run_handler env now ?p c (g, ?s) = Some (g', s')"
    using assms(2) True by (simp add: session_step_def)
  have sub: "set (remove_nth i (s_pending s)) \<subseteq> set (s_pending s)"
    by (auto simp: remove_nth_def dest: in_set_takeD in_set_dropD)
  have p: "?p \<in> set (s_pending s)" using True by simp
  from assms(1) consider
      "logged_in env s" "\<forall>q \<in> set (s_pending s). \<not> handshake_op q"
    | q where "untouched s" "s_pending s = [q]" "handshake_op q \<or> closing_op q"
    using True by (auto simp: auth_inv_def)
  then show ?thesis
  proof cases
    case 1
    then have "\<not> handshake_op ?p" using p by blast
    from past_login_auth_inv [OF _ _ handler_past_login [OF this run]] 1 sub show ?thesis
      by (auto simp: logged_in_def)
  next
    case 2
    with True have "i = 0" by simp
    with 2 run show ?thesis
      by (intro handler_handshake [of q ?s env now c g g']) (auto simp: untouched_def remove_nth_def)
  qed
qed

lemma session_run_auth_inv:
  "auth_inv env s \<Longrightarrow> session_run env es (g, s) = Some (g', s') \<Longrightarrow> auth_inv env s'"
proof (induction es arbitrary: g s)
  case (Cons e es)
  obtain now i c where e: "e = (now, i, c)" by (cases e)
  with Cons.prems(2) obtain g1 s1 where st: "session_step env now i c (g, s) = Some (g1, s1)"
    and run: "session_run env es (g1, s1) = Some (g', s')"
    by (auto simp: bind_eq_Some_conv)
  show ?case by (rule Cons.IH [OF session_step_auth_inv [OF Cons.prems(1) st] run])
qed simp

lemma snd_start:
  "snd (session_start env now ip port (g, s)) = (s\<lparr>s_client_addr := ip @ '':'' @ port\<rparr>)\<lparr>s_tunnel_active := False\<rparr>
   \<or> snd (session_start env now ip port (g, s))
     = push_op Rd_handshake (s\<lparr>s_client_addr := ip @ '':'' @ port, s_admitted := True\<rparr>)"
  by (simp add: session_start_def Let_def split_beta do_handshake_def)

lemma started_run_auth_inv:
  assumes "session_run env es (session_start env now ip port (g, new_session sid)) = Some (g', s')"
  shows "auth_inv env s'"
proof -
  obtain g0 s0 where start: "session_start env now ip port (g, new_session sid) = (g0, s0)" by fastforce
  have "auth_inv env s0"
    using snd_start [of env now ip port g "new_session sid"] start
    by (auto simp: auth_inv_def untouched_def new_session_def op_defs handshake_op_def)
  then show ?thesis using assms session_run_auth_inv [of env s0 es g0 g' s'] by (simp add: start)
qed

lemma past_handshake_logged_in:
  assumes "auth_inv env s"
    and "s_to_remote s \<noteq> [] \<or> s_tunnel_active s \<or> (\<exists>p \<in> set (s_pending s). \<not> handshake_op p \<and> \<not> closing_op p)"
  shows "\<exists>pass. en_auth env (s_username s) pass"
  using assms by (auto simp: auth_inv_def untouched_def logged_in_def)

section \<open>Properties\<close>

text \<open>
  C1: nothing leaves for the network before the user is known: whatever the order and the outcomes
  of the operations, once a session has sent a byte upstream, has a tunnel, or resolves, connects or
  relays, its user name has passed the user manager's check.
\<close>

theorem no_relay_before_login:
  assumes "session_run env es (session_start env now ip port (g, new_session sid)) = Some (g', s')"
    and "s_to_remote s' \<noteq> [] \<or> s_tunnel_active s'
      \<or> (\<exists>p \<in> set (s_pending s'). \<not> handshake_op p \<and> \<not> closing_op p)"
  shows "\<exists>pass. en_auth env (s_username s') pass"
  using past_handshake_logged_in [OF started_run_auth_inv [OF assms(1)] assms(2)] .

section \<open>Concrete sessions\<close>

definition sample_env :: env where
  "sample_env = \<lparr>en_auth = (\<lambda>user pass. user = ''u'' \<and> pass = ''p''),
     en_decide = (\<lambda>host ip. \<lparr>rr_action = Direct, rr_rule_id = ''default'', rr_match_type = ''default''\<rparr>),
     en_v4 = id, en_v6 = id, en_rnd = id,
     en_os = \<lparr>rlim_nofile = None, fd_lines = 0, meminfo = None\<rparr>,
     en_tags = [], en_health = new_health_checker\<rparr>"

definition fresh_gateway :: gateway where
  "fresh_gateway = \<lparr>gw_overload = new_overload_protector, gw_limiter = new_rate_limiter,
     gw_admitter = new_connection_admitter, gw_registry = Map.empty, gw_balancer = new_load_balancer,
     gw_metrics = new_metrics_collector, gw_concurrency = new_concurrency_metrics\<rparr>"

definition sample_login :: "(time_point \<times> nat \<times> completion) list" where
  "sample_login =
     [(1, 0, Read (map byte [5, 1, 2])), (2, 0, Written),
      (3, 0, Read (map byte [1, 1] @ ''u'' @ map byte [1] @ ''p'')), (4, 0, Written),
      (5, 0, Read (map byte [5, 1, 0, 3, 5] @ ''a.com'' @ map byte [0, 80]))]"

lemma sample_login_run:
  "map_option (\<lambda>(g, s). (s_pending s, s_username s, s_target_host s, s_admitted s))
     (session_run sample_env sample_login
       (session_start sample_env 0 ''ip'' ''1'' (fresh_gateway, new_session ''sid'')))
   = Some ([Resolve_direct], ''u'', ''a.com'', True)"
  by code_simp

theorem no_relay_before_login_witness:
  "\<exists>g s. session_run sample_env sample_login
       (session_start sample_env 0 ''ip'' ''1'' (fresh_gateway, new_session ''sid'')) = Some (g, s)
     \<and> s_pending s = [Resolve_direct] \<and> (\<exists>pass. en_auth sample_env (s_username s) pass)"
proof -
  obtain g s where run: "session_run sample_env sample_login
       (session_start sample_env 0 ''ip'' ''1'' (fresh_gateway, new_session ''sid'')) = Some (g, s)"
    and "s_pending s = [Resolve_direct]"
    using sample_login_run by (auto simp: map_option_case split: option.splits)
  then show ?thesis
    using no_relay_before_login [OF run] by (auto simp: handshake_op_def closing_op_def)
qed

end
