(* ===== verification/Session_Relay.thy ===== *)
theory Session_Relay
  imports Session
begin

text \<open>
  The two directions of the relay, \<^verbatim>\<open>do_stream\<close> and what it starts in \<^verbatim>\<open>proxy_core/session.cpp\<close>: what
  is read on one side is written to the other, byte for byte and in order, and the two buffers of a
  session are never used by two operations at a time.
\<close>

section \<open>One operation per buffer\<close>

text \<open>
  The operations on \<^verbatim>\<open>m_client_buffer\<close> and on \<^verbatim>\<open>m_remote_buffer\<close>: the reads of either socket, and the
  writes of the relay, which send the buffer the other side was read into.
\<close>

definition uses_client_buffer :: "pending \<Rightarrow> bool" where
  "uses_client_buffer p \<longleftrightarrow> p \<in> {Rd_handshake, Rd_methods, Rd_auth, Rd_auth_rest, Rd_request,
     Rd_request_rest, Rd_client, Wr_remote}"

definition uses_remote_buffer :: "pending \<Rightarrow> bool" where
  "uses_remote_buffer p \<longleftrightarrow> p \<in> {Rd_greeting, Rd_connect, Rd_remote, Wr_client}"

definition up_op :: "pending \<Rightarrow> bool" where
  "up_op p \<longleftrightarrow> p \<in> {Rd_client, Wr_remote}"

definition down_op :: "pending \<Rightarrow> bool" where
  "down_op p \<longleftrightarrow> p \<in> {Rd_remote, Wr_client}"

abbreviation count_if :: "('a \<Rightarrow> bool) \<Rightarrow> 'a list \<Rightarrow> nat" where
  "count_if P xs \<equiv> length (filter P xs)"

text \<open>Before the relay a session has at most one operation; in the relay one in each direction.\<close>

definition buffers_ok :: "pending list \<Rightarrow> bool" where
  "buffers_ok ps \<longleftrightarrow> length ps \<le> 1
     \<or> (\<forall>p \<in> set ps. up_op p \<or> down_op p) \<and> count_if up_op ps \<le> 1 \<and> count_if down_op ps \<le> 1"

lemma buffers_ok_small [simp]: "buffers_ok []" "buffers_ok [p]"
  by (simp_all add: buffers_ok_def)

lemma remove_nth_simps [simp]:
  "remove_nth i [] = []" "remove_nth 0 (x # xs) = xs" "remove_nth (Suc i) (x # xs) = x # remove_nth i xs"
  by (simp_all add: remove_nth_def)

lemma remove_nth_split:
  "i < length xs \<Longrightarrow> \<exists>a b. xs = a @ xs ! i # b \<and> remove_nth i xs = a @ b"
  by (rule exI [of _ "take i xs"], rule exI [of _ "drop (Suc i) xs"])
    (simp add: remove_nth_def id_take_nth_drop [symmetric])

lemma length_remove_nth: "i < length xs \<Longrightarrow> length (remove_nth i xs) = length xs - 1"
  by (simp add: remove_nth_def)

text \<open>A handler of the relay or before starts at most one operation, except \<open>do_stream\<close>.\<close>

definition starts_one :: "session \<Rightarrow> session \<Rightarrow> bool" where
  "starts_one s s' \<longleftrightarrow> s_pending s' = s_pending s \<or> (\<exists>p. s_pending s' = s_pending s @ [p])"

lemma starts_one_push [simp]: "starts_one s (push_op p s)"
  by (simp add: starts_one_def push_op_def)

lemma starts_one_write [simp]:
  "starts_one s (write_client b p s)" "starts_one s (write_remote b p s)"
  by (simp_all add: starts_one_def op_defs)

lemma starts_one_tunnel [simp]: "starts_one s (s\<lparr>s_tunnel_active := b\<rparr>)" "starts_one s s"
  by (simp_all add: starts_one_def)

lemma starts_one_cong: "starts_one s1 s' \<Longrightarrow> s_pending s1 = s_pending s \<Longrightarrow> starts_one s s'"
  by (simp add: starts_one_def)

lemma route_decision_starts:
  "do_route_decision env now (g, s) = Some (g', s') \<Longrightarrow> starts_one s s'"
  by (auto simp: do_route_decision_def op_defs starts_one_def split: if_splits option.splits)

lemma tunnel_up_starts: "tunnel_up s = Some s' \<Longrightarrow> starts_one s s'"
  by (auto simp: tunnel_up_def starts_one_def op_defs split: if_splits option.splits)

lemma close_starts: "close_session now why (g, s) = (g', s') \<Longrightarrow> starts_one s s'"
  by (drule close_snd) simp

lemma http_auth_starts:
  assumes "do_http_auth env now (g, s) = Some (g', s')"
  shows "starts_one s s'"
  using assms
proof (cases rule: http_auth_cases)
  case routed
  from starts_one_cong [OF route_decision_starts [OF routed(2)]] show ?thesis by simp
qed simp

lemma http_connect_starts:
  assumes "handle_http_connect env now sv (g, s) = Some (g', s')"
  shows "starts_one s s'"
  using assms
proof (cases rule: http_connect_cases)
  case (refused why bytes h p u w)
  then show ?thesis by (simp add: starts_one_def op_defs)
next
  case (checked h p u w)
  from starts_one_cong [OF http_auth_starts [OF checked]] show ?thesis by simp
qed

lemma socks_handshake_starts:
  "handle_socks5_handshake now data (g, s) = Some (g', s') \<Longrightarrow> starts_one s s'"
  by (cases "parse_greeting data") (auto simp: handle_socks5_handshake_def dest: close_starts)

lemma handle_auth_starts:
  assumes "handle_auth env now data (g, s) = Some (g', s')"
  shows "starts_one s s'"
proof (cases "parse_auth data")
  case (Auth_message user pass)
  show ?thesis
  proof (cases "en_auth env user pass")
    case True
    with assms Auth_message have "s' = write_client (auth_reply True) (Wr_auth True) (s\<lparr>s_username := user\<rparr>)"
      by (simp add: handle_auth_def)
    then show ?thesis by (simp add: op_defs starts_one_def)
  qed (use assms Auth_message in \<open>auto simp: handle_auth_def\<close>)
qed (use assms in \<open>auto simp: handle_auth_def dest: close_starts\<close>)

lemma handle_request_starts:
  assumes "handle_request env now data (g, s) = Some (g', s')"
  shows "starts_one s s'"
proof (cases "parse_request (en_v4 env) (en_v6 env) data")
  case (Connect_request host port)
  with assms have "do_route_decision env now (g, s\<lparr>s_target_host := host, s_target_port := port\<rparr>) = Some (g', s')"
    by (simp add: handle_request_def)
  from starts_one_cong [OF route_decision_starts [OF this]] show ?thesis by simp
qed (use assms in \<open>auto simp: handle_request_def dest: close_starts\<close>)

lemma handle_direct_starts:
  assumes "handle_direct_connected now local (g, s) = Some (g', s')"
  shows "starts_one s s'"
proof -
  have "tunnel_up (s\<lparr>s_tunnel_active := True, s_local := local\<rparr>) = Some s'"
    using assms by (auto simp: handle_direct_connected_def)
  from starts_one_cong [OF tunnel_up_starts [OF this]] show ?thesis by simp
qed

lemma handle_upstream_starts:
  "handle_upstream_greeting now data (g, s) = Some (g', s') \<Longrightarrow> starts_one s s'"
  by (auto simp: handle_upstream_greeting_def dest: close_starts split: if_splits)

lemma handle_reply_starts:
  assumes "handle_upstream_reply now data (g, s) = Some (g', s')"
  shows "starts_one s s'"
proof (cases "length data < 2 \<or> byte_val (data ! 1) \<noteq> 0")
  case True
  with assms show ?thesis by (auto simp: handle_upstream_reply_def dest: close_starts split: if_splits)
next
  case False
  with assms have "tunnel_up (s\<lparr>s_tunnel_active := True\<rparr>) = Some s'"
    by (auto simp: handle_upstream_reply_def Let_def)
  from starts_one_cong [OF tunnel_up_starts [OF this]] show ?thesis by simp
qed

lemma fail_starts [simp]: "starts_one s (fail_with code why s)"
  by (simp add: fail_with_def)

lemma http_first_starts:
  assumes "handle_http_connect env now sv (g, s\<lparr>s_is_http := True\<rparr>) = Some (g', s')"
  shows "starts_one s s'"
  using starts_one_cong [OF http_connect_starts [OF assms]] by simp

lemma resolved_starts: "starts_one s (push_op p (case ip of None \<Rightarrow> s | Some a \<Rightarrow> s\<lparr>s_resolved_ip := a\<rparr>))"
  by (auto simp: starts_one_def push_op_def split: option.split)

lemma local_starts: "starts_one s (write_remote b p (s\<lparr>s_local := l\<rparr>))"
  by (simp add: starts_one_def op_defs)

lemma handler_starts:
  assumes "run_handler env now p c (g, s) = Some (g', s')" "\<forall>why. p \<noteq> Wr_established why"
  shows "starts_one s s'"
proof (cases p)
  case Rd_handshake
  then show ?thesis
    using assms(1) http_first_starts socks_handshake_starts
    by (cases c) (auto simp: run_handler_def dest: close_starts split: if_splits)
next
  case Rd_methods
  then show ?thesis
    using assms(1) socks_handshake_starts
    by (cases c) (auto simp: run_handler_def dest: close_starts)
next
  case Rd_auth
  then show ?thesis
    using assms(1) handle_auth_starts by (cases c) (auto simp: run_handler_def dest: close_starts)
next
  case Rd_request
  then show ?thesis
    using assms(1) handle_request_starts by (cases c) (auto simp: run_handler_def dest: close_starts)
next
  case Resolve_direct
  then show ?thesis
    using assms(1) resolved_starts by (cases c) (auto simp: run_handler_def)
next
  case Connect_direct
  then show ?thesis
    using assms(1) handle_direct_starts by (cases c) (auto simp: run_handler_def)
next
  case Connect_upstream
  then show ?thesis
    using assms(1) local_starts by (cases c) (auto simp: run_handler_def)
next
  case Rd_greeting
  then show ?thesis
    using assms(1) handle_upstream_starts by (cases c) (auto simp: run_handler_def dest: close_starts)
next
  case Rd_connect
  then show ?thesis
    using assms(1) handle_reply_starts by (cases c) (auto simp: run_handler_def dest: close_starts)
next
  case Rd_client
  then show ?thesis
    using assms(1) by (cases c)
      (auto simp: run_handler_def handle_client_data_def starts_one_def op_defs dest: close_snd)
next
  case Rd_remote
  then show ?thesis
    using assms(1) by (cases c)
      (auto simp: run_handler_def handle_remote_data_def starts_one_def op_defs dest: close_snd)
next
  case (Wr_method b)
  then show ?thesis
    using assms(1) by (cases c; cases b) (auto simp: run_handler_def do_auth_def dest: close_starts)
next
  case (Wr_auth b)
  then show ?thesis
    using assms(1) by (cases c; cases b) (auto simp: run_handler_def do_request_def dest: close_starts)
next
  case (Wr_established why)
  then show ?thesis using assms(2) by simp
qed (use assms(1) in \<open>(cases c; auto simp: run_handler_def do_auth_def do_request_def dest: close_starts)+\<close>)

lemma established_starts:
  "run_handler env now (Wr_established why) c (g, s) = Some (g', s') \<Longrightarrow>
   s_pending s' = s_pending s \<or> s_pending s' = s_pending s @ [Rd_client, Rd_remote]"
  by (cases c) (auto simp: run_handler_def op_defs dest: close_snd)

section \<open>What the relay does\<close>

text \<open>The data the completion \<open>c\<close> of \<open>p\<close> delivers to the read operation \<open>q\<close>, and all of a run.\<close>

definition read_by :: "pending \<Rightarrow> pending \<Rightarrow> completion \<Rightarrow> string list" where
  "read_by q p c = (case c of Read data \<Rightarrow> if p = q then [data] else [] | _ \<Rightarrow> [])"

fun run_reads :: "pending \<Rightarrow> env \<Rightarrow> (time_point \<times> nat \<times> completion) list \<Rightarrow> world \<Rightarrow> string list" where
  "run_reads q env [] w = []"
| "run_reads q env ((now, i, c) # es) (g, s) =
     (if i < length (s_pending s) \<and> fits (s_pending s ! i) c then read_by q (s_pending s ! i) c else [])
     @ (case session_step env now i c (g, s) of None \<Rightarrow> [] | Some w \<Rightarrow> run_reads q env es w)"

definition total_length :: "string list \<Rightarrow> nat" where
  "total_length ds = sum_list (map length ds)"

lemma total_length_simps [simp]:
  "total_length [] = 0" "total_length (d # ds) = length d + total_length ds"
  "total_length (ds @ es) = total_length ds + total_length es"
  by (simp_all add: total_length_def)

definition relayed :: "string list \<Rightarrow> string list \<Rightarrow> session \<Rightarrow> session \<Rightarrow> bool" where
  "relayed up down s s' \<longleftrightarrow> s_to_remote s' = s_to_remote s @ up \<and> s_to_client s' = s_to_client s @ down
     \<and> s_bytes_up s' = s_bytes_up s + of_nat (total_length up)
     \<and> s_bytes_down s' = s_bytes_down s + of_nat (total_length down)"

lemma relayed_trans: "relayed u d s s1 \<Longrightarrow> relayed u' d' s1 s2 \<Longrightarrow> relayed (u @ u') (d @ d') s s2"
  by (simp add: relayed_def)

lemma relayed_tunnel [simp]: "relayed [] [] s (s\<lparr>s_tunnel_active := b\<rparr>)" "relayed [] [] s s"
  by (simp_all add: relayed_def)

lemma close_effect:
  "\<exists>g'. close_session now why (g, s) = (g', s\<lparr>s_tunnel_active := False\<rparr>)"
  by (metis close_snd surj_pair)

definition same_way :: "pending \<Rightarrow> pending \<Rightarrow> bool" where
  "same_way p q \<longleftrightarrow> (up_op p \<and> up_op q) \<or> (down_op p \<and> down_op q)"

lemma relay_handler:
  assumes "up_op p \<or> down_op p" "fits p c"
  shows "\<exists>g' s'. run_handler env now p c (g, s) = Some (g', s')
    \<and> relayed (read_by Rd_client p c) (read_by Rd_remote p c) s s'
    \<and> (s_pending s' = s_pending s \<or> (\<exists>q. same_way p q \<and> s_pending s' = s_pending s @ [q]))"
proof -
  obtain g1 where c1: "close_session now ''client disconnect'' (g, s) = (g1, s\<lparr>s_tunnel_active := False\<rparr>)"
    using close_effect by blast
  obtain g2 where c2: "close_session now ''remote disconnect'' (g, s) = (g2, s\<lparr>s_tunnel_active := False\<rparr>)"
    using close_effect by blast
  obtain g3 where c3: "close_session now ''remote write error'' (g, s) = (g3, s\<lparr>s_tunnel_active := False\<rparr>)"
    using close_effect by blast
  obtain g4 where c4: "close_session now ''client write error'' (g, s) = (g4, s\<lparr>s_tunnel_active := False\<rparr>)"
    using close_effect by blast
  from assms(1) consider "p = Rd_client" | "p = Wr_remote" | "p = Rd_remote" | "p = Wr_client"
    by (auto simp: up_op_def down_op_def)
  then show ?thesis
  proof cases
    case 1
    then show ?thesis
      using assms(2) c1 by (cases c) (auto simp: run_handler_def handle_client_data_def read_by_def
          relayed_def op_defs same_way_def up_op_def)
  next
    case 2
    then show ?thesis
      using assms(2) c3 by (cases c) (auto simp: run_handler_def read_by_def relayed_def op_defs
          same_way_def up_op_def)
  next
    case 3
    then show ?thesis
      using assms(2) c2 by (cases c) (auto simp: run_handler_def handle_remote_data_def read_by_def
          relayed_def op_defs same_way_def down_op_def)
  next
    case 4
    then show ?thesis
      using assms(2) c4 by (cases c) (auto simp: run_handler_def read_by_def relayed_def op_defs
          same_way_def down_op_def)
  qed
qed

text \<open>The operations of a session in its relay, with at most one in each direction.\<close>

definition relay_ops :: "pending list \<Rightarrow> bool" where
  "relay_ops ps \<longleftrightarrow> (\<forall>p \<in> set ps. up_op p \<or> down_op p) \<and> count_if up_op ps \<le> 1 \<and> count_if down_op ps \<le> 1"

lemma relay_ops_remove:
  assumes "i < length ps" "relay_ops ps"
  shows "relay_ops (remove_nth i ps)"
proof -
  obtain a b where ab: "ps = a @ ps ! i # b" "remove_nth i ps = a @ b"
    using remove_nth_split [OF assms(1)] by blast
  define p where "p = ps ! i"
  have "relay_ops (a @ p # b)" using assms(2) ab p_def by metis
  then have "relay_ops (a @ b)" by (auto simp: relay_ops_def split: if_splits)
  with ab show ?thesis by simp
qed

lemma relay_ops_replace:
  assumes "i < length ps" "relay_ops ps" "same_way (ps ! i) q"
  shows "relay_ops (remove_nth i ps @ [q])"
proof -
  obtain a b where ab: "ps = a @ ps ! i # b" "remove_nth i ps = a @ b"
    using remove_nth_split [OF assms(1)] by blast
  define p where "p = ps ! i"
  have not_both: "\<not> (up_op r \<and> down_op r)" for r by (auto simp: up_op_def down_op_def)
  have "relay_ops (a @ p # b)" using assms(2) ab p_def by metis
  moreover have "same_way p q" using assms(3) p_def by simp
  ultimately have "relay_ops ((a @ b) @ [q])"
    using not_both [of p] not_both [of q] by (auto simp: relay_ops_def same_way_def)
  with ab show ?thesis by simp
qed

lemma relay_step:
  assumes "relay_ops (s_pending s)"
  shows "\<exists>g' s'. session_step env now i c (g, s) = Some (g', s') \<and> relay_ops (s_pending s')
    \<and> relayed (if i < length (s_pending s) \<and> fits (s_pending s ! i) c
               then read_by Rd_client (s_pending s ! i) c else [])
              (if i < length (s_pending s) \<and> fits (s_pending s ! i) c
               then read_by Rd_remote (s_pending s ! i) c else []) s s'"
proof (cases "i < length (s_pending s) \<and> fits (s_pending s ! i) c")
  case False
  then show ?thesis using assms by (auto simp: session_step_def)
next
  case True
  let ?p = "s_pending s ! i"
  let ?s = "s\<lparr>s_pending := remove_nth i (s_pending s)\<rparr>"
  have "up_op ?p \<or> down_op ?p" using assms True by (simp add: relay_ops_def)
  from relay_handler [OF this, of c env now g ?s] True obtain g' s' where
    run: "run_handler env now ?p c (g, ?s) = Some (g', s')"
    and rel: "relayed (read_by Rd_client ?p c) (read_by Rd_remote ?p c) ?s s'"
    and pend: "s_pending s' = remove_nth i (s_pending s)
        \<or> (\<exists>q. same_way ?p q \<and> s_pending s' = remove_nth i (s_pending s) @ [q])"
    by auto
  have "relay_ops (s_pending s')"
    using pend relay_ops_remove [of i "s_pending s"] relay_ops_replace [of i "s_pending s"] True assms
    by auto
  moreover have "relayed (read_by Rd_client ?p c) (read_by Rd_remote ?p c) s s'"
    using rel by (simp add: relayed_def)
  ultimately show ?thesis using run True by (simp add: session_step_def)
qed

lemma relay_run:
  "relay_ops (s_pending s) \<Longrightarrow> \<exists>g' s'. session_run env es (g, s) = Some (g', s')
    \<and> relay_ops (s_pending s')
    \<and> relayed (run_reads Rd_client env es (g, s)) (run_reads Rd_remote env es (g, s)) s s'"
proof (induction es arbitrary: g s)
  case Nil
  then show ?case by simp
next
  case (Cons e es)
  obtain now i c where e: "e = (now, i, c)" by (cases e)
  from relay_step [OF Cons.prems, of env now i c g] obtain g1 s1 where
    st: "session_step env now i c (g, s) = Some (g1, s1)" and r1: "relay_ops (s_pending s1)"
    and rel: "relayed (if i < length (s_pending s) \<and> fits (s_pending s ! i) c
               then read_by Rd_client (s_pending s ! i) c else [])
              (if i < length (s_pending s) \<and> fits (s_pending s ! i) c
               then read_by Rd_remote (s_pending s ! i) c else []) s s1"
    by blast
  from Cons.IH [OF r1, of g1] obtain g' s' where
    "session_run env es (g1, s1) = Some (g', s')" "relay_ops (s_pending s')"
    "relayed (run_reads Rd_client env es (g1, s1)) (run_reads Rd_remote env es (g1, s1)) s1 s'"
    by blast
  with st relayed_trans [OF rel] show ?case by (simp add: e)
qed

section \<open>The buffers over a whole session\<close>

lemma buffers_ok_relay: "relay_ops ps \<Longrightarrow> buffers_ok ps"
  by (auto simp: relay_ops_def buffers_ok_def)

lemma buffers_ok_cases: "buffers_ok ps \<Longrightarrow> length ps \<le> 1 \<or> relay_ops ps"
  by (auto simp: relay_ops_def buffers_ok_def)

lemma relay_ops_start [simp]: "relay_ops [Rd_client, Rd_remote]"
  by (simp add: relay_ops_def up_op_def down_op_def)

lemma step_buffers:
  assumes "buffers_ok (s_pending s)" "session_step env now i c (g, s) = Some (g', s')"
  shows "buffers_ok (s_pending s')"
proof (cases "relay_ops (s_pending s)")
  case True
  from relay_step [OF this, of env now i c g] assms(2) show ?thesis
    by (auto intro: buffers_ok_relay)
next
  case False
  with buffers_ok_cases [OF assms(1)] have short: "length (s_pending s) \<le> 1" by blast
  show ?thesis
  proof (cases "i < length (s_pending s) \<and> fits (s_pending s ! i) c")
    case no: False
    with assms show ?thesis by (auto simp: session_step_def)
  next
    case True
    with short have p: "s_pending s = [s_pending s ! i]" "i = 0"
      by (cases "s_pending s"; auto)+
    let ?p = "s_pending s ! i" and ?s = "s\<lparr>s_pending := []\<rparr>"
    have "run_handler env now ?p c (g, s\<lparr>s_pending := remove_nth i (s_pending s)\<rparr>) = Some (g', s')"
      using assms(2) True by (simp add: session_step_def)
    moreover have "remove_nth i (s_pending s) = []" using p by (metis remove_nth_simps(2))
    ultimately have run: "run_handler env now ?p c (g, ?s) = Some (g', s')" by simp
    show ?thesis
    proof (cases "\<exists>why. ?p = Wr_established why")
      case True
      with established_starts run have
        "s_pending s' = [] \<or> s_pending s' = [Rd_client, Rd_remote]" by fastforce
      then show ?thesis by (auto intro: buffers_ok_relay)
    next
      case False
      with handler_starts [OF run] have "starts_one ?s s'" by blast
      then show ?thesis by (auto simp: starts_one_def)
    qed
  qed
qed

lemma run_buffers:
  "buffers_ok (s_pending s) \<Longrightarrow> session_run env es (g, s) = Some (g', s') \<Longrightarrow> buffers_ok (s_pending s')"
proof (induction es arbitrary: g s)
  case (Cons e es)
  obtain now i c where e: "e = (now, i, c)" by (cases e)
  with Cons.prems(2) obtain g1 s1 where st: "session_step env now i c (g, s) = Some (g1, s1)"
    and run: "session_run env es (g1, s1) = Some (g', s')"
    by (auto simp: bind_eq_Some_conv)
  show ?case by (rule Cons.IH [OF step_buffers [OF Cons.prems(1) st] run])
qed simp

lemma filter_up_client: "\<forall>p \<in> set ps. up_op p \<or> down_op p \<Longrightarrow>
    filter uses_client_buffer ps = filter up_op ps \<and> filter uses_remote_buffer ps = filter down_op ps"
  by (induction ps) (auto simp: up_op_def down_op_def uses_client_buffer_def uses_remote_buffer_def)

lemma buffers_ok_counts:
  assumes "buffers_ok ps"
  shows "count_if uses_client_buffer ps \<le> 1 \<and> count_if uses_remote_buffer ps \<le> 1"
proof (cases "length ps \<le> 1")
  case True
  have "count_if P ps \<le> 1" for P
    using order_trans [OF length_filter_le True] .
  then show ?thesis by blast
next
  case False
  with assms have "\<forall>p \<in> set ps. up_op p \<or> down_op p" "count_if up_op ps \<le> 1" "count_if down_op ps \<le> 1"
    by (auto simp: buffers_ok_def)
  with filter_up_client [of ps] show ?thesis by simp
qed

section \<open>Properties\<close>

text \<open>
  C4: the relay is transparent: whatever completions arrive in whatever order, it never throws, what
  was read from either side is what has been handed to the writes to the other, in the order it was read
  and nothing else, and the byte counters have grown by exactly its length.
\<close>

theorem relay_transparent:
  assumes "s_pending s = []"
  shows "\<exists>g' s'. session_run env es (g, do_stream s) = Some (g', s')
    \<and> s_to_remote s' = s_to_remote s @ run_reads Rd_client env es (g, do_stream s)
    \<and> s_to_client s' = s_to_client s @ run_reads Rd_remote env es (g, do_stream s)
    \<and> s_bytes_up s' = s_bytes_up s
        + of_nat (total_length (run_reads Rd_client env es (g, do_stream s)))
    \<and> s_bytes_down s' = s_bytes_down s
        + of_nat (total_length (run_reads Rd_remote env es (g, do_stream s)))"
proof -
  have "s_pending (do_stream s) = [Rd_client, Rd_remote]" using assms by (simp add: op_defs)
  with relay_run [of "do_stream s" env es g] obtain g' s' where
    "session_run env es (g, do_stream s) = Some (g', s')"
    "relayed (run_reads Rd_client env es (g, do_stream s)) (run_reads Rd_remote env es (g, do_stream s))
       (do_stream s) s'"
    by auto
  then show ?thesis by (simp add: relayed_def op_defs)
qed

text \<open>
  the two buffers of a session are never shared: in every state a session reaches, at most one
  operation uses the client buffer and at most one the remote buffer, so no data is overwritten
  before it has been sent on.
\<close>

theorem buffers_not_shared:
  assumes "session_run env es (session_start env now ip port (g, new_session sid)) = Some (g', s')"
  shows "count_if uses_client_buffer (s_pending s') \<le> 1 \<and> count_if uses_remote_buffer (s_pending s') \<le> 1"
proof -
  obtain g0 s0 where start: "session_start env now ip port (g, new_session sid) = (g0, s0)" by fastforce
  have "buffers_ok (s_pending s0)"
    using snd_start [of env now ip port g "new_session sid"] start
    by (auto simp: new_session_def op_defs)
  from buffers_ok_counts [OF run_buffers [OF this assms [unfolded start]]] show ?thesis .
qed

section \<open>Concrete runs\<close>

definition sample_relay :: "(time_point \<times> nat \<times> completion) list" where
  "sample_relay = [(1, 0, Read ''abc''), (2, 0, Read ''xy''), (3, 0, Written), (4, 1, Read ''d'')]"

lemma sample_relay_reads:
  "run_reads Rd_client sample_env sample_relay (fresh_gateway, do_stream (new_session ''sid'')) = [''abc'', ''d'']"
  "run_reads Rd_remote sample_env sample_relay (fresh_gateway, do_stream (new_session ''sid'')) = [''xy'']"
  by code_simp+

theorem relay_transparent_witness:
  "\<exists>g s. session_run sample_env sample_relay (fresh_gateway, do_stream (new_session ''sid'')) = Some (g, s)
     \<and> s_to_remote s = [''abc'', ''d''] \<and> s_to_client s = [''xy''] \<and> s_bytes_up s = 4 \<and> s_bytes_down s = 2"
proof -
  have "s_pending (new_session ''sid'') = []" "s_to_remote (new_session ''sid'') = []"
    "s_to_client (new_session ''sid'') = []" "s_bytes_up (new_session ''sid'') = 0"
    "s_bytes_down (new_session ''sid'') = 0"
    by (simp_all add: new_session_def)
  with relay_transparent [of "new_session ''sid''" sample_env sample_relay fresh_gateway] show ?thesis
    by (simp add: sample_relay_reads)
qed

theorem buffers_not_shared_witness:
  "\<exists>g s. session_run sample_env sample_login
       (session_start sample_env 0 ''ip'' ''1'' (fresh_gateway, new_session ''sid'')) = Some (g, s)
     \<and> count_if uses_client_buffer (s_pending s) \<le> 1"
proof -
  obtain g s where run: "session_run sample_env sample_login
       (session_start sample_env 0 ''ip'' ''1'' (fresh_gateway, new_session ''sid'')) = Some (g, s)"
    using sample_login_run by (auto simp: map_option_case split: option.splits)
  then show ?thesis using buffers_not_shared [OF run] by blast
qed

end
