(* ===== verification/Session_Accounting.thy ===== *)
theory Session_Accounting
  imports Session_Relay
begin

text \<open>
  What sessions take from and give back to the shared components: the admission counts, the total of
  the overload protector and the connection count of the chosen node. The properties state exactly
  when a session is admitted and where the accounting of \<^verbatim>\<open>session.cpp\<close> does not balance.
\<close>

section \<open>Handlers keep the accounts or close the session\<close>

definition keeps :: "gateway \<Rightarrow> gateway \<Rightarrow> bool" where
  "keeps g g' \<longleftrightarrow> gw_overload g' = gw_overload g \<and> gw_admitter g' = gw_admitter g"

definition keeps_or_closes :: "time_point \<Rightarrow> world \<Rightarrow> world \<Rightarrow> bool" where
  "keeps_or_closes now w w' \<longleftrightarrow> keeps (fst w) (fst w') \<or> (\<exists>why. w' = close_session now why w)"

lemma keeps_or_closes_intros [simp, intro]:
  "keeps g g' \<Longrightarrow> keeps_or_closes now (g, s) (g', s')"
  "close_session now why w = w' \<Longrightarrow> keeps_or_closes now w w'"
  by (auto simp: keeps_or_closes_def)

lemma keeps_refl [simp]: "keeps g g" "keeps g (g\<lparr>gw_registry := r\<rparr>)" "keeps g (g\<lparr>gw_balancer := b\<rparr>)"
    "keeps g (g\<lparr>gw_limiter := l\<rparr>)" "keeps g (g\<lparr>gw_concurrency := m\<rparr>)" "keeps g (g\<lparr>gw_metrics := n\<rparr>)"
  by (simp_all add: keeps_def)

lemma keeps_trans: "keeps g g1 \<Longrightarrow> keeps g1 g2 \<Longrightarrow> keeps g g2"
  by (simp add: keeps_def)

lemma auth_keeps [simp]: "keeps g (auth_failed now (g, s))" "keeps g (auth_succeeded now u (g, s))"
  by (simp_all add: keeps_def auth_failed_def auth_succeeded_def)

lemma route_decision_keeps: "do_route_decision env now (g, s) = Some (g', s') \<Longrightarrow> keeps g g'"
  by (auto simp: do_route_decision_def keeps_def split: if_splits option.splits)

lemma http_auth_keeps:
  assumes "do_http_auth env now (g, s) = Some (g', s')"
  shows "keeps g g'"
  using assms
proof (cases rule: http_auth_cases)
  case routed
  from keeps_trans [OF auth_keeps(2) route_decision_keeps [OF routed(2)]] show ?thesis .
qed simp

lemma http_connect_keeps:
  assumes "handle_http_connect env now sv (g, s) = Some (g', s')"
  shows "keeps g g'"
  using assms by (cases rule: http_connect_cases) (simp_all add: http_auth_keeps)

lemma socks_handshake_keeps:
  "handle_socks5_handshake now data (g, s) = Some (g', s') \<Longrightarrow> keeps_or_closes now (g, s) (g', s')"
  by (cases "parse_greeting data") (auto simp: handle_socks5_handshake_def)

lemma handle_auth_keeps:
  "handle_auth env now data (g, s) = Some (g', s') \<Longrightarrow> keeps_or_closes now (g, s) (g', s')"
  by (cases "parse_auth data") (auto simp: handle_auth_def split: if_splits)

lemma handle_request_keeps:
  assumes "handle_request env now data (g, s) = Some (g', s')"
  shows "keeps_or_closes now (g, s) (g', s')"
proof (cases "parse_request (en_v4 env) (en_v6 env) data")
  case (Connect_request host port)
  with assms have "do_route_decision env now (g, s\<lparr>s_target_host := host, s_target_port := port\<rparr>) = Some (g', s')"
    by (simp add: handle_request_def)
  from route_decision_keeps [OF this] show ?thesis by simp
qed (use assms in \<open>auto simp: handle_request_def\<close>)

lemma handle_direct_keeps:
  "handle_direct_connected now local (g, s) = Some (g', s') \<Longrightarrow> keeps g g'"
  by (auto simp: handle_direct_connected_def)

lemma handle_upstream_keeps:
  "handle_upstream_greeting now data (g, s) = Some (g', s') \<Longrightarrow> keeps_or_closes now (g, s) (g', s')"
  by (auto simp: handle_upstream_greeting_def split: if_splits)

lemma handle_reply_keeps:
  "handle_upstream_reply now data (g, s) = Some (g', s') \<Longrightarrow> keeps_or_closes now (g, s) (g', s')"
  by (auto simp: handle_upstream_reply_def Let_def split: if_splits)

lemmas handler_keeps_rules = route_decision_keeps http_connect_keeps socks_handshake_keeps
  handle_auth_keeps handle_request_keeps handle_direct_keeps handle_upstream_keeps handle_reply_keeps

lemma handler_keeps:
  assumes "run_handler env now p c (g, s) = Some (g', s')"
  shows "keeps_or_closes now (g, s) (g', s')"
proof (cases p)
  case Rd_handshake
  then show ?thesis
    using assms socks_handshake_keeps http_connect_keeps
    by (cases c) (auto simp: run_handler_def split: if_splits)
next
  case Rd_methods
  then show ?thesis using assms socks_handshake_keeps by (cases c) (auto simp: run_handler_def)
next
  case (Wr_method b)
  then show ?thesis using assms by (cases c; cases b) (auto simp: run_handler_def)
next
  case (Wr_auth b)
  then show ?thesis using assms by (cases c; cases b) (auto simp: run_handler_def)
next
  case Rd_auth
  then show ?thesis using assms handle_auth_keeps by (cases c) (auto simp: run_handler_def)
next
  case Rd_request
  then show ?thesis using assms handle_request_keeps by (cases c) (auto simp: run_handler_def)
next
  case Connect_direct
  then show ?thesis using assms handle_direct_keeps by (cases c) (auto simp: run_handler_def)
next
  case Rd_greeting
  then show ?thesis using assms handle_upstream_keeps by (cases c) (auto simp: run_handler_def)
next
  case Rd_connect
  then show ?thesis using assms handle_reply_keeps by (cases c) (auto simp: run_handler_def)
next
  case Rd_client
  then show ?thesis using assms by (cases c) (auto simp: run_handler_def handle_client_data_def)
next
  case Rd_remote
  then show ?thesis using assms by (cases c) (auto simp: run_handler_def handle_remote_data_def)
qed (use assms in \<open>(cases c; auto simp: run_handler_def)+\<close>)

section \<open>Releasing and admitting\<close>

lemma release_no_queue:
  assumes "adm_queue adm = []"
  shows "fst (release_connection now user adm) =
    adm\<lparr>adm_active_connections := dec_positive (adm_active_connections adm),
        adm_user_connections := counter_dec user (adm_user_connections adm)\<rparr>"
  using assms
  by (simp add: release_connection_def dequeue_connections_def drain.simps [of "adm\<lparr>adm_active_connections := a,
      adm_user_connections := u\<rparr>" for a u] check_queue_timeouts_def dec_positive_def Let_def split_beta)

lemma admitter_close:
  "gw_admitter (fst (close_session now why (g, s))) =
     (if s_admitted s then fst (release_connection now (s_username s) (gw_admitter g)) else gw_admitter g)"
  by (simp add: close_session_def Let_def)

lemma overload_close:
  "gw_overload (fst (close_session now why (g, s))) =
     (if s_admitted s then dec_total_connections (gw_overload g) else gw_overload g)"
  by (simp add: close_session_def Let_def)

text \<open>The answer of the admitter and what it costs.\<close>

lemma request_admit_cases:
  assumes "request_admit rnd os now sid ip user a t r rl op adm = (resp, rl', adm')"
  shows "(ar_result resp \<in> {Accepted, Queued} \<and> \<not> sys_overloaded rnd os op
      \<and> \<not> user_limit_reached user adm \<and> fst (check_connection_rate now ip rl)
      \<and> (ar_result resp = Accepted \<longrightarrow> adm' = admit_one user adm)
      \<and> (ar_result resp = Queued \<longrightarrow> adm_active_connections adm \<ge> adm_max_connections adm))
    \<or> (ar_result resp \<notin> {Accepted, Queued} \<and> adm' = adm)"
  using assms
  by (auto simp: request_admit_def admit_or_queue_def Let_def split: prod.splits if_splits)

lemma rejected_iff:
  "r \<in> {Rejected_total, Rejected_user, Rejected_rate, Rejected_banned, Rejected_overload}
    \<longleftrightarrow> r \<notin> {Accepted, Queued}"
  by (cases r) simp_all

text \<open>The two ways a session starts.\<close>

lemma start_cases:
  assumes "session_start env now ip port (g, s) = (g', s')" "\<not> s_admitted s" "\<not> s_tunnel_active s"
    and "0 \<le> op_total_connections (gw_overload g)"
  obtains (refused) "s' = s\<lparr>s_client_addr := ip @ '':'' @ port\<rparr>" "gw_overload g' = gw_overload g"
      "gw_admitter g' = gw_admitter g" "gw_registry g' = unregister_connection (s_session_id s) (gw_registry g)"
  | (admitted) resp rl1 rl2 adm2 where
      "s' = push_op Rd_handshake (s\<lparr>s_client_addr := ip @ '':'' @ port, s_admitted := True\<rparr>)"
      "check_connection_rate now ip (gw_limiter g) = (True, rl1)"
      "request_admit (en_rnd env) (en_os env) now (s_session_id s) ip '''' None None False rl1
         (inc_total_connections (gw_overload g)) (gw_admitter g) = (resp, rl2, adm2)"
      "ar_result resp \<in> {Accepted, Queued}"
      "gw_overload g' = inc_total_connections (gw_overload g)" "gw_admitter g' = adm2"
      "gw_registry g' = register_connection now (s_session_id s) (ip @ '':'' @ port) '''' (gw_registry g)"
proof -
  let ?s = "s\<lparr>s_client_addr := ip @ '':'' @ port\<rparr>"
  have close: "close_session now why (h, ?s) = (h', s1) \<Longrightarrow> s1 = ?s \<and> gw_overload h' = gw_overload h
      \<and> gw_admitter h' = gw_admitter h
      \<and> gw_registry h' = unregister_connection (s_session_id s) (gw_registry h)" for why h h' s1
    using assms(2,3) by (auto simp: close_session_def Let_def)
  show thesis
  proof (cases "sys_overloaded (en_rnd env) (en_os env) (gw_overload g)")
    case True
    with assms(1) have "close_session now ''system overloaded'' (g, ?s) = (g', s')"
      by (simp add: session_start_def Let_def)
    from close [OF this] show thesis by (intro refused) auto
  next
    case False
    obtain ok rl1 where rate: "check_connection_rate now ip (gw_limiter g) = (ok, rl1)" by fastforce
    show thesis
    proof (cases ok)
      case no: False
      with False rate assms(1) have "close_session now ''rate limited'' (g\<lparr>gw_limiter := rl1\<rparr>, ?s) = (g', s')"
        by (simp add: session_start_def Let_def)
      from close [OF this] show thesis by (intro refused) auto
    next
      case True
      let ?op = "inc_total_connections (gw_overload g)"
      obtain resp rl2 adm2 where adm: "request_admit (en_rnd env) (en_os env) now (s_session_id s) ip ''''
          None None False rl1 ?op (gw_admitter g) = (resp, rl2, adm2)"
        by (metis prod_cases3)
      let ?g = "g\<lparr>gw_limiter := rl2, gw_overload := ?op, gw_admitter := adm2\<rparr>"
      show thesis
      proof (cases "ar_result resp \<in> {Accepted, Queued}")
        case acc: True
        with False rate True adm assms(1) show thesis
          by (intro admitted [of rl1 resp rl2 adm2])
            (auto simp: session_start_def Let_def do_handshake_def)
      next
        case rej: False
        have undo: "dec_total_connections ?op = gw_overload g"
          using assms(4) by (simp add: dec_total_connections_def inc_total_connections_def)
        have "adm2 = gw_admitter g" using request_admit_cases [OF adm] rej by blast
        moreover have "close_session now (ar_reason resp)
            (?g\<lparr>gw_overload := dec_total_connections ?op\<rparr>, ?s) = (g', s')"
          using assms(1) False rate True adm rej rejected_iff [of "ar_result resp"]
          by (simp add: session_start_def Let_def)
        from close [OF this] calculation undo show thesis by (intro refused) auto
      qed
    qed
  qed
qed

section \<open>Users of the anonymous count\<close>

text \<open>
  A session is admitted for the empty user name, and released for the name it has when it closes.
  \<open>anonymous\<close> reads the count of the former.
\<close>

definition anonymous :: "gateway \<Rightarrow> int" where
  "anonymous g = adm_get_user_connections '''' (gw_admitter g)"

definition quiet :: "int \<Rightarrow> int \<Rightarrow> int \<Rightarrow> gateway \<Rightarrow> bool" where
  "quiet n m k g \<longleftrightarrow> adm_queue (gw_admitter g) = [] \<and> counters_pos (adm_user_connections (gw_admitter g))
     \<and> adm_max_connections (gw_admitter g) = m \<and> adm_max_connections_per_user (gw_admitter g) = k
     \<and> adm_active_connections (gw_admitter g) \<le> n \<and> 0 \<le> op_total_connections (gw_overload g)"

lemma quiet_keeps: "quiet n m k g \<Longrightarrow> keeps g g' \<Longrightarrow> quiet n m k g' \<and> anonymous g' = anonymous g"
  by (simp add: quiet_def keeps_def anonymous_def)

lemma quiet_close:
  assumes "quiet n m k g" "close_session now why (g, s) = (g', s')"
  shows "quiet n m k g'" "s_username s \<noteq> '''' \<Longrightarrow> anonymous g' = anonymous g"
proof -
  have a: "gw_admitter g' = (if s_admitted s then fst (release_connection now (s_username s) (gw_admitter g))
      else gw_admitter g)"
    using admitter_close [of now why g s] assms(2) by simp
  have o: "gw_overload g' = (if s_admitted s then dec_total_connections (gw_overload g) else gw_overload g)"
    using overload_close [of now why g s] assms(2) by simp
  have q: "adm_queue (gw_admitter g) = []" using assms(1) by (simp add: quiet_def)
  show "quiet n m k g'"
    using assms(1) a o release_no_queue [OF q]
    by (auto simp: quiet_def dec_positive_def dec_total_connections_def)
  assume "s_username s \<noteq> ''''"
  then show "anonymous g' = anonymous g"
    using a release_no_queue [OF q] by (auto simp: anonymous_def adm_get_user_connections_def counter_defs
        split: option.splits)
qed

text \<open>
  The state of a session and of the anonymous count: before the user has a name the handshake is
  the only operation; once there is a name the count stays what it was after the admission.
\<close>

definition named_inv :: "int \<Rightarrow> int \<Rightarrow> int \<Rightarrow> int \<Rightarrow> gateway \<Rightarrow> session \<Rightarrow> bool" where
  "named_inv n m k a g s \<longleftrightarrow> quiet n m k g \<and>
     ((s_username s = '''' \<and> (\<exists>p. s_pending s = [p] \<and> handshake_op p) \<and> anonymous g = a)
      \<or> ((\<forall>p \<in> set (s_pending s). \<not> handshake_op p) \<and> (s_username s = '''' \<or> anonymous g = a)))"

definition after_handshake :: "session \<Rightarrow> bool" where
  "after_handshake s \<longleftrightarrow> (\<forall>q \<in> set (s_pending s). \<not> handshake_op q)
     \<or> (s_username s = '''' \<and> (\<exists>q. s_pending s = [q] \<and> handshake_op q))"

lemma after_handshake_idle: "s_pending s = [] \<Longrightarrow> after_handshake s"
  by (simp add: after_handshake_def)

lemma after_handshake_op:
  "s_pending s = [q] \<Longrightarrow> s_username s = '''' \<or> \<not> handshake_op q \<Longrightarrow> after_handshake s"
  by (auto simp: after_handshake_def)

lemma after_past_login: "past_login s s' \<Longrightarrow> s_pending s = [] \<Longrightarrow> after_handshake s'"
  by (auto simp: past_login_def after_handshake_def)

lemma http_connect_after:
  assumes "handle_http_connect env now sv (g, s) = Some (g', s')" "s_pending s = []"
  shows "after_handshake s'"
  using assms(1)
proof (cases rule: http_connect_cases)
  case (refused why bytes h p u w)
  with assms(2) show ?thesis
    by (intro after_handshake_op [of _ "Wr_close why"]) (simp_all add: op_defs handshake_op_def)
next
  case (checked h p u w)
  then show ?thesis
  proof (cases rule: http_auth_cases)
    case refused
    with assms(2) show ?thesis
      by (intro after_handshake_op [of _ "Wr_close ''auth failed''"]) (simp_all add: op_defs handshake_op_def)
  next
    case routed
    from after_past_login [OF route_decision_past_login [OF this(2)]] assms(2) show ?thesis by simp
  qed
qed

lemma socks_handshake_after:
  assumes "handle_socks5_handshake now data (g, s) = Some (g', s')" "s_pending s = []" "s_username s = ''''"
  shows "after_handshake s'"
proof (cases "parse_greeting data")
  case Greeting_invalid
  with assms show ?thesis
    by (auto simp: handle_socks5_handshake_def intro!: after_handshake_idle dest: close_snd)
next
  case Greeting_short
  with assms show ?thesis
    by (intro after_handshake_op [of _ Rd_methods]) (auto simp: handle_socks5_handshake_def op_defs)
next
  case (Greeting b)
  with assms show ?thesis
    by (intro after_handshake_op [of _ "Wr_method b"]) (auto simp: handle_socks5_handshake_def op_defs)
qed

lemma handle_auth_after:
  assumes "handle_auth env now data (g, s) = Some (g', s')" "s_pending s = []" "s_username s = ''''"
  shows "after_handshake s'"
proof (cases "parse_auth data")
  case Auth_invalid
  with assms show ?thesis
    by (auto simp: handle_auth_def intro!: after_handshake_idle dest: close_snd)
next
  case Auth_short
  with assms show ?thesis
    by (intro after_handshake_op [of _ Rd_auth_rest]) (auto simp: handle_auth_def op_defs)
next
  case (Auth_message user pass)
  show ?thesis
  proof (cases "en_auth env user pass")
    case True
    with Auth_message assms show ?thesis
      by (intro after_handshake_op [of _ "Wr_auth True"]) (auto simp: handle_auth_def op_defs handshake_op_def)
  next
    case False
    with Auth_message assms show ?thesis
      by (intro after_handshake_op [of _ "Wr_auth False"]) (auto simp: handle_auth_def op_defs)
  qed
qed

lemma handshake_after:
  assumes "handshake_op p" "s_pending s = []" "s_username s = ''''"
    and "run_handler env now p c (g, s) = Some (g', s')"
  shows "after_handshake s'"
proof -
  have closed: "after_handshake s'" if "close_session now why (g, s) = (g', s')" for why
    using close_snd [OF that] assms(2) by (simp add: after_handshake_idle)
  have idle: "after_handshake s" using assms(2) by (rule after_handshake_idle)
  have one: "after_handshake (push_op q s)" for q
    using assms(2,3) by (intro after_handshake_op [of _ q]) (simp_all add: op_defs)
  show ?thesis
  proof (cases p)
    case Rd_handshake
    show ?thesis
    proof (cases c)
      case (Read data)
      with Rd_handshake assms http_connect_after [of env now data g "s\<lparr>s_is_http := True\<rparr>" g' s']
        socks_handshake_after [of now data g s g' s'] show ?thesis
        by (simp add: run_handler_def split: if_splits)
    qed (use Rd_handshake assms(4) in \<open>auto simp: run_handler_def intro: closed\<close>)
  next
    case Rd_methods
    then show ?thesis
      using assms(4) by (cases c)
        (auto simp: run_handler_def intro: closed socks_handshake_after [OF _ assms(2,3)])
  next
    case (Wr_method b)
    then show ?thesis
      using assms(4) idle by (cases c; cases b) (auto simp: run_handler_def do_auth_def intro: closed one)
  next
    case Rd_auth
    then show ?thesis
      using assms(4) by (cases c) (auto simp: run_handler_def intro: closed handle_auth_after [OF _ assms(2,3)])
  next
    case Rd_auth_rest
    then show ?thesis
      using assms(4) by (cases c) (auto simp: run_handler_def do_auth_def intro: closed one)
  next
    case (Wr_auth b)
    then show ?thesis
      using assms(1,4) by (auto simp: run_handler_def handshake_op_def intro: closed)
  qed (use assms(1) in \<open>simp_all add: handshake_op_def\<close>)
qed

text \<open>Closing for the empty name happens only where nothing is pending any more.\<close>

lemma handshake_close_idle:
  assumes "s_pending s = []" "close_session now why (g, s) = (g', s')" "s_username s = ''''"
    "quiet n m k g"
  shows "named_inv n m k a g' s'"
  using close_snd [OF assms(2)] quiet_close(1) [OF assms(4,2)] assms(1,3) by (simp add: named_inv_def)

lemma named_intro:
  "quiet n m k g \<Longrightarrow> anonymous g = a \<Longrightarrow> after_handshake s \<Longrightarrow> named_inv n m k a g s"
  unfolding named_inv_def after_handshake_def by blast

lemma step_named:
  assumes "named_inv n m k a g s" "session_step env now i c (g, s) = Some (g', s')"
  shows "named_inv n m k a g' s'"
proof (cases "i < length (s_pending s) \<and> fits (s_pending s ! i) c")
  case False
  with assms show ?thesis by (auto simp: session_step_def)
next
  case True
  let ?p = "s_pending s ! i"
  let ?s = "s\<lparr>s_pending := remove_nth i (s_pending s)\<rparr>"
  have run: "run_handler env now ?p c (g, ?s) = Some (g', s')"
    using assms(2) True by (simp add: session_step_def)
  have quiet: "quiet n m k g" using assms(1) by (simp add: named_inv_def)
  have sub: "set (remove_nth i (s_pending s)) \<subseteq> set (s_pending s)"
    by (auto simp: remove_nth_def dest: in_set_takeD in_set_dropD)
  from assms(1) consider
      p where "s_username s = ''''" "s_pending s = [p]" "handshake_op p" "anonymous g = a"
    | "\<forall>p \<in> set (s_pending s). \<not> handshake_op p" "s_username s = '''' \<or> anonymous g = a"
    by (auto simp: named_inv_def)
  then show ?thesis
  proof cases
    case 1
    with True have i: "i = 0" "?p = p" by auto
    have op: "handshake_op ?p" unfolding i(2) by (rule 1(3))
    have idle: "s_pending ?s = []" "s_username ?s = ''''" using 1 i by (simp_all add: remove_nth_def)
    from handler_keeps [OF run] show ?thesis
      unfolding keeps_or_closes_def
    proof (elim disjE exE)
      assume "keeps (fst (g, ?s)) (fst (g', s'))"
      then have "quiet n m k g' \<and> anonymous g' = anonymous g" using quiet_keeps [OF quiet] by (simp only: fst_conv)
      moreover have "after_handshake s'" by (rule handshake_after [OF op idle run])
      ultimately show ?thesis using 1(4) by (blast intro: named_intro)
    next
      fix why assume "(g', s') = close_session now why (g, ?s)"
      from handshake_close_idle [OF idle(1) this [symmetric] idle(2) quiet] show ?thesis .
    qed
  next
    case 2
    have p: "\<not> handshake_op ?p" using True 2(1) by simp
    from handler_past_login [OF p run] have name: "s_username s' = s_username s"
      and ops: "\<forall>q \<in> set (s_pending s'). \<not> handshake_op q"
      using 2(1) sub by (auto simp: past_login_def)
    from handler_keeps [OF run] show ?thesis
      unfolding keeps_or_closes_def
    proof (elim disjE exE)
      assume "keeps (fst (g, ?s)) (fst (g', s'))"
      then have "quiet n m k g' \<and> anonymous g' = anonymous g" using quiet_keeps [OF quiet] by (simp only: fst_conv)
      with name ops 2(2) show ?thesis unfolding named_inv_def by metis
    next
      fix why assume "(g', s') = close_session now why (g, ?s)"
      then have cl: "close_session now why (g, ?s) = (g', s')" by simp
      have "quiet n m k g'" by (rule quiet_close(1) [OF quiet cl])
      moreover have "s_username s' = '''' \<or> anonymous g' = a"
      proof (cases "s_username s = ''''")
        case False
        then have "s_username ?s \<noteq> ''''" by simp
        from quiet_close(2) [OF quiet cl this] 2(2) False show ?thesis by simp
      qed (simp add: name)
      ultimately show ?thesis using ops unfolding named_inv_def by blast
    qed
  qed
qed

lemma run_named:
  "named_inv n m k a g s \<Longrightarrow> session_run env es (g, s) = Some (g', s') \<Longrightarrow> named_inv n m k a g' s'"
proof (induction es arbitrary: g s)
  case (Cons e es)
  obtain now i c where e: "e = (now, i, c)" by (cases e)
  with Cons.prems(2) obtain g1 s1 where st: "session_step env now i c (g, s) = Some (g1, s1)"
    and run: "session_run env es (g1, s1) = Some (g', s')"
    by (auto simp: bind_eq_Some_conv)
  show ?case by (rule Cons.IH [OF step_named [OF Cons.prems(1) st] run])
qed simp

section \<open>Sessions one after the other\<close>

text \<open>
  Clients that come one after the other, each with the time it connects, its address and port, its
  session identifier and the completions of its session; the final state of each is returned.
\<close>

type_synonym visit = "time_point \<times> string \<times> string \<times> string \<times> (time_point \<times> nat \<times> completion) list"

fun serve :: "env \<Rightarrow> visit list \<Rightarrow> gateway \<Rightarrow> (gateway \<times> session list) option" where
  "serve env [] g = Some (g, [])"
| "serve env ((now, ip, port, sid, es) # vs) g =
     (case session_run env es (session_start env now ip port (g, new_session sid)) of
        None \<Rightarrow> None
      | Some (g1, s1) \<Rightarrow> map_option (\<lambda>(g2, ss). (g2, s1 # ss)) (serve env vs g1))"

lemma run_idle: "s_pending s = [] \<Longrightarrow> session_run env es (g, s) = Some (g, s)"
proof (induction es)
  case (Cons e es)
  then show ?case by (cases e) (simp add: session_step_def)
qed simp

lemma admit_one_quiet:
  assumes "quiet n m k g" "gw_admitter g' = admit_one '''' (gw_admitter g)"
    and "gw_overload g' = inc_total_connections (gw_overload g)"
  shows "quiet (n + 1) m k g' \<and> anonymous g' = anonymous g + 1"
  using assms by (auto simp: quiet_def anonymous_def admit_one_def inc_total_connections_def
      adm_get_user_connections_def counter_get_inc)

text \<open>One visit that leaves a name adds one to the anonymous count.\<close>

lemma visit_anonymous:
  assumes "quiet n m k g" "n < m"
    and "session_run env es (session_start env now ip port (g, new_session sid)) = Some (g', s')"
    and "s_username s' \<noteq> ''''"
  shows "quiet (n + 1) m k g' \<and> anonymous g' = anonymous g + 1"
proof -
  obtain g0 s0 where start: "session_start env now ip port (g, new_session sid) = (g0, s0)" by fastforce
  have run: "session_run env es (g0, s0) = Some (g', s')" using assms(3) start by simp
  have fresh: "\<not> s_admitted (new_session sid)" "\<not> s_tunnel_active (new_session sid)"
      "s_username (new_session sid) = ''''" "s_pending (new_session sid) = []"
    by (simp_all add: new_session_def)
  have total: "0 \<le> op_total_connections (gw_overload g)" using assms(1) by (simp add: quiet_def)
  from start fresh(1,2) total show ?thesis
  proof (cases rule: start_cases)
    case refused
    then have "s_pending s0 = []" "s_username s0 = ''''" using fresh by simp_all
    with run_idle [of s0 env es g0] run assms(4) show ?thesis by simp
  next
    case (admitted resp rl1 rl2 adm2)
    from request_admit_cases [OF admitted(3)] admitted(4)
    have "ar_result resp = Accepted \<Longrightarrow> adm2 = admit_one '''' (gw_admitter g)"
      and "ar_result resp = Queued \<Longrightarrow> adm_active_connections (gw_admitter g) \<ge> adm_max_connections (gw_admitter g)"
      by auto
    with admitted(4) assms(1,2) have adm: "adm2 = admit_one '''' (gw_admitter g)"
      by (auto simp: quiet_def)
    have "quiet (n + 1) m k g0 \<and> anonymous g0 = anonymous g + 1"
      using admit_one_quiet [OF assms(1)] admitted(5,6) adm by simp
    moreover have "s_username s0 = ''''" "s_pending s0 = [Rd_handshake]"
      using admitted(1) fresh by (simp_all add: op_defs)
    ultimately have "named_inv (n + 1) m k (anonymous g + 1) g0 s0"
      by (simp add: named_inv_def handshake_op_def)
    from run_named [OF this run] assms(4) show ?thesis
      unfolding named_inv_def by blast
  qed
qed

lemma serve_anonymous:
  "serve env vs g = Some (g', ss) \<Longrightarrow> quiet n m k g \<Longrightarrow> n + int (length vs) \<le> m \<Longrightarrow>
   \<forall>s \<in> set ss. s_username s \<noteq> '''' \<Longrightarrow>
   quiet (n + int (length vs)) m k g' \<and> anonymous g' = anonymous g + int (length vs)"
proof (induction vs arbitrary: g n ss)
  case (Cons v vs)
  obtain now ip port sid es where v: "v = (now, ip, port, sid, es)" by (metis prod_cases5)
  from Cons.prems(1) obtain g1 s1 ss1 where
    run: "session_run env es (session_start env now ip port (g, new_session sid)) = Some (g1, s1)"
    and rest: "serve env vs g1 = Some (g', ss1)" and ss: "ss = s1 # ss1"
    by (auto simp: v split: option.splits)
  have "quiet (n + 1) m k g1 \<and> anonymous g1 = anonymous g + 1"
    using visit_anonymous [OF Cons.prems(2) _ run] Cons.prems(3,4) ss by simp
  with Cons.IH [OF rest, of "n + 1"] Cons.prems(3,4) ss show ?case by (simp add: algebra_simps)
qed simp

lemma anonymous_limit_refuses:
  assumes "quiet n m k g" "k \<le> anonymous g" "1 \<le> k"
  shows "\<not> s_admitted (snd (session_start env now ip port (g, new_session sid)))"
proof -
  obtain g0 s0 where start: "session_start env now ip port (g, new_session sid) = (g0, s0)" by fastforce
  have fresh: "\<not> s_admitted (new_session sid)" "\<not> s_tunnel_active (new_session sid)"
    by (simp_all add: new_session_def)
  have "user_limit_reached '''' (gw_admitter g)"
    using assms by (auto simp: user_limit_reached_def quiet_def anonymous_def adm_get_user_connections_def
        counter_get_def split: option.splits)
  moreover have "0 \<le> op_total_connections (gw_overload g)" using assms(1) by (simp add: quiet_def)
  from start fresh this show ?thesis
  proof (cases rule: start_cases)
    case refused
    then show ?thesis using start fresh by simp
  next
    case (admitted resp rl1 rl2 adm2)
    from request_admit_cases [OF admitted(3)] admitted(4) calculation show ?thesis by blast
  qed
qed

section \<open>Properties\<close>

text \<open>
  C9: the sessions that named a user lock everyone out: a session is charged to the empty user name
  when it is admitted but released under the name it gave, so after as many such sessions as the
  limit per user, whatever their users and though each may have closed, no client is admitted any more,
  if nobody was waiting in the queue at first and the total limit had room for all of them.
\<close>

theorem named_sessions_lock_out:
  assumes "serve env vs g = Some (g', ss)" "\<forall>s \<in> set ss. s_username s \<noteq> ''''"
    and "adm_queue (gw_admitter g) = []" "counters_pos (adm_user_connections (gw_admitter g))"
    and "0 \<le> op_total_connections (gw_overload g)" "1 \<le> adm_max_connections_per_user (gw_admitter g)"
    and "adm_max_connections_per_user (gw_admitter g) \<le> int (length vs)"
    and "adm_active_connections (gw_admitter g) + int (length vs) \<le> adm_max_connections (gw_admitter g)"
  shows "\<not> s_admitted (snd (session_start env now ip port (g', new_session sid)))"
proof -
  let ?n = "adm_active_connections (gw_admitter g)" and ?m = "adm_max_connections (gw_admitter g)"
    and ?k = "adm_max_connections_per_user (gw_admitter g)"
  have "quiet ?n ?m ?k g" using assms(3-5) by (simp add: quiet_def)
  from serve_anonymous [OF assms(1) this assms(8,2)]
  have q: "quiet (?n + int (length vs)) ?m ?k g'" and a: "anonymous g' = anonymous g + int (length vs)"
    by simp_all
  have "0 \<le> anonymous g" using assms(4) by (simp add: anonymous_def adm_get_user_connections_def)
  with a assms(7) have "?k \<le> anonymous g'" by linarith
  from anonymous_limit_refuses [OF q this assms(6)] show ?thesis .
qed

theorem named_sessions_lock_out_witness:
  "\<not> s_admitted (snd (session_start sample_env 9 ''ip'' ''2''
     (fst (the (serve sample_env [(0, ''ip'', ''1'', ''sid'', sample_login @ [(6, 0, Failed), (7, 0, Written)])]
        (fresh_gateway\<lparr>gw_admitter := set_max_connections_per_user 1 new_connection_admitter\<rparr>))),
      new_session ''sid2'')))"
proof -
  let ?g = "fresh_gateway\<lparr>gw_admitter := set_max_connections_per_user 1 new_connection_admitter\<rparr>"
  let ?vs = "[(0, ''ip'', ''1'', ''sid'', sample_login @ [(6, 0, Failed), (7, 0, Written)])]"
  have "map_option (\<lambda>(g, ss). map (\<lambda>s. (s_pending s, s_username s)) ss) (serve sample_env ?vs ?g)
      = Some [([], ''u'')]"
    by code_simp
  then obtain g ss where run: "serve sample_env ?vs ?g = Some (g, ss)"
    and names: "map (\<lambda>s. (s_pending s, s_username s)) ss = [([], ''u'')]"
    by (auto simp del: serve.simps)
  have "\<forall>s \<in> set ss. s_username s \<noteq> ''''" using names by auto
  from named_sessions_lock_out [OF run this, of 9 "''ip''" "''2''" "''sid2''"] run show ?thesis
    by (simp del: serve.simps add: fresh_gateway_def new_connection_admitter_def set_max_connections_per_user_def
        new_overload_protector_def)
qed

text \<open>
  what starting a session does: it is admitted only where, with itself counted, the total stays
  below its limit and the anonymous count below the limit per user; then it is counted, registered
  and waits for the client; otherwise nothing is counted, registered or pending.
\<close>

theorem session_start_accounts:
  assumes "session_start env now ip port (g, new_session sid) = (g', s')"
    and "0 \<le> op_total_connections (gw_overload g)"
  shows "if s_admitted s'
    then op_total_connections (gw_overload g) + 1 < op_max_total_connections (gw_overload g)
      \<and> \<not> user_limit_reached '''' (gw_admitter g)
      \<and> op_total_connections (gw_overload g') = op_total_connections (gw_overload g) + 1
      \<and> sid \<in> dom (gw_registry g') \<and> s_pending s' = [Rd_handshake]
    else gw_overload g' = gw_overload g \<and> gw_admitter g' = gw_admitter g
      \<and> sid \<notin> dom (gw_registry g') \<and> s_pending s' = []"
proof -
  have fresh: "\<not> s_admitted (new_session sid)" "\<not> s_tunnel_active (new_session sid)"
      "s_pending (new_session sid) = []" "s_session_id (new_session sid) = sid"
    by (simp_all add: new_session_def)
  from assms(1) fresh(1,2) assms(2) show ?thesis
  proof (cases rule: start_cases)
    case refused
    then show ?thesis using fresh by (simp add: unregister_connection_def)
  next
    case (admitted resp rl1 rl2 adm2)
    let ?op = "inc_total_connections (gw_overload g)"
    from request_admit_cases [OF admitted(3)] admitted(4)
    have "\<not> sys_overloaded (en_rnd env) (en_os env) ?op" and "\<not> user_limit_reached '''' (gw_admitter g)"
      by auto
    moreover from this(1)
    have "op_total_connections (gw_overload g) + 1 < op_max_total_connections (gw_overload g)"
      by (auto simp: sys_overloaded_def overload_check_def inc_total_connections_def Let_def split: if_splits)
    ultimately show ?thesis
      using admitted(1,5,7) fresh
      by (simp add: op_defs inc_total_connections_def register_connection_def Let_def)
  qed
qed

theorem session_start_accounts_witness:
  "op_total_connections (gw_overload (fst (session_start sample_env 0 ''ip'' ''1''
     (fresh_gateway, new_session ''sid'')))) = 1"
proof -
  obtain g s where start: "session_start sample_env 0 ''ip'' ''1'' (fresh_gateway, new_session ''sid'') = (g, s)"
    by fastforce
  have "s_admitted (snd (session_start sample_env 0 ''ip'' ''1'' (fresh_gateway, new_session ''sid'')))"
    by code_simp
  with session_start_accounts [OF start] start show ?thesis
    by (simp add: fresh_gateway_def new_overload_protector_def)
qed

text \<open>
  every session is charged to the rate limiter twice, by \<^verbatim>\<open>session::start\<close> and again by the
  admitter: an address that may open one connection per second is never admitted at all.
\<close>

theorem rate_limit_charged_twice:
  assumes "m_max_conn_per_ip_per_sec (gw_limiter g) \<le> 1" "0 \<le> op_total_connections (gw_overload g)"
    and "counts_ok (gw_limiter g)"
  shows "\<not> s_admitted (snd (session_start env now ip port (g, new_session sid)))"
proof -
  obtain g0 s0 where start: "session_start env now ip port (g, new_session sid) = (g0, s0)" by fastforce
  have fresh: "\<not> s_admitted (new_session sid)" "\<not> s_tunnel_active (new_session sid)"
    by (simp_all add: new_session_def)
  from start fresh assms(2) show ?thesis
  proof (cases rule: start_cases)
    case refused
    then show ?thesis using start fresh by simp
  next
    case (admitted resp rl1 rl2 adm2)
    have "\<not> fst (check_connection_rate now ip rl1)"
      using admitted(2) assms(1,3)
      by (force simp: check_connection_rate_def counts_ok_def secs_between_def new_rate_info_def
          split: option.splits if_splits)
    with request_admit_cases [OF admitted(3)] admitted(4) show ?thesis by blast
  qed
qed

theorem rate_limit_charged_twice_witness:
  "\<not> s_admitted (snd (session_start sample_env 5 ''ip'' ''1''
     (fresh_gateway\<lparr>gw_limiter := rate_limiter_init 1 5 60 new_rate_limiter\<rparr>, new_session ''sid'')))"
  using rate_limit_charged_twice [of "fresh_gateway\<lparr>gw_limiter := rate_limiter_init 1 5 60 new_rate_limiter\<rparr>"
      sample_env 5 "''ip''" "''1''" "''sid''"]
  by (simp add: fresh_gateway_def rate_limiter_init_def new_rate_limiter_def new_overload_protector_def
      counts_ok_def)

text \<open>The accounts after a number of closings of one session, at the times \<open>ts\<close>.\<close>

definition released_at :: "time_point list \<Rightarrow> string \<Rightarrow> gateway \<Rightarrow> gateway \<Rightarrow> bool" where
  "released_at ts user g g' \<longleftrightarrow>
     gw_admitter g' = fold (\<lambda>t adm. fst (release_connection t user adm)) ts (gw_admitter g)
     \<and> gw_overload g' = fold (\<lambda>t. dec_total_connections) ts (gw_overload g)"

lemma released_at_append: "released_at ts user g g1 \<Longrightarrow> released_at us user g1 g2 \<Longrightarrow> released_at (ts @ us) user g g2"
  by (simp add: released_at_def)

lemma released_keeps: "keeps g g' \<Longrightarrow> released_at [] user g g'"
  by (simp add: released_at_def keeps_def)

lemma released_close:
  "s_admitted s \<Longrightarrow> close_session now why (g, s) = (g', s') \<Longrightarrow> released_at [now] (s_username s) g g'"
  using admitter_close [of now why g s] overload_close [of now why g s] by (simp add: released_at_def)

text \<open>
  A completion of the relay starts the next operation of its direction, or closes the session and
  starts none.
\<close>

definition one_fate :: "time_point \<Rightarrow> gateway \<Rightarrow> session \<Rightarrow> gateway \<Rightarrow> session \<Rightarrow> bool" where
  "one_fate now g s g' s' \<longleftrightarrow> s_admitted s' = s_admitted s \<and> s_username s' = s_username s \<and>
     ((length (s_pending s') = Suc (length (s_pending s)) \<and> keeps g g')
      \<or> (s_pending s' = s_pending s \<and> (s_admitted s \<longrightarrow> released_at [now] (s_username s) g g')))"

lemma closed_fate: "close_session now why (g, s) = (g', s') \<Longrightarrow> one_fate now g s g' s'"
  using close_effect [of now why g s] released_close [of s now why g g' s'] by (auto simp: one_fate_def)

lemma relay_fate:
  assumes "up_op p \<or> down_op p" "fits p c" "run_handler env now p c (g, s) = Some (g', s')"
  shows "one_fate now g s g' s'"
proof -
  from assms(1) consider "p = Rd_client" | "p = Wr_remote" | "p = Rd_remote" | "p = Wr_client"
    by (auto simp: up_op_def down_op_def)
  then show ?thesis
  proof cases
    case 1
    with assms(2,3) show ?thesis
      by (cases c) (auto simp: run_handler_def handle_client_data_def write_remote_def push_op_def one_fate_def
          dest: closed_fate [unfolded one_fate_def])
  next
    case 2
    with assms(2,3) show ?thesis
      by (cases c) (auto simp: run_handler_def push_op_def one_fate_def dest: closed_fate [unfolded one_fate_def])
  next
    case 3
    with assms(2,3) show ?thesis
      by (cases c) (auto simp: run_handler_def handle_remote_data_def write_client_def push_op_def one_fate_def
          dest: closed_fate [unfolded one_fate_def])
  next
    case 4
    with assms(2,3) show ?thesis
      by (cases c) (auto simp: run_handler_def push_op_def one_fate_def dest: closed_fate [unfolded one_fate_def])
  qed
qed

lemma relay_step_released:
  assumes "relay_ops (s_pending s)" "s_admitted s" "session_step env now i c (g, s) = Some (g', s')"
  shows "s_admitted s' \<and> s_username s' = s_username s \<and> (\<exists>ts. released_at ts (s_username s) g g'
    \<and> length ts + length (s_pending s') = length (s_pending s))"
proof (cases "i < length (s_pending s) \<and> fits (s_pending s ! i) c")
  case False
  with assms(2,3) show ?thesis by (auto simp: session_step_def intro: released_keeps)
next
  case True
  let ?p = "s_pending s ! i" and ?s = "s\<lparr>s_pending := remove_nth i (s_pending s)\<rparr>"
  have len: "Suc (length (remove_nth i (s_pending s))) = length (s_pending s)"
    using True length_remove_nth [of i "s_pending s"] by linarith
  have "up_op ?p \<or> down_op ?p" using assms(1) True by (simp add: relay_ops_def)
  moreover have "run_handler env now ?p c (g, ?s) = Some (g', s')"
    using assms(3) True by (simp add: session_step_def)
  ultimately have "one_fate now g ?s g' s'" using relay_fate True by blast
  then consider "keeps g g'" "length (s_pending s') = length (s_pending s)"
    | "released_at [now] (s_username s) g g'" "length (s_pending s') = length (remove_nth i (s_pending s))"
    using len assms(2) by (auto simp: one_fate_def)
  then have "\<exists>ts. released_at ts (s_username s) g g' \<and> length ts + length (s_pending s') = length (s_pending s)"
  proof cases
    case 1
    then show ?thesis by (intro exI [of _ "[]"]) (simp add: released_keeps)
  next
    case 2
    with len show ?thesis by (intro exI [of _ "[now]"]) simp
  qed
  with \<open>one_fate now g ?s g' s'\<close> assms(2) show ?thesis by (simp add: one_fate_def)
qed

lemma relay_run_released:
  "relay_ops (s_pending s) \<Longrightarrow> s_admitted s \<Longrightarrow> session_run env es (g, s) = Some (g', s') \<Longrightarrow>
   \<exists>ts. released_at ts (s_username s) g g' \<and> length ts + length (s_pending s') = length (s_pending s)"
proof (induction es arbitrary: g s)
  case Nil
  then show ?case by (intro exI [of _ "[]"]) (simp add: released_keeps)
next
  case (Cons e es)
  obtain now i c where e: "e = (now, i, c)" by (cases e)
  from relay_step [OF Cons.prems(1), of env now i c g] obtain g1 s1 where
    st: "session_step env now i c (g, s) = Some (g1, s1)" and ops: "relay_ops (s_pending s1)" by blast
  from relay_step_released [OF Cons.prems(1,2) st] obtain ts where
    s1: "s_admitted s1" "s_username s1 = s_username s" and ts: "released_at ts (s_username s) g g1"
    "length ts + length (s_pending s1) = length (s_pending s)" by blast
  have "session_run env es (g1, s1) = Some (g', s')" using Cons.prems(3) st e by simp
  from Cons.IH [OF ops s1(1) this] s1(2) obtain us where
    us: "released_at us (s_username s) g1 g'" "length us + length (s_pending s') = length (s_pending s1)" by auto
  from released_at_append [OF ts(1) us(1)] ts(2) us(2) show ?case
    by (intro exI [of _ "ts @ us"]) simp
qed



text \<open>
  a client that goes away while its method or login reply is being written is never released:
  no operation is left that would close the session, so it stays counted and registered for good.
\<close>

theorem failed_reply_never_released:
  assumes "s_pending s = [Wr_method b] \<or> s_pending s = [Wr_auth True]"
  shows "session_run env ((t, 0, Failed) # es) (g, s) = Some (g, s\<lparr>s_pending := []\<rparr>)"
  using assms run_idle [of "s\<lparr>s_pending := []\<rparr>" env es g]
  by (auto simp: session_step_def run_handler_def)

theorem failed_reply_never_released_witness:
  "session_run sample_env [(2, 0, Failed), (3, 0, Failed)]
     (fresh_gateway, push_op (Wr_method True) (new_session ''sid'')) = Some (fresh_gateway, new_session ''sid'')"
  using failed_reply_never_released [of "push_op (Wr_method True) (new_session ''sid'')" True sample_env 2
      "[(3, 0, Failed)]" fresh_gateway]
  by (simp add: push_op_def new_session_def)

section \<open>A request that ends the program\<close>

lemma find_char_skip:
  "c \<notin> set ys \<Longrightarrow> length xs = n \<Longrightarrow> find_char c n (xs @ ys @ c # zs) = Some (n + length ys)"
  by (auto simp: find_char_def index_of_append)

lemma parse_throws:
  assumes "CHR '' '' \<notin> set host" "CHR '' '' \<notin> set port" "CHR '':'' \<notin> set port" "stoi port = None"
  shows "parse_http_connect (''CONNECT '' @ host @ '':'' @ port @ '' '' @ rest) = Http_throws"
proof -
  let ?sv = "''CONNECT '' @ host @ '':'' @ port @ '' '' @ rest"
  have sp: "find_char CHR '' '' 0 ?sv = Some 7"
    using find_char_skip [of "CHR '' ''" "''CONNECT''" "[]" 0 "host @ '':'' @ port @ '' '' @ rest"] by simp
  have sp2: "find_char CHR '' '' 8 ?sv = Some (8 + length (host @ '':'' @ port))"
    using find_char_skip [of "CHR '' ''" "host @ '':'' @ port" "''CONNECT ''" 8 rest] assms(1,2) by simp
  have hp: "substr 8 (length (host @ '':'' @ port)) ?sv = host @ '':'' @ port"
    by (simp add: substr_def)
  have rf: "rfind_char CHR '':'' (host @ '':'' @ port) = Some (length host)"
    using assms(3) index_of_append [of "CHR '':''" "rev port" "rev host"] by (simp add: rfind_char_def)
  show ?thesis
    using sp sp2 hp rf assms(4) by (simp add: parse_http_connect_def Let_def)
qed

text \<open>
  C32: one request from anyone, before any login, ends the program: a \<^verbatim>\<open>CONNECT\<close> whose port is not a
  number makes \<^verbatim>\<open>std::stoi\<close> throw in the handler, and neither it nor the thread that runs it catches.
\<close>

theorem malformed_port_ends_program:
  assumes "s_pending s = [Rd_handshake]" "stoi port = None"
    and "CHR '' '' \<notin> set host" "CHR '' '' \<notin> set port" "CHR '':'' \<notin> set port"
  shows "session_run env ((t, 0, Read (''CONNECT '' @ host @ '':'' @ port @ '' '' @ rest)) # es) (g, s) = None"
  using assms(1) parse_throws [OF assms(3-5,2), of rest]
  by (simp add: session_step_def run_handler_def handle_http_connect_def is_http_connect_def)

theorem malformed_port_ends_program_witness:
  "session_run sample_env [(1, 0, Read (''CONNECT '' @ ''a'' @ '':'' @ ''x'' @ '' '' @ ''HTTP/1.1''))]
     (session_start sample_env 0 ''ip'' ''1'' (fresh_gateway, new_session ''sid'')) = None"
proof -
  obtain g s where start: "session_start sample_env 0 ''ip'' ''1'' (fresh_gateway, new_session ''sid'') = (g, s)"
    by fastforce
  have "s_pending (snd (session_start sample_env 0 ''ip'' ''1'' (fresh_gateway, new_session ''sid''))) = [Rd_handshake]"
    by code_simp
  moreover have "stoi ''x'' = None" by code_simp
  ultimately show ?thesis
    using malformed_port_ends_program [of s "''x''" "''a''" sample_env 1 "''HTTP/1.1''" "[]" g] start
    by simp
qed

text \<open>
  a failed upstream connection leaves its node counted: the count goes up when the node is
  chosen and down only when an active tunnel is closed, so a session that ends in between, here
  because the connection is refused, leaves the node with one connection more for good.
\<close>

theorem failed_connect_leaks_node:
  assumes "rr_action (en_decide env (s_target_host s) (s_resolved_ip s)) = Proxy"
    and "select_node now 0 (en_tags env) (en_health env) (client_ip_of s) (gw_balancer g) = Some (Some r, lb)"
    and "s_pending s = []" "\<not> s_tunnel_active s" "c = Written \<or> c = Failed"
  shows "\<exists>w g2 s2. do_route_decision env now (g, s) = Some w
    \<and> session_run env [(t1, 0, Resolved ip), (t2, 0, Failed), (t3, 0, c)] w = Some (g2, s2)
    \<and> s_pending s2 = []
    \<and> get_node_connections (sr_node_tag r) (gw_balancer g2) = get_node_connections (sr_node_tag r) lb + 1"
proof -
  let ?tag = "sr_node_tag r"
  let ?g = "g\<lparr>gw_balancer := inc_node_connections ?tag lb\<rparr>"
  let ?s = "s\<lparr>s_route_action := Via_proxy, s_selected_node_tag := ?tag\<rparr>"
  have route: "do_route_decision env now (g, s) = Some (?g, push_op Resolve_upstream ?s)"
    using assms(1,2) by (simp add: do_route_decision_def do_connect_via_v2rayn_def)
  define bytes where "bytes = (if s_is_http s then http_502 else error_reply 5)"
  let ?f = "?s\<lparr>s_to_client := s_to_client s @ [bytes], s_pending := []\<rparr>"
  obtain g2 where close: "close_session t3 ''v2rayn connect failed'' (?g, ?f) = (g2, ?f\<lparr>s_tunnel_active := False\<rparr>)"
    using close_effect by blast
  have run: "session_run env [(t1, 0, Resolved ip), (t2, 0, Failed), (t3, 0, c)] (?g, push_op Resolve_upstream ?s)
      = Some (g2, ?f\<lparr>s_tunnel_active := False\<rparr>)"
    using assms(3,5) close
    by (auto simp: session_step_def run_handler_def fail_with_def op_defs bytes_def)
  have "gw_balancer g2 = gw_balancer ?g"
    using arg_cong [OF close, of "\<lambda>w. gw_balancer (fst w)"] assms(4)
    by (simp add: close_session_def Let_def split: if_splits)
  with route run show ?thesis
    by (auto simp: get_node_connections_def inc_node_connections_def counter_get_inc)
qed

definition proxy_env :: env where
  "proxy_env = sample_env\<lparr>en_tags := [''n''],
     en_decide := (\<lambda>host ip. \<lparr>rr_action = Proxy, rr_rule_id = ''default'', rr_match_type = ''default''\<rparr>)\<rparr>"

theorem failed_connect_leaks_node_witness:
  "\<exists>w g s. do_route_decision proxy_env 0 (fresh_gateway, new_session ''sid'') = Some w
    \<and> session_run proxy_env [(1, 0, Resolved None), (2, 0, Failed), (3, 0, Written)] w = Some (g, s)
    \<and> s_pending s = [] \<and> get_node_connections ''n'' (gw_balancer g) = 1"
proof -
  have "map_option (\<lambda>(r, lb). (map_option sr_node_tag r, get_node_connections ''n'' lb))
      (select_node 0 0 (en_tags proxy_env) (en_health proxy_env) (client_ip_of (new_session ''sid''))
        (gw_balancer fresh_gateway)) = Some (Some ''n'', 0)"
    by code_simp
  then obtain r lb where sel: "select_node 0 0 (en_tags proxy_env) (en_health proxy_env)
      (client_ip_of (new_session ''sid'')) (gw_balancer fresh_gateway) = Some (Some r, lb)"
    and r: "sr_node_tag r = ''n''" "get_node_connections ''n'' lb = 0"
    by (auto simp: map_option_case split: option.splits)
  have "rr_action (en_decide proxy_env (s_target_host (new_session ''sid'')) (s_resolved_ip (new_session ''sid'')))
      = Proxy"
    by (simp add: proxy_env_def)
  from failed_connect_leaks_node [OF this sel, of Written 1 None 2 3] r show ?thesis
    by (simp add: new_session_def)
qed

end
