(* ===== verification/V2rayn_Process.thy ===== *)
theory V2rayn_Process
  imports Prelude
begin

text \<open>
  \<^verbatim>\<open>src/src/v2rayn_manager/v2rayn_process.cpp\<close>: the supervisor of the upstream proxy, a child process
  that is started, stopped, restarted and watched for its exit. What the operating system answers is
  an argument: the process identifier \<^verbatim>\<open>fork\<close> returns in the parent (negative where it fails), after
  which of the thirty polls the child is gone, and what \<^verbatim>\<open>waitpid(-1)\<close> reaps. The lemmas follow the
  state of the supervisor through every sequence of its operations.
\<close>

section \<open>State and operations\<close>

datatype v2rayn_status = Stopped | Starting | Running | Process_failed

record v2rayn_process =
  vp_status :: v2rayn_status
  vp_pid :: int
  vp_crash_count :: int
  vp_child_exited :: bool
  vp_crash_window_start :: time_point
  vp_exec_path :: string
  vp_config_path :: string
  vp_log_path :: string
  vp_stopping :: bool

definition new_v2rayn_process :: v2rayn_process where
  "new_v2rayn_process = \<lparr>vp_status = Stopped, vp_pid = 0, vp_crash_count = 0, vp_child_exited = False,
     vp_crash_window_start = 0, vp_exec_path = '''', vp_config_path = '''', vp_log_path = '''',
     vp_stopping = False\<rparr>"

definition do_start :: "int \<Rightarrow> v2rayn_process \<Rightarrow> bool \<times> v2rayn_process" where
  "do_start forked vp =
     (if vp_status vp = Running then (True, vp)
      else
        let vp1 = vp\<lparr>vp_status := Starting, vp_stopping := False\<rparr>
        in if forked < 0 then (False, vp1\<lparr>vp_status := Process_failed\<rparr>)
           else (True, vp1\<lparr>vp_pid := forked, vp_status := Running\<rparr>))"

text \<open>
  \<open>gone_at\<close>: the poll, from 0, that finds the child gone, \<open>None\<close> where it never ends by itself. The
  signals sent are returned.
\<close>

datatype signal = SIGTERM | SIGKILL

definition do_stop :: "nat option \<Rightarrow> v2rayn_process \<Rightarrow> signal list \<times> v2rayn_process" where
  "do_stop gone_at vp =
     (let vp1 = vp\<lparr>vp_stopping := True\<rparr>
      in if vp_pid vp1 \<le> 0 then ([], vp1)
         else (case gone_at of Some i \<Rightarrow> if i < 30 then [SIGTERM] else [SIGTERM, SIGKILL]
               | None \<Rightarrow> [SIGTERM, SIGKILL],
               vp1\<lparr>vp_pid := 0, vp_status := Stopped\<rparr>))"

definition process_start ::
    "string \<Rightarrow> string \<Rightarrow> string \<Rightarrow> int \<Rightarrow> v2rayn_process \<Rightarrow> bool \<times> v2rayn_process" where
  "process_start exec_path config_path log_path forked vp =
     do_start forked (vp\<lparr>vp_exec_path := exec_path, vp_config_path := config_path,
                         vp_log_path := log_path\<rparr>)"

definition process_stop :: "nat option \<Rightarrow> v2rayn_process \<Rightarrow> signal list \<times> v2rayn_process" where
  "process_stop gone_at vp = do_stop gone_at vp"

definition process_restart ::
    "nat option \<Rightarrow> int \<Rightarrow> v2rayn_process \<Rightarrow> bool \<times> v2rayn_process" where
  "process_restart gone_at forked vp = do_start forked (snd (do_stop gone_at vp))"

definition child_signal :: "v2rayn_process \<Rightarrow> v2rayn_process" where
  "child_signal vp = vp\<lparr>vp_child_exited := True\<rparr>"

text \<open>\<open>reaped\<close>: what \<^verbatim>\<open>waitpid(-1, WNOHANG)\<close> returns. The result says whether the exit callback runs.\<close>

definition on_child_exit ::
    "time_point \<Rightarrow> int \<Rightarrow> int \<Rightarrow> v2rayn_process \<Rightarrow> bool \<times> v2rayn_process" where
  "on_child_exit now reaped forked vp =
     (if reaped \<le> 0 then (False, vp)
      else
        let vp1 = vp\<lparr>vp_child_exited := False\<rparr>
        in if vp_stopping vp1 then (False, vp1\<lparr>vp_pid := 0\<rparr>)
           else if vp_status vp1 \<noteq> Running then (False, vp1\<lparr>vp_pid := 0\<rparr>)
           else
             let vp2 = vp1\<lparr>vp_pid := 0, vp_crash_count := vp_crash_count vp1 + 1\<rparr>;
                 vp3 = (if vp_crash_count vp2 = 1 then vp2\<lparr>vp_crash_window_start := now\<rparr> else vp2);
                 elapsed = (now - vp_crash_window_start vp3) sdiv (60 * ns_per_sec);
                 vp4 = (if elapsed \<ge> 5 then vp3\<lparr>vp_crash_count := 1, vp_crash_window_start := now\<rparr>
                        else vp3)
             in if vp_crash_count vp4 \<ge> 3 then (True, vp4\<lparr>vp_status := Process_failed\<rparr>)
                else (False, snd (do_start forked vp4)))"

definition check_child_exit ::
    "time_point \<Rightarrow> int \<Rightarrow> int \<Rightarrow> v2rayn_process \<Rightarrow> bool \<times> v2rayn_process" where
  "check_child_exit now reaped forked vp =
     (if vp_child_exited vp
      then (True, snd (on_child_exit now reaped forked (vp\<lparr>vp_child_exited := False\<rparr>)))
      else (False, vp))"

definition reset_crash_window :: "v2rayn_process \<Rightarrow> v2rayn_process" where
  "reset_crash_window vp = vp\<lparr>vp_crash_count := 0\<rparr>"

section \<open>Sequences of operations\<close>

datatype vp_event =
  Start string string string int | Stop "nat option" | Restart "nat option" int
| Child_signal | Check time_point int int

fun vp_step :: "vp_event \<Rightarrow> v2rayn_process \<Rightarrow> v2rayn_process" where
  "vp_step (Start e c l forked) vp = snd (process_start e c l forked vp)"
| "vp_step (Stop gone_at) vp = snd (process_stop gone_at vp)"
| "vp_step (Restart gone_at forked) vp = snd (process_restart gone_at forked vp)"
| "vp_step Child_signal vp = child_signal vp"
| "vp_step (Check now reaped forked) vp = snd (check_child_exit now reaped forked vp)"

lemmas vp_defs = process_start_def process_stop_def process_restart_def do_start_def do_stop_def
  child_signal_def check_child_exit_def on_child_exit_def Let_def

text \<open>
  A process identifier is positive, \<^verbatim>\<open>fork\<close> never returns 0 to the parent. The supervisor has a child
  exactly while its identifier is positive; it then claims to run one, but not the other way round.
\<close>

fun os_ok :: "vp_event \<Rightarrow> bool" where
  "os_ok (Start e c l forked) \<longleftrightarrow> forked \<noteq> 0"
| "os_ok (Restart gone_at forked) \<longleftrightarrow> forked \<noteq> 0"
| "os_ok (Check now reaped forked) \<longleftrightarrow> forked \<noteq> 0"
| "os_ok _ \<longleftrightarrow> True"

definition vp_inv :: "v2rayn_process \<Rightarrow> bool" where
  "vp_inv vp \<longleftrightarrow> 0 \<le> vp_pid vp \<and> (0 < vp_pid vp \<longrightarrow> vp_status vp = Running \<and> \<not> vp_stopping vp)
     \<and> vp_status vp \<noteq> Starting"

lemma vp_step_inv: "vp_inv vp \<Longrightarrow> os_ok e \<Longrightarrow> vp_inv (vp_step e vp)"
  by (cases e) (auto simp: vp_inv_def vp_defs)

interpretation vp_run: stepper vp_step vp_inv os_ok
  by unfold_locales (rule vp_step_inv)

lemma new_vp_inv: "vp_inv new_v2rayn_process"
  by (simp add: vp_inv_def new_v2rayn_process_def)

lemma restart_replaces_child:
  assumes "0 < vp_pid vp" "0 < forked"
  shows "fst (process_restart gone_at forked vp)" "vp_pid (snd (process_restart gone_at forked vp)) = forked"
    "vp_status (snd (process_restart gone_at forked vp)) = Running"
    "fst (process_stop gone_at vp) = SIGTERM # (if \<exists>i < 30. gone_at = Some i then [] else [SIGKILL])"
  using assms by (auto simp: vp_defs split: option.split)

section \<open>A child that dies\<close>

text \<open>The state after an unexpected exit: it claims to run, has no child, and nothing changes that.\<close>

definition phantom :: "v2rayn_process \<Rightarrow> bool" where
  "phantom vp \<longleftrightarrow> vp_status vp = Running \<and> vp_pid vp = 0"

fun no_child :: "vp_event \<Rightarrow> bool" where
  "no_child (Check now reaped forked) \<longleftrightarrow> reaped \<le> 0"
| "no_child _ \<longleftrightarrow> True"

lemma phantom_step: "phantom vp \<Longrightarrow> no_child e \<Longrightarrow> phantom (vp_step e vp)"
  by (cases e) (auto simp: phantom_def vp_defs)

interpretation phantom_run: stepper vp_step phantom no_child
  by unfold_locales (rule phantom_step)

lemma crash_phantom:
  assumes "vp_status vp = Running" "\<not> vp_stopping vp" "vp_crash_count vp \<le> 1" "0 < reaped"
  shows "phantom (vp_step (Check now reaped forked) (vp_step Child_signal vp))"
  using assms by (auto simp: phantom_def vp_defs)

section \<open>Properties\<close>

text \<open>
  whatever the order of starts, stops, restarts, signals and checks, the supervisor has a child
  only while it says it runs one and is not being stopped, and never rests in the starting state.
\<close>

theorem supervisor_state_consistent:
  assumes "\<forall>e \<in> set es. os_ok e"
  shows "vp_inv (fold vp_step es new_v2rayn_process)"
  by (rule vp_run.run_inv [OF new_vp_inv assms])

theorem supervisor_state_consistent_witness:
  "vp_inv (fold vp_step [Start ''x'' ''c'' ''l'' 7, Child_signal, Check 5 7 8, Stop None, Restart (Some 2) 9]
     new_v2rayn_process)"
  by (rule supervisor_state_consistent) simp

text \<open>
  C27: the automatic restart restarts nothing: after an unexpected exit of the running child that is
  at most the second on record, the restart finds the status still running and returns; and from then on,
  as long as \<^verbatim>\<open>waitpid\<close> reaps no further child, no sequence of starts, stops, restarts, signals and checks
  starts a process again, while the status goes on to say that one runs. (A further child that is reaped,
  also one of \<^verbatim>\<open>popen\<close>, is counted as another crash and can end this state.)
\<close>

theorem crashed_child_never_restarted:
  assumes "vp_status vp = Running" "\<not> vp_stopping vp" "vp_crash_count vp \<le> 1" "0 < reaped"
    and "\<forall>e \<in> set es. no_child e"
  shows "vp_status (fold vp_step es (vp_step (Check now reaped forked) (vp_step Child_signal vp))) = Running
    \<and> vp_pid (fold vp_step es (vp_step (Check now reaped forked) (vp_step Child_signal vp))) = 0"
  using phantom_run.run_inv [OF crash_phantom [OF assms(1-4)] assms(5)] by (simp add: phantom_def)

theorem crashed_child_never_restarted_witness:
  "vp_pid (fold vp_step [Stop None, Start ''x'' ''c'' ''l'' 8, Restart None 9]
     (vp_step (Check 5 7 8) (vp_step Child_signal (vp_step (Start ''x'' ''c'' ''l'' 7) new_v2rayn_process)))) = 0"
  using crashed_child_never_restarted [of "vp_step (Start ''x'' ''c'' ''l'' 7) new_v2rayn_process" 7
      "[Stop None, Start ''x'' ''c'' ''l'' 8, Restart None 9]" 5 8]
  by (simp add: vp_defs new_v2rayn_process_def)

end
