(* ===== verification/User_Manager.thy ===== *)
theory User_Manager
  imports Cpp_Strings
begin

text \<open>
  \<^verbatim>\<open>src/src/user_manager/password_hasher.cpp\<close> and \<^verbatim>\<open>user_manager.cpp\<close>: the format of password hashes,
  the accounts with their expiry, authentication, pagination and the file the accounts are kept in.
  The key derivation, the random salt and the python process the hasher asks first are parameters.
\<close>

section \<open>Hexadecimal\<close>

definition hex_digit :: "nat \<Rightarrow> char" where
  "hex_digit n = ''0123456789abcdef'' ! n"

definition hex_byte :: "char \<Rightarrow> string" where
  "hex_byte c = [hex_digit (of_char c div 16), hex_digit (of_char c mod 16)]"

definition hex_encode :: "string \<Rightarrow> string" where
  "hex_encode s = concat (map hex_byte s)"

definition hex_value :: "char \<Rightarrow> nat" where
  "hex_value c =
     (let n = of_char c :: nat
      in if n \<le> 57 then n - 48 else if n \<le> 70 then n - 55 else n - 87)"

text \<open>For an input of hexadecimal digits; an odd last one is dropped.\<close>

fun hex_decode_str :: "string \<Rightarrow> string" where
  "hex_decode_str (a # b # s) = char_of (16 * hex_value a + hex_value b) # hex_decode_str s"
| "hex_decode_str _ = []"

lemma hex_value_digit: "n < 16 \<Longrightarrow> hex_value (hex_digit n) = n"
proof -
  assume "n < 16"
  then have "n \<in> set [0..<16]" by simp
  moreover have "\<forall>n \<in> set [0..<16]. hex_value (hex_digit n) = n" by code_simp
  ultimately show ?thesis by blast
qed

lemma hex_decode_encode: "hex_decode_str (hex_encode s) = s"
proof (induction s)
  case (Cons c s)
  have "(of_char c :: nat) div 16 < 16"
    using of_char_less [of c] by (simp add: less_mult_imp_div_less)
  then show ?case
    using Cons by (simp add: hex_encode_def hex_byte_def hex_value_digit)
qed (simp add: hex_encode_def)

lemma hex_encode_inject: "hex_encode s = hex_encode t \<longleftrightarrow> s = t"
  by (metis hex_decode_encode)

lemma hex_digit_in: "n < 16 \<Longrightarrow> hex_digit n \<in> set ''0123456789abcdef''"
  unfolding hex_digit_def by (rule nth_mem) simp

lemma set_hex_encode: "set (hex_encode s) \<subseteq> set ''0123456789abcdef''"
proof (induction s)
  case (Cons c s)
  have "(of_char c :: nat) div 16 < 16"
    using of_char_less [of c] by (simp add: less_mult_imp_div_less)
  with Cons hex_digit_in show ?case by (simp add: hex_encode_def hex_byte_def)
qed (simp add: hex_encode_def)

lemma no_dollar_hex: "CHR ''$'' \<notin> set (hex_encode s)"
  using set_hex_encode [of s] by auto

section \<open>Password hashes\<close>

text \<open>
  \<open>cx_popen\<close>: what the command prints, \<open>None\<close> where the pipe cannot be opened; \<open>cx_salt\<close>: the
  sixteen random bytes; \<open>cx_pbkdf2\<close>: PBKDF2 with HMAC-SHA256 of the password, the salt's hexadecimal
  text and the iterations.
\<close>

record crypto =
  cx_popen :: "string \<Rightarrow> string option"
  cx_salt :: string
  cx_pbkdf2 :: "string \<Rightarrow> string \<Rightarrow> int \<Rightarrow> string"

definition pbkdf2_hash :: "crypto \<Rightarrow> string \<Rightarrow> string \<Rightarrow> int \<Rightarrow> string" where
  "pbkdf2_hash cx password salt_hex iterations = hex_encode (cx_pbkdf2 cx password salt_hex iterations)"

definition strip_newlines :: "string \<Rightarrow> string" where
  "strip_newlines s = rev (dropWhile (\<lambda>c. c = CHR 0x0A \<or> c = CHR 0x0D) (rev s))"

definition quote :: string where
  "quote = [CHR 0x22]"

definition apostrophe :: string where
  "apostrophe = [CHR 0x27]"

definition python_bcrypt_hash :: "crypto \<Rightarrow> string \<Rightarrow> string" where
  "python_bcrypt_hash cx password =
     (case cx_popen cx (''python3 -c '' @ quote @ ''import bcrypt,binascii; pw=binascii.unhexlify('' @ apostrophe
          @ hex_encode password @ apostrophe
          @ '').decode(); print(bcrypt.hashpw(pw.encode(), bcrypt.gensalt(10)).decode())'' @ quote
          @ '' 2>/dev/null'') of
        None \<Rightarrow> ''''
      | Some out \<Rightarrow> strip_newlines out)"

definition python_bcrypt_verify :: "crypto \<Rightarrow> string \<Rightarrow> string \<Rightarrow> bool" where
  "python_bcrypt_verify cx password hash_str =
     (case cx_popen cx (''python3 -c '' @ quote @ ''import bcrypt,binascii; pw=binascii.unhexlify('' @ apostrophe
          @ hex_encode password @ apostrophe @ '').decode(); h=binascii.unhexlify('' @ apostrophe
          @ hex_encode hash_str @ apostrophe @ '').decode(); print('' @ apostrophe @ ''ok'' @ apostrophe
          @ '' if bcrypt.checkpw(pw.encode(), h.encode()) else '' @ apostrophe @ ''fail'' @ apostrophe
          @ '')'' @ quote @ '' 2>/dev/null'') of
        None \<Rightarrow> False
      | Some out \<Rightarrow> strip_newlines out = ''ok'')"

definition is_bcrypt :: "string \<Rightarrow> bool" where
  "is_bcrypt h \<longleftrightarrow> take 3 h = ''$2a'' \<or> take 3 h = ''$2b''"

definition password_hash :: "crypto \<Rightarrow> string \<Rightarrow> string" where
  "password_hash cx password =
     (let b = python_bcrypt_hash cx password
      in if b \<noteq> [] \<and> length b > 10 \<and> is_bcrypt b then b
         else
           let salt_hex = hex_encode (cx_salt cx)
           in ''$pbkdf2-sha256$100000$'' @ salt_hex @ ''$'' @ pbkdf2_hash cx password salt_hex 100000)"

text \<open>\<open>None\<close>: the exception of \<^verbatim>\<open>stoi\<close> for an iteration count that is not a number.\<close>

definition password_verify :: "crypto \<Rightarrow> string \<Rightarrow> string \<Rightarrow> bool option" where
  "password_verify cx password h =
     (if h = [] then Some False
      else if is_bcrypt h then Some (python_bcrypt_verify cx password h)
      else if take 15 h = ''$pbkdf2-sha256$'' then
        (case find_char CHR ''$'' 1 h of
           None \<Rightarrow> Some False
         | Some d1 \<Rightarrow>
             (case find_char CHR ''$'' (d1 + 1) h of
                None \<Rightarrow> Some False
              | Some d2 \<Rightarrow>
                  (case find_char CHR ''$'' (d2 + 1) h of
                     None \<Rightarrow> Some False
                   | Some d3 \<Rightarrow>
                       (case stoi (substr (d1 + 1) (d2 - d1 - 1) h) of
                          None \<Rightarrow> None
                        | Some iterations \<Rightarrow>
                            Some (pbkdf2_hash cx password (substr (d2 + 1) (d3 - d2 - 1) h) iterations
                                  = drop (d3 + 1) h)))))
      else Some False)"

lemma find_char_from:
  "c \<notin> set ys \<Longrightarrow> length xs = n \<Longrightarrow> find_char c n (xs @ ys @ c # zs) = Some (n + length ys)"
  by (auto simp: find_char_def index_of_append)

lemma stoi_100000: "stoi ''100000'' = Some 100000"
  by code_simp

lemma verify_pbkdf2:
  assumes "CHR ''$'' \<notin> set salt"
  shows "password_verify cx password (''$pbkdf2-sha256$100000$'' @ salt @ ''$'' @ d)
    = Some (pbkdf2_hash cx password salt 100000 = d)"
proof -
  let ?h = "''$pbkdf2-sha256$100000$'' @ salt @ ''$'' @ d"
  have d1: "find_char CHR ''$'' 1 ?h = Some 14"
    using find_char_from [of "CHR ''$''" "''pbkdf2-sha256''" "''$''" 1 "''100000$'' @ salt @ ''$'' @ d"] by simp
  have d2: "find_char CHR ''$'' 15 ?h = Some 21"
    using find_char_from [of "CHR ''$''" "''100000''" "''$pbkdf2-sha256$''" 15 "salt @ ''$'' @ d"] by simp
  have d3: "find_char CHR ''$'' 22 ?h = Some (22 + length salt)"
    using find_char_from [of "CHR ''$''" salt "''$pbkdf2-sha256$100000$''" 22 d] assms by simp
  have it: "substr 15 6 ?h = ''100000''" "substr 22 (length salt) ?h = salt"
    by (simp_all add: substr_def)
  have drop_len: "n = length xs \<Longrightarrow> drop n (xs @ ys) = ys" for n and xs ys :: string
    by simp
  have "drop (23 + length salt) ((''$pbkdf2-sha256$100000$'' @ salt @ ''$'') @ d) = d"
    by (rule drop_len) simp
  then have dr: "drop (23 + length salt) ?h = d" by (simp only: append_assoc)
  show ?thesis
    using d1 d2 d3 it dr stoi_100000
    by (simp add: password_verify_def is_bcrypt_def)
qed

section \<open>Accounts\<close>

text \<open>Times are \<^verbatim>\<open>std::time\<close> seconds; an expiry of 0 is none.\<close>

record user_info =
  ui_username :: string
  ui_password_hash :: string
  ui_expire_time :: int
  ui_active :: bool

definition no_user :: user_info where
  "no_user = \<lparr>ui_username = '''', ui_password_hash = '''', ui_expire_time = 0, ui_active = True\<rparr>"

record user_manager =
  um_filepath :: string
  um_users :: "string \<rightharpoonup> user_info"

definition new_user_manager :: user_manager where
  "new_user_manager = \<lparr>um_filepath = '''', um_users = Map.empty\<rparr>"

definition add_user ::
    "crypto \<Rightarrow> int \<Rightarrow> string \<Rightarrow> string \<Rightarrow> int \<Rightarrow> user_manager \<Rightarrow> bool \<times> user_manager" where
  "add_user cx now username password days um =
     (if um_users um username \<noteq> None then (False, um)
      else
        let info = \<lparr>ui_username = username, ui_password_hash = password_hash cx password,
                    ui_expire_time = (if days > 0 then now + to_int32 (days * 24 * 3600) else 0),
                    ui_active = True\<rparr>
        in (True, um\<lparr>um_users := (um_users um)(username \<mapsto> info)\<rparr>))"

definition remove_user :: "string \<Rightarrow> user_manager \<Rightarrow> bool \<times> user_manager" where
  "remove_user username um =
     (if um_users um username \<noteq> None
      then (True, um\<lparr>um_users := (um_users um)(username := None)\<rparr>) else (False, um))"

text \<open>
  \<open>admin\<close> is the configured administrator, a name and a hash. \<open>None\<close>: the exception of a malformed
  hash.
\<close>

definition authenticate ::
    "crypto \<Rightarrow> string \<times> string \<Rightarrow> int \<Rightarrow> string \<Rightarrow> string \<Rightarrow> user_manager \<Rightarrow> bool option" where
  "authenticate cx admin now username password um =
     (if username = fst admin then password_verify cx password (snd admin)
      else
        case um_users um username of
          None \<Rightarrow> Some False
        | Some info \<Rightarrow>
            if \<not> ui_active info then Some False
            else if ui_expire_time info > 0 \<and> now > ui_expire_time info then Some False
            else password_verify cx password (ui_password_hash info))"

definition set_status :: "string \<Rightarrow> bool \<Rightarrow> user_manager \<Rightarrow> bool \<times> user_manager" where
  "set_status username active um =
     (case um_users um username of
        None \<Rightarrow> (False, um)
      | Some info \<Rightarrow> (True, um\<lparr>um_users := (um_users um)(username \<mapsto> info\<lparr>ui_active := active\<rparr>)\<rparr>))"

definition update_password :: "crypto \<Rightarrow> string \<Rightarrow> string \<Rightarrow> user_manager \<Rightarrow> bool \<times> user_manager" where
  "update_password cx username password um =
     (case um_users um username of
        None \<Rightarrow> (False, um)
      | Some info \<Rightarrow>
          (True, um\<lparr>um_users := (um_users um)(username \<mapsto>
                      info\<lparr>ui_password_hash := password_hash cx password\<rparr>)\<rparr>))"

definition get_user_info :: "string \<Rightarrow> user_manager \<Rightarrow> user_info" where
  "get_user_info username um = (case um_users um username of None \<Rightarrow> no_user | Some info \<Rightarrow> info)"

text \<open>\<open>ks\<close> is the order in which the hash table is iterated.\<close>

definition get_all_users :: "string list \<Rightarrow> user_manager \<Rightarrow> user_info list" where
  "get_all_users ks um = vals ks (um_users um)"

text \<open>\<open>None\<close>: a range that does not lie in the vector, which is undefined behaviour.\<close>

definition list_users_paginated ::
    "string list \<Rightarrow> int \<Rightarrow> int \<Rightarrow> user_manager \<Rightarrow> user_info list option" where
  "list_users_paginated ks page page_size um =
     (let all_users = vals ks (um_users um);
          start = to_int32 (to_int32 (page - 1) * page_size)
      in if start \<ge> int (length all_users) then Some []
         else
           let stop = min (to_int32 (start + page_size)) (int (length all_users))
           in if 0 \<le> start \<and> start \<le> stop
              then Some (take (nat (stop - start)) (drop (nat start) all_users))
              else None)"

section \<open>The accounts file\<close>

record raw_user =
  raw_username :: "string option"
  raw_password_hash :: "string option"
  raw_expire_time :: "int option"
  raw_active :: "bool option"

text \<open>
  What opening and parsing the file gives, like a rules file; \<open>None\<close> is an entry at which an accessor
  throws.
\<close>

datatype users_doc = No_users_file | Unparsable_users | Without_users | Users "raw_user option list"

definition user_of_raw :: "raw_user \<Rightarrow> user_info" where
  "user_of_raw u = \<lparr>ui_username = member_or '''' (raw_username u),
     ui_password_hash = member_or '''' (raw_password_hash u),
     ui_expire_time = member_or 0 (raw_expire_time u), ui_active = member_or True (raw_active u)\<rparr>"

fun load_entries :: "raw_user option list \<Rightarrow> (string \<rightharpoonup> user_info) \<Rightarrow> bool \<times> (string \<rightharpoonup> user_info)" where
  "load_entries [] users = (True, users)"
| "load_entries (None # es) users = (False, users)"
| "load_entries (Some u # es) users =
     (let info = user_of_raw u
      in load_entries es (if ui_username info \<noteq> '''' then users(ui_username info \<mapsto> info) else users))"

definition load_users :: "(string \<Rightarrow> users_doc) \<Rightarrow> string \<Rightarrow> user_manager \<Rightarrow> bool \<times> user_manager" where
  "load_users fs path um =
     (let um1 = um\<lparr>um_filepath := path, um_users := Map.empty\<rparr>
      in case fs path of
           No_users_file \<Rightarrow> (False, um1)
         | Unparsable_users \<Rightarrow> (False, um1)
         | Without_users \<Rightarrow> (True, um1)
         | Users es \<Rightarrow> (case load_entries es Map.empty of (ok, users) \<Rightarrow> (ok, um1\<lparr>um_users := users\<rparr>)))"

definition raw_of_user :: "user_info \<Rightarrow> raw_user" where
  "raw_of_user info = \<lparr>raw_username = Some (ui_username info),
     raw_password_hash = Some (ui_password_hash info), raw_expire_time = Some (ui_expire_time info),
     raw_active = Some (ui_active info)\<rparr>"

definition save_users ::
    "bool \<Rightarrow> bool \<Rightarrow> string list \<Rightarrow> user_manager \<Rightarrow> (string \<Rightarrow> users_doc) \<Rightarrow> bool \<times> (string \<Rightarrow> users_doc)" where
  "save_users opens renames ks um fs =
     (if um_filepath um = '''' then (False, fs)
      else
        let doc = Users (map (Some \<circ> raw_of_user) (vals ks (um_users um)));
            tmp = um_filepath um @ ''.tmp''
        in if \<not> opens then (False, fs)
           else if renames then (True, fs(um_filepath um := doc, tmp := No_users_file))
           else (False, fs(tmp := doc)))"

lemmas um_defs = add_user_def remove_user_def set_status_def update_password_def authenticate_def
  get_user_info_def Let_def

section \<open>Invariant\<close>

text \<open>Every account is filed under its own name.\<close>

definition filed :: "(string \<rightharpoonup> user_info) \<Rightarrow> bool" where
  "filed users \<longleftrightarrow> (\<forall>k info. users k = Some info \<longrightarrow> ui_username info = k)"

definition users_ok :: "user_manager \<Rightarrow> bool" where
  "users_ok um \<longleftrightarrow> filed (um_users um)"

lemma users_ok_ops:
  assumes "users_ok um"
  shows "users_ok (snd (add_user cx now u p d um))" "users_ok (snd (remove_user u um))"
    "users_ok (snd (set_status u b um))" "users_ok (snd (update_password cx u p um))"
  using assms by (auto simp: users_ok_def filed_def um_defs split: option.splits)

lemma filed_empty [simp]: "filed Map.empty"
  by (simp add: filed_def)

lemma filed_upd: "filed users \<Longrightarrow> ui_username info = k \<Longrightarrow> filed (users(k \<mapsto> info))"
  by (simp add: filed_def)

lemma load_entries_ok: "filed users \<Longrightarrow> filed (snd (load_entries es users))"
  by (induction es users rule: load_entries.induct) (simp_all add: Let_def filed_upd)

lemma users_ok_load: "users_ok (snd (load_users fs path um))"
proof (cases "fs path")
  case (Users es)
  obtain ok users where e: "load_entries es Map.empty = (ok, users)" by fastforce
  then have "filed users" using load_entries_ok [of Map.empty es] by simp
  with Users e show ?thesis by (simp add: users_ok_def load_users_def)
qed (simp_all add: users_ok_def load_users_def)

section \<open>Properties\<close>

text \<open>
  a stored hash verifies its password, and a PBKDF2 hash exactly the passwords with the same
  derived key, whether the python process was there when it was made or when it is checked. What is
  assumed of bcrypt is that a check accepts the password a hash was made from.
\<close>

theorem hash_verifies_password:
  assumes "is_bcrypt (python_bcrypt_hash cx p) \<Longrightarrow> python_bcrypt_verify cx' p (python_bcrypt_hash cx p)"
    and "cx_pbkdf2 cx' = cx_pbkdf2 cx"
  shows "password_verify cx' p (password_hash cx p) = Some True
    \<and> (\<not> is_bcrypt (python_bcrypt_hash cx p) \<longrightarrow> password_verify cx' q (password_hash cx p)
      = Some (cx_pbkdf2 cx q (hex_encode (cx_salt cx)) 100000 = cx_pbkdf2 cx p (hex_encode (cx_salt cx)) 100000))"
proof (intro conjI impI)
  let ?b = "python_bcrypt_hash cx p" and ?salt = "hex_encode (cx_salt cx)"
  have pb: "password_verify cx' q (''$pbkdf2-sha256$100000$'' @ ?salt @ ''$'' @ pbkdf2_hash cx p ?salt 100000)
      = Some (cx_pbkdf2 cx q ?salt 100000 = cx_pbkdf2 cx p ?salt 100000)" for q
    using verify_pbkdf2 [OF no_dollar_hex, of cx' q "cx_salt cx" "pbkdf2_hash cx p ?salt 100000"]
    by (simp add: pbkdf2_hash_def hex_encode_inject assms(2))
  show "password_verify cx' p (password_hash cx p) = Some True"
  proof (cases "?b \<noteq> [] \<and> length ?b > 10 \<and> is_bcrypt ?b")
    case True
    then have h: "password_hash cx p = ?b" by (simp add: password_hash_def)
    from True assms(1) show ?thesis unfolding h by (simp add: password_verify_def)
  next
    case False
    then have "password_hash cx p = ''$pbkdf2-sha256$100000$'' @ ?salt @ ''$'' @ pbkdf2_hash cx p ?salt 100000"
      unfolding password_hash_def Let_def by (simp only: if_False)
    with pb [of p] show ?thesis by simp
  qed
  assume "\<not> is_bcrypt ?b"
  then show "password_verify cx' q (password_hash cx p)
      = Some (cx_pbkdf2 cx q ?salt 100000 = cx_pbkdf2 cx p ?salt 100000)"
    using pb [of q] by (simp add: password_hash_def Let_def)
qed

lemma page_chunk:
  assumes "(i + 1) * n < 2147483648"
  shows "list_users_paginated ks (int i + 1) (int n) um = Some (take n (drop (i * n) (get_all_users ks um)))"
proof (cases "n = 0")
  case True
  then show ?thesis by (simp add: list_users_paginated_def get_all_users_def Let_def to_int32_def)
next
  case False
  have le: "i \<le> i * n" "i * n < (i + 1) * n" using False by simp_all
  then have "i < (i + 1) * n" by linarith
  with le have i: "int i < 2147483648" and s: "int i * int n < 2147483648"
    and e: "int i * int n + int n < 2147483648"
    using assms by (simp_all flip: of_nat_mult of_nat_add add: algebra_simps)
  have w: "to_int32 (to_int32 (int i) * int n) = int (i * n)"
    using i s to_int32_id [of "int i * int n"] by (simp add: to_int32_id order_trans [of _ 0])
  have w2: "to_int32 (int (i * n) + int n) = int (i * n + n)"
    using e to_int32_id [of "int i * int n + int n"] by (simp add: order_trans [of _ 0])
  let ?all = "get_all_users ks um"
  have all: "vals ks (um_users um) = ?all" by (simp add: get_all_users_def)
  show ?thesis
  proof (cases "length ?all \<le> i * n")
    case True
    then show ?thesis by (simp add: list_users_paginated_def Let_def w all del: of_nat_mult)
  next
    case less: False
    have "nat (min (int (i * n + n)) (int (length ?all)) - int (i * n)) = min n (length ?all - i * n)"
      using less by linarith
    then show ?thesis
      using less by (simp add: list_users_paginated_def Let_def w w2 all min_def del: of_nat_mult of_nat_add)
  qed
qed

text \<open>
  the pages of a listing, in order, are the accounts, each exactly once: the first \<open>k\<close> pages of
  \<open>n\<close> entries are the first \<open>k * n\<close> accounts in the order of the table.
\<close>

theorem pages_partition_users:
  assumes "k * n < 2147483648"
  shows "concat (map (\<lambda>i. the (list_users_paginated ks (int i + 1) (int n) um)) [0..<k])
    = take (k * n) (get_all_users ks um)"
  using assms
proof (induction k)
  case (Suc k)
  then have "(k + 1) * n < 2147483648" by simp
  note chunk = page_chunk [OF this, of ks um]
  have "take (Suc k * n) (get_all_users ks um)
      = take (k * n) (get_all_users ks um) @ take n (drop (k * n) (get_all_users ks um))"
    by (simp add: take_add add.commute [of n])
  with chunk Suc show ?case by simp
qed simp

theorem pages_partition_users_witness:
  "concat (map (\<lambda>i. the (list_users_paginated [''a'', ''b'', ''c''] (int i + 1) (int 2)
      (new_user_manager\<lparr>um_users := [''a'' \<mapsto> no_user, ''b'' \<mapsto> no_user, ''c'' \<mapsto> no_user]\<rparr>))) [0..<2])
    = [no_user, no_user, no_user]"
  using pages_partition_users [of 2 2 "[''a'', ''b'', ''c'']"
      "new_user_manager\<lparr>um_users := [''a'' \<mapsto> no_user, ''b'' \<mapsto> no_user, ''c'' \<mapsto> no_user]\<rparr>"]
  by (simp add: get_all_users_def vals_def)

definition plain_crypto :: crypto where
  "plain_crypto = \<lparr>cx_popen = (\<lambda>_. None), cx_salt = ''salt'', cx_pbkdf2 = (\<lambda>p s n. p @ s)\<rparr>"

theorem hash_verifies_password_witness:
  "password_verify plain_crypto ''p'' (password_hash plain_crypto ''p'') = Some True
   \<and> password_verify plain_crypto ''q'' (password_hash plain_crypto ''p'') = Some False"
proof -
  have "python_bcrypt_hash plain_crypto ''p'' = ''''"
    by (simp add: python_bcrypt_hash_def plain_crypto_def)
  moreover from this have "\<not> is_bcrypt (python_bcrypt_hash plain_crypto ''p'')" by (simp add: is_bcrypt_def)
  ultimately show ?thesis
    using hash_verifies_password [of plain_crypto "''p''" plain_crypto "''q''"]
    by (simp add: plain_crypto_def)
qed

lemma other_accounts_untouched:
  assumes "u \<noteq> user"
  shows "authenticate cx admin t u q (snd (add_user cx' now user p days um)) = authenticate cx admin t u q um"
    and "authenticate cx admin t u q (snd (set_status user b um)) = authenticate cx admin t u q um"
    and "authenticate cx admin t u q (snd (update_password cx' user p um)) = authenticate cx admin t u q um"
    and "authenticate cx admin t u q (snd (remove_user user um)) = authenticate cx admin t u q um"
  using assms
  by (auto simp: authenticate_def add_user_def set_status_def update_password_def remove_user_def Let_def
      split: option.split)

text \<open>
  C29: The life of an account: a new account, of a name other than the administrator's and for at most
  24855 days (more overflow the computation of the expiry in 32 bits), authenticates with the password it
  was added with up to its expiry and not after, not while it is disabled, again once it is enabled, with
  a changed password after the change, and not once it is removed; and adding, disabling, enabling,
  changing the password of and removing one account never change the answer for another. What is assumed
  of the Python bcrypt is that a check accepts the password a hash was made from, of the PBKDF2 that it is
  the same function at both times, and of the clock that it is past 1970.
\<close>

theorem account_lifecycle:
  assumes "um_users um user = None" "user \<noteq> fst admin" "days \<le> 24855" "0 < now"
    and "\<And>x. is_bcrypt (python_bcrypt_hash cx x) \<Longrightarrow> python_bcrypt_verify cx' x (python_bcrypt_hash cx x)"
    and "cx_pbkdf2 cx' = cx_pbkdf2 cx"
    and "add_user cx now user p days um = (ok, um1)"
  shows "ok \<and> authenticate cx' admin t user p um1 = Some (days \<le> 0 \<or> t \<le> now + days * 86400)
    \<and> authenticate cx' admin t user p (snd (set_status user False um1)) = Some False
    \<and> authenticate cx' admin t user p (snd (set_status user True (snd (set_status user False um1))))
        = authenticate cx' admin t user p um1
    \<and> authenticate cx' admin t user p2 (snd (update_password cx user p2 um1))
        = authenticate cx' admin t user p um1
    \<and> authenticate cx' admin t user p (snd (remove_user user um1)) = Some False
    \<and> (\<forall>u q um2 b. u \<noteq> user \<longrightarrow>
         authenticate cx' admin t u q (snd (add_user cx now user p days um2)) = authenticate cx' admin t u q um2
       \<and> authenticate cx' admin t u q (snd (set_status user b um2)) = authenticate cx' admin t u q um2
       \<and> authenticate cx' admin t u q (snd (update_password cx user p2 um2)) = authenticate cx' admin t u q um2
       \<and> authenticate cx' admin t u q (snd (remove_user user um2)) = authenticate cx' admin t u q um2)"
proof -
  define info where "info = \<lparr>ui_username = user, ui_password_hash = password_hash cx p,
    ui_expire_time = (if days > 0 then now + days * 86400 else 0), ui_active = True\<rparr>"
  have "days > 0 \<Longrightarrow> to_int32 (days * 24 * 3600) = days * 86400"
    using assms(3) to_int32_id [of "days * 86400"] by (simp add: mult.assoc)
  then have add: "ok" "um1 = um\<lparr>um_users := (um_users um)(user \<mapsto> info)\<rparr>"
    using assms(1,7) by (auto simp: add_user_def info_def Let_def)
  have verify: "password_verify cx' x (password_hash cx x) = Some True" for x
    using hash_verifies_password [OF assms(5,6)] by simp
  have life: "authenticate cx' admin t user p um1 = Some (days \<le> 0 \<or> t \<le> now + days * 86400)"
    using assms(2,4) verify by (auto simp: add authenticate_def info_def)
  have changed: "authenticate cx' admin t user p2 (snd (update_password cx user p2 um1))
      = Some (days \<le> 0 \<or> t \<le> now + days * 86400)"
    using assms(2,4) verify by (auto simp: add authenticate_def info_def update_password_def)
  show ?thesis
    using assms(2) life changed add by (auto simp: um_defs info_def other_accounts_untouched)
qed

theorem account_lifecycle_witness:
  "authenticate plain_crypto (''admin'', '''') 100000 ''u'' ''p''
     (snd (add_user plain_crypto 1 ''u'' ''p'' 1 new_user_manager)) = Some False"
proof -
  obtain ok um1 where add: "add_user plain_crypto 1 ''u'' ''p'' 1 new_user_manager = (ok, um1)" by fastforce
  have "\<not> is_bcrypt (python_bcrypt_hash plain_crypto x)" for x
    by (simp add: python_bcrypt_hash_def plain_crypto_def is_bcrypt_def)
  from account_lifecycle [of new_user_manager "''u''" "(''admin'', '''')" 1 1 plain_crypto plain_crypto "''p''" ok um1 100000]
    this add
  show ?thesis by (simp add: new_user_manager_def)
qed

text \<open>
  C30: the accounts survive a restart: a table that was saved and is loaded again is the same table,
  if no account has the empty name.
\<close>

theorem save_load_users:
  assumes "save_users opens renames ks um fs = (True, fs')" "iterates ks (um_users um)" "users_ok um"
    and "'''' \<notin> dom (um_users um)"
  shows "load_users fs' (um_filepath um) um' = (True, um)"
proof -
  have raw: "user_of_raw (raw_of_user info) = info" for info
    by (simp add: user_of_raw_def raw_of_user_def)
  have load: "set js \<subseteq> dom (um_users um) \<Longrightarrow> load_entries (map (Some \<circ> raw_of_user) (vals js (um_users um))) m
      = (True, m ++ (um_users um |` set js))" for js m
  proof (induction js arbitrary: m)
    case (Cons j js)
    then obtain info where info: "um_users um j = Some info" by auto
    then have "ui_username info = j" "j \<noteq> ''''"
      using assms(3,4) by (auto simp: users_ok_def filed_def)
    moreover have "m(j \<mapsto> info) ++ (um_users um |` set js) = m ++ (um_users um |` set (j # js))"
      using info by (auto simp: map_add_def restrict_map_def fun_eq_iff split: option.split)
    ultimately show ?case using Cons info by (simp add: vals_def raw Let_def)
  qed simp
  have "set ks = dom (um_users um)" using assms(2) by (simp add: iterates_def)
  then have "Map.empty ++ (um_users um |` set ks) = um_users um"
    by (auto simp: restrict_map_def fun_eq_iff domIff)
  moreover have "um_filepath um \<noteq> um_filepath um @ ''.tmp''" by simp
  ultimately show ?thesis
    using assms(1) load [of ks Map.empty] \<open>set ks = dom (um_users um)\<close>
    by (auto simp: save_users_def load_users_def Let_def split: if_splits)
qed

theorem save_load_users_witness:
  "load_users (snd (save_users True True [''a''] (\<lparr>um_filepath = ''f'', um_users = [''a'' \<mapsto> no_user\<lparr>ui_username := ''a''\<rparr>]\<rparr>)
      (\<lambda>_. No_users_file))) ''f'' new_user_manager
   = (True, \<lparr>um_filepath = ''f'', um_users = [''a'' \<mapsto> no_user\<lparr>ui_username := ''a''\<rparr>]\<rparr>)"
proof -
  let ?um = "\<lparr>um_filepath = ''f'', um_users = [''a'' \<mapsto> no_user\<lparr>ui_username := ''a''\<rparr>]\<rparr>"
  obtain fs' where save: "save_users True True [''a''] ?um (\<lambda>_. No_users_file) = (True, fs')"
    by (simp add: save_users_def Let_def)
  have "iterates [''a''] (um_users ?um)" "users_ok ?um" "'''' \<notin> dom (um_users ?um)"
    by (auto simp: iterates_def users_ok_def filed_def)
  from save_load_users [OF save this, of new_user_manager] save show ?thesis by simp
qed

end
