(* ===== verification/Web_Auth.thy ===== *)
theory Web_Auth
  imports User_Manager
begin

text \<open>
  \<^verbatim>\<open>src/src/web_server/jwt_util.cpp\<close>, \<^verbatim>\<open>auth_middleware.cpp\<close> and the login handler of
  \<^verbatim>\<open>api_router.cpp\<close>: signed tokens, the guards of the routes and the lock after failed logins. The
  message authentication code and the printing and parsing of JSON are parameters.
\<close>

section \<open>Tokens\<close>

text \<open>A member of a parsed payload: missing, of a wrong type, at which the accessor throws, or a value.\<close>

datatype 'a claim = Missing | Mistyped | Claim 'a

fun claim_or :: "'a \<Rightarrow> 'a claim \<Rightarrow> 'a option" where
  "claim_or d Missing = Some d"
| "claim_or d Mistyped = None"
| "claim_or d (Claim v) = Some v"

record payload =
  pl_username :: "string claim"
  pl_role :: "string claim"
  pl_exp :: "int claim"

text \<open>
  \<open>jw_dump\<close> prints the payload of a user, a role and an expiry, \<open>jw_parse\<close> parses one, \<open>None\<close> where
  it throws; \<open>jw_mac\<close> is HMAC-SHA256 of data and key.
\<close>

record jwt_lib =
  jw_header :: string
  jw_dump :: "string \<Rightarrow> string \<Rightarrow> int \<Rightarrow> string"
  jw_parse :: "string \<Rightarrow> payload option"
  jw_mac :: "string \<Rightarrow> string \<Rightarrow> string"

definition jwt_sign :: "jwt_lib \<Rightarrow> string \<Rightarrow> int \<Rightarrow> string \<Rightarrow> string \<Rightarrow> int \<Rightarrow> string" where
  "jwt_sign jw secret now user role expire_minutes =
     (let e = now + to_int32 (expire_minutes * 60);
          input = base64_encode (jw_header jw) @ ''.'' @ base64_encode (jw_dump jw user role e)
      in input @ ''.'' @ base64_encode (jw_mac jw input secret))"

text \<open>The three parts of a token; the last is everything behind the second dot.\<close>

definition token_parts :: "string \<Rightarrow> (string \<times> string \<times> string) option" where
  "token_parts token =
     (case find_char CHR ''.'' 0 token of
        None \<Rightarrow> None
      | Some dot1 \<Rightarrow>
          (case find_char CHR ''.'' (dot1 + 1) token of
             None \<Rightarrow> None
           | Some dot2 \<Rightarrow> Some (take dot1 token, substr (dot1 + 1) (dot2 - dot1 - 1) token, drop (dot2 + 1) token)))"

definition jwt_verify :: "jwt_lib \<Rightarrow> string \<Rightarrow> int \<Rightarrow> string \<Rightarrow> bool" where
  "jwt_verify jw secret now token =
     (case token_parts token of
        None \<Rightarrow> False
      | Some (header, body, sig) \<Rightarrow>
          if sig \<noteq> base64_encode (jw_mac jw (header @ ''.'' @ body) secret) then False
          else
            case jw_parse jw (jwt_base64_decode body) of
              None \<Rightarrow> False
            | Some pl \<Rightarrow> (case claim_or 0 (pl_exp pl) of None \<Rightarrow> False | Some e \<Rightarrow> now < e))"

definition jwt_get_username :: "jwt_lib \<Rightarrow> string \<Rightarrow> int \<Rightarrow> string \<Rightarrow> string" where
  "jwt_get_username jw secret now token =
     (if \<not> jwt_verify jw secret now token then ''''
      else
        case token_parts token of
          None \<Rightarrow> ''''
        | Some (header, body, sig) \<Rightarrow>
            (case jw_parse jw (jwt_base64_decode body) of
               None \<Rightarrow> ''''
             | Some pl \<Rightarrow> (case claim_or '''' (pl_username pl) of None \<Rightarrow> '''' | Some u \<Rightarrow> u)))"

definition jwt_get_role :: "jwt_lib \<Rightarrow> string \<Rightarrow> int \<Rightarrow> string \<Rightarrow> string" where
  "jwt_get_role jw secret now token =
     (if \<not> jwt_verify jw secret now token then ''''
      else
        case token_parts token of
          None \<Rightarrow> ''user''
        | Some (header, body, sig) \<Rightarrow>
            (case jw_parse jw (jwt_base64_decode body) of
               None \<Rightarrow> ''user''
             | Some pl \<Rightarrow> (case claim_or ''user'' (pl_role pl) of None \<Rightarrow> ''user'' | Some r \<Rightarrow> r)))"

lemma jwt_verify_iff:
  "jwt_verify jw secret now token \<longleftrightarrow>
     (\<exists>header body sig pl e. token_parts token = Some (header, body, sig)
        \<and> sig = base64_encode (jw_mac jw (header @ ''.'' @ body) secret)
        \<and> jw_parse jw (jwt_base64_decode body) = Some pl \<and> claim_or 0 (pl_exp pl) = Some e \<and> now < e)"
proof (cases "token_parts token")
  case (Some parts)
  obtain header body sig where parts: "parts = (header, body, sig)" by (cases parts)
  show ?thesis
  proof (cases "jw_parse jw (jwt_base64_decode body)")
    case pl: (Some pl)
    show ?thesis
      by (cases "claim_or 0 (pl_exp pl)") (simp_all add: jwt_verify_def Some parts pl)
  qed (simp add: jwt_verify_def Some parts)
qed (simp add: jwt_verify_def)

section \<open>Guards\<close>

definition public_extensions :: "string list" where
  "public_extensions = [''.js'', ''.css'', ''.ico'', ''.png'', ''.svg'', ''.woff'', ''.woff2'', ''.ttf'', ''.map'']"

definition is_public_path :: "string \<Rightarrow> bool" where
  "is_public_path path \<longleftrightarrow>
     path = ''/api/auth/login'' \<or> path = ''/health'' \<or> path = ''/'' \<or> path = ''/index.html''
     \<or> take 5 path = ''/web/''
     \<or> (case rfind_char CHR ''.'' path of None \<Rightarrow> False | Some i \<Rightarrow> drop i path \<in> set public_extensions)"

text \<open>What a guard reads of a request.\<close>

record http_req =
  rq_url :: string
  rq_authorization :: "string option"
  rq_cookie :: "string option"

definition extract_token :: "http_req \<Rightarrow> string" where
  "extract_token rq =
     (let token = (case rq_authorization rq of
                     None \<Rightarrow> ''''
                   | Some auth \<Rightarrow> if length auth > 7 \<and> take 7 auth = ''Bearer '' then drop 7 auth else '''')
      in if token \<noteq> '''' then token
         else
           case rq_cookie rq of
             None \<Rightarrow> ''''
           | Some cookie \<Rightarrow>
               (case find_sub ''token='' 0 cookie of
                  None \<Rightarrow> ''''
                | Some pos \<Rightarrow>
                    (case find_char CHR '';'' pos cookie of
                       None \<Rightarrow> drop (pos + 6) cookie
                     | Some stop \<Rightarrow> substr (pos + 6) (stop - pos - 6) cookie)))"

text \<open>The outcome of a guard: the request goes on, or it is answered with a code.\<close>

datatype guard = Pass | Deny nat

definition require_auth :: "jwt_lib \<Rightarrow> string \<Rightarrow> int \<Rightarrow> http_req \<Rightarrow> guard" where
  "require_auth jw secret now rq =
     (if is_public_path (rq_url rq) then Pass
      else
        let token = extract_token rq
        in if token = '''' \<or> \<not> jwt_verify jw secret now token then Deny 401 else Pass)"

definition require_admin :: "jwt_lib \<Rightarrow> string \<Rightarrow> int \<Rightarrow> http_req \<Rightarrow> guard" where
  "require_admin jw secret now rq =
     (case require_auth jw secret now rq of
        Deny code \<Rightarrow> Deny code
      | Pass \<Rightarrow> if jwt_get_role jw secret now (extract_token rq) \<noteq> ''admin'' then Deny 403 else Pass)"

lemma dot_not_base64: "CHR ''.'' \<notin> set (base64_encode s)"
proof -
  have "b64_char i \<noteq> CHR ''.''" if "0 \<le> i" "i < 64" for i
  proof -
    have "nat i \<in> set [0..<64]" using that by auto
    moreover have "\<forall>n \<in> set [0..<64]. b64_char (int n) \<noteq> CHR ''.''" by code_simp
    ultimately show ?thesis using that(1) by fastforce
  qed
  then have "\<forall>i \<in> set (sextets s). b64_char i \<noteq> CHR ''.''"
    using sextets_range [of s] by blast
  then show ?thesis unfolding base64_encode_eq by force
qed

lemma token_parts_signed:
  assumes "CHR ''.'' \<notin> set h" "CHR ''.'' \<notin> set b"
  shows "token_parts (h @ ''.'' @ b @ ''.'' @ s) = Some (h, b, s)"
proof -
  let ?t = "h @ ''.'' @ b @ ''.'' @ s"
  have d1: "find_char CHR ''.'' 0 ?t = Some (length h)"
    using find_char_from [OF assms(1), of "[]" 0] by simp
  have d2: "find_char CHR ''.'' (length h + 1) ?t = Some (length h + 1 + length b)"
    using find_char_from [OF assms(2), of "h @ ''.''" "length h + 1" s] by simp
  have "drop (length h + 1 + length b + 1) ?t = s" "substr (length h + 1) (length b) ?t = b"
    by (simp_all add: substr_def)
  with d1 d2 show ?thesis by (simp add: token_parts_def)
qed

section \<open>Logging in\<close>

text \<open>
  The two tables of the login handler. One reading of the clock stands for all of a request's.
\<close>

record login_state =
  lg_fail_count :: "string \<rightharpoonup> int"
  lg_lock_until :: "string \<rightharpoonup> int"

datatype login_response =
  Logged_in string string string | Locked int | Account_disabled | Account_expired
| Invalid_credentials | Bad_login_request

text \<open>\<open>n_names\<close> is the number of names with failures.\<close>

definition n_names :: "(string \<rightharpoonup> int) \<Rightarrow> nat" where
  "n_names m = card (dom m)"

definition cleanup_expired_login_records :: "int \<Rightarrow> login_state \<Rightarrow> login_state" where
  "cleanup_expired_login_records now lg =
     lg\<lparr>lg_lock_until := (\<lambda>u. case lg_lock_until lg u of
                              None \<Rightarrow> None | Some e \<Rightarrow> if now \<ge> e then None else Some e),
        lg_fail_count := (if n_names (lg_fail_count lg) > 1000 then Map.empty else lg_fail_count lg)\<rparr>"

definition login_forget :: "string \<Rightarrow> login_state \<Rightarrow> login_state" where
  "login_forget user lg =
     lg\<lparr>lg_fail_count := (lg_fail_count lg)(user := None), lg_lock_until := (lg_lock_until lg)(user := None)\<rparr>"

definition login_failed :: "int \<Rightarrow> string \<Rightarrow> login_state \<Rightarrow> login_state" where
  "login_failed now user lg =
     (let c = (case lg_fail_count lg user of None \<Rightarrow> 0 | Some c \<Rightarrow> c) + 1
      in if c \<ge> 5
         then lg\<lparr>lg_lock_until := (lg_lock_until lg)(user \<mapsto> now + 900),
                 lg_fail_count := (lg_fail_count lg)(user := None)\<rparr>
         else lg\<lparr>lg_fail_count := (lg_fail_count lg)(user \<mapsto> c)\<rparr>)"

definition lock_remaining :: "int \<Rightarrow> string \<Rightarrow> login_state \<Rightarrow> int option" where
  "lock_remaining now user lg =
     (case lg_lock_until lg user of
        None \<Rightarrow> None | Some e \<Rightarrow> if now < e then Some (e - now) else None)"

text \<open>The check of the credentials of a name that is not locked, with the tables after the cleanup.\<close>

definition check_credentials ::
    "jwt_lib \<Rightarrow> string \<Rightarrow> crypto \<Rightarrow> string \<times> string \<Rightarrow> user_manager \<Rightarrow> int
     \<Rightarrow> string \<Rightarrow> string \<Rightarrow> login_state \<Rightarrow> login_response \<times> login_state" where
  "check_credentials jw secret cx admin um now user password lg =
     (if user = fst admin then
        (case password_verify cx password (snd admin) of
           None \<Rightarrow> (Bad_login_request, lg)
         | Some True \<Rightarrow> (Logged_in (jwt_sign jw secret now user ''admin'' 30) user ''admin'', login_forget user lg)
         | Some False \<Rightarrow> (Invalid_credentials, login_failed now user lg))
      else
        (case authenticate cx admin now user password um of
           None \<Rightarrow> (Bad_login_request, lg)
         | Some True \<Rightarrow>
             let info = get_user_info user um
             in if \<not> ui_active info then (Account_disabled, lg)
                else if ui_expire_time info > 0 \<and> now \<ge> ui_expire_time info then (Account_expired, lg)
                else (Logged_in (jwt_sign jw secret now user ''user'' 30) user ''user'', login_forget user lg)
         | Some False \<Rightarrow> (Invalid_credentials, login_failed now user lg)))"

text \<open>The handler for a parsed body; a body that does not parse is \<open>None\<close>.\<close>

definition api_login ::
    "jwt_lib \<Rightarrow> string \<Rightarrow> crypto \<Rightarrow> string \<times> string \<Rightarrow> user_manager \<Rightarrow> int
     \<Rightarrow> (string option \<times> string option) option \<Rightarrow> login_state \<Rightarrow> login_response \<times> login_state" where
  "api_login jw secret cx admin um now body lg =
     (case body of
        None \<Rightarrow> (Bad_login_request, lg)
      | Some (u, p) \<Rightarrow>
          let user = member_or '''' u; password = member_or '''' p;
              lg1 = cleanup_expired_login_records now lg
          in case lock_remaining now user lg1 of
               Some r \<Rightarrow> (Locked r, lg1)
             | None \<Rightarrow> check_credentials jw secret cx admin um now user password lg1)"

section \<open>Locks\<close>

text \<open>Attempts one after the other, with the time and the body of each.\<close>

fun attempts :: "jwt_lib \<Rightarrow> string \<Rightarrow> crypto \<Rightarrow> string \<times> string \<Rightarrow> user_manager
    \<Rightarrow> (int \<times> (string option \<times> string option) option) list \<Rightarrow> login_state \<Rightarrow> login_state" where
  "attempts jw secret cx admin um [] lg = lg"
| "attempts jw secret cx admin um ((now, body) # es) lg =
     attempts jw secret cx admin um es (snd (api_login jw secret cx admin um now body lg))"

text \<open>What one attempt does to the tables: nothing, the cleanup, and then for its own user only.\<close>

definition own_update :: "int \<Rightarrow> login_state \<Rightarrow> login_state \<Rightarrow> bool" where
  "own_update now c lg \<longleftrightarrow> lg = c \<or> (\<exists>user. lock_remaining now user c = None
     \<and> (lg = login_forget user c \<or> lg = login_failed now user c))"

lemma check_credentials_state:
  "snd (check_credentials jw secret cx admin um now user password lg)
   \<in> {lg, login_forget user lg, login_failed now user lg}"
  by (simp add: check_credentials_def Let_def split: option.split bool.split)

lemma api_login_state:
  "snd (api_login jw secret cx admin um now body lg) = lg
   \<or> own_update now (cleanup_expired_login_records now lg) (snd (api_login jw secret cx admin um now body lg))"
proof (cases body)
  case (Some up)
  let ?c = "cleanup_expired_login_records now lg" and ?u = "member_or '''' (fst up)"
  show ?thesis
  proof (cases "lock_remaining now ?u ?c")
    case lock: (Some r)
    then show ?thesis using Some by (simp add: api_login_def split_beta own_update_def)
  next
    case free: None
    then have "api_login jw secret cx admin um now body lg
        = check_credentials jw secret cx admin um now ?u (member_or '''' (snd up)) ?c"
      using Some by (simp add: api_login_def split_beta)
    with check_credentials_state [of jw secret cx admin um now ?u "member_or '''' (snd up)" ?c] free
    show ?thesis unfolding own_update_def by auto
  qed
qed (simp add: api_login_def)

lemma cleanup_keeps_lock:
  "lg_lock_until lg u = Some e \<Longrightarrow> now < e
   \<Longrightarrow> lg_lock_until (cleanup_expired_login_records now lg) u = Some e"
  by (simp add: cleanup_expired_login_records_def)

lemma lock_survives:
  assumes "lg_lock_until lg u = Some e" "now < e"
  shows "lg_lock_until (snd (api_login jw secret cx admin um now body lg)) u = Some e"
proof -
  let ?c = "cleanup_expired_login_records now lg"
  have c: "lg_lock_until ?c u = Some e" using cleanup_keeps_lock [OF assms] .
  have other: "user \<noteq> u" if "lock_remaining now user ?c = None" for user
    using that c assms(2) by (auto simp: lock_remaining_def)
  have "lg_lock_until (login_forget user ?c) u = Some e \<and> lg_lock_until (login_failed now user ?c) u = Some e"
    if "lock_remaining now user ?c = None" for user
    using c other [OF that] by (simp add: login_forget_def login_failed_def Let_def)
  with api_login_state [of jw secret cx admin um now body lg] c assms(1) show ?thesis
    unfolding own_update_def by metis
qed

lemma lock_survives_attempts:
  "lg_lock_until lg u = Some e \<Longrightarrow> \<forall>x \<in> set es. fst x < e \<Longrightarrow>
   lg_lock_until (attempts jw secret cx admin um es lg) u = Some e"
  by (induction es arbitrary: lg) (auto simp: lock_survives)

lemma locked_answer:
  assumes "lg_lock_until lg u = Some e" "now < e"
  shows "fst (api_login jw secret cx admin um now (Some (Some u, p)) lg) = Locked (e - now)"
  using cleanup_keeps_lock [OF assms] assms(2) by (simp add: api_login_def lock_remaining_def)

lemma failed_credentials:
  "check_credentials jw secret cx admin um now u p lg = (Invalid_credentials, lg1) \<Longrightarrow> lg1 = login_failed now u lg"
  by (auto simp: check_credentials_def Let_def split: option.splits bool.splits if_splits)

lemma failed_login_counts:
  assumes "api_login jw secret cx admin um now (Some (Some u, p)) lg = (Invalid_credentials, lg1)"
  shows "lg1 = login_failed now u (cleanup_expired_login_records now lg)"
  using assms by (auto simp: api_login_def Let_def split: option.splits dest: failed_credentials)

text \<open>A thousand and one other names are enough to have every count of failures forgotten.\<close>

lemma many_names_reset_counts:
  "n_names (lg_fail_count lg) > 1000 \<Longrightarrow> lg_fail_count (cleanup_expired_login_records now lg) = Map.empty"
  by (simp add: cleanup_expired_login_records_def)

lemma signed_token:
  assumes "\<And>u r e. jw_parse jw (jw_dump jw u r e) = Some \<lparr>pl_username = Claim u, pl_role = Claim r, pl_exp = Claim e\<rparr>"
    and "0 \<le> minutes" "minutes \<le> 35791394"
  shows "(jwt_verify jw secret t (jwt_sign jw secret now user role minutes) \<longleftrightarrow> t < now + minutes * 60)
    \<and> jwt_get_username jw secret t (jwt_sign jw secret now user role minutes)
        = (if t < now + minutes * 60 then user else '''')
    \<and> jwt_get_role jw secret t (jwt_sign jw secret now user role minutes)
        = (if t < now + minutes * 60 then role else '''')"
proof -
  have e: "to_int32 (minutes * 60) = minutes * 60" using assms(2,3) by (simp add: to_int32_id)
  let ?body = "jw_dump jw user role (now + minutes * 60)"
  let ?in = "base64_encode (jw_header jw) @ ''.'' @ base64_encode ?body"
  have tok: "jwt_sign jw secret now user role minutes = base64_encode (jw_header jw) @ ''.'' @ base64_encode ?body
      @ ''.'' @ base64_encode (jw_mac jw ?in secret)"
    by (simp add: jwt_sign_def e Let_def)
  have parts: "token_parts (jwt_sign jw secret now user role minutes)
      = Some (base64_encode (jw_header jw), base64_encode ?body, base64_encode (jw_mac jw ?in secret))"
    unfolding tok by (rule token_parts_signed [OF dot_not_base64 dot_not_base64])
  have v: "jwt_verify jw secret t (jwt_sign jw secret now user role minutes) \<longleftrightarrow> t < now + minutes * 60"
    by (simp add: jwt_verify_def parts decode_encode assms(1))
  then show ?thesis
    by (simp add: jwt_get_username_def jwt_get_role_def parts decode_encode assms(1))
qed

section \<open>Properties\<close>

text \<open>
  C21: a signed token is valid until its expiry and only then, and gives back the user and the role
  it was signed for, provided the JSON library parses what it printed.
\<close>

theorem token_roundtrip:
  assumes "\<And>u r e. jw_parse jw (jw_dump jw u r e) = Some \<lparr>pl_username = Claim u, pl_role = Claim r, pl_exp = Claim e\<rparr>"
    and "0 \<le> minutes" "minutes \<le> 35791394"
  shows "(jwt_verify jw secret t (jwt_sign jw secret now user role minutes) \<longleftrightarrow> t < now + minutes * 60)
    \<and> jwt_get_username jw secret t (jwt_sign jw secret now user role minutes)
        = (if t < now + minutes * 60 then user else '''')
    \<and> jwt_get_role jw secret t (jwt_sign jw secret now user role minutes)
        = (if t < now + minutes * 60 then role else '''')"
  by (rule signed_token [OF assms])

text \<open>
  A request that passes the guard of an administrator's route carries a token whose third part is the
  code of the first two under the secret, whose payload says administrator and which has not expired.
\<close>

lemma admin_needs_signed_token:
  assumes "require_admin jw secret now rq = Pass"
  shows "\<exists>header body pl e. token_parts (extract_token rq)
      = Some (header, body, base64_encode (jw_mac jw (header @ ''.'' @ body) secret))
    \<and> jw_parse jw (jwt_base64_decode body) = Some pl \<and> pl_role pl = Claim ''admin''
    \<and> claim_or 0 (pl_exp pl) = Some e \<and> now < e"
proof -
  let ?t = "extract_token rq"
  have role: "jwt_get_role jw secret now ?t = ''admin''"
    using assms by (auto simp: require_admin_def split: guard.splits if_splits)
  then have v: "jwt_verify jw secret now ?t" by (cases "jwt_verify jw secret now ?t") (simp_all add: jwt_get_role_def)
  then obtain header body sig pl e where parts: "token_parts ?t = Some (header, body, sig)"
    and sig: "sig = base64_encode (jw_mac jw (header @ ''.'' @ body) secret)"
    and parse: "jw_parse jw (jwt_base64_decode body) = Some pl"
    and e: "claim_or 0 (pl_exp pl) = Some e" "now < e"
    unfolding jwt_verify_iff by blast
  have "pl_role pl = Claim ''admin''"
    using role v parts parse by (cases "pl_role pl") (auto simp: jwt_get_role_def)
  with parts sig parse e show ?thesis by blast
qed

text \<open>The guard of the other routes is passed without any token by a path that ends like a file.\<close>

lemma extension_passes_guard:
  "require_auth jw secret now \<lparr>rq_url = path @ ''.js'', rq_authorization = a, rq_cookie = c\<rparr> = Pass"
proof -
  have "rfind_char CHR ''.'' (path @ ''.js'') = Some (length path)"
    by (simp add: rfind_char_def)
  then show ?thesis by (simp add: require_auth_def is_public_path_def public_extensions_def)
qed

text \<open>
  C28: With at most a thousand names on record with failures, the fifth failure of a name locks it for
  fifteen minutes: until then every attempt for it is answered with the time that remains, whatever its
  password and whatever is tried for other names in between. With more names than that, the fifth
  failure is counted as the first again, and the name is not locked.
\<close>

theorem fifth_failure_locks:
  assumes "lg_fail_count lg u = Some 4"
    and "api_login jw secret cx admin um t (Some (Some u, p)) lg = (Invalid_credentials, lg1)"
    and "\<forall>x \<in> set es. fst x < t + 900" "t' < t + 900"
  shows "(n_names (lg_fail_count lg) \<le> 1000 \<longrightarrow>
      fst (api_login jw secret cx admin um t' (Some (Some u, p')) (attempts jw secret cx admin um es lg1))
        = Locked (t + 900 - t'))
    \<and> (n_names (lg_fail_count lg) > 1000 \<longrightarrow> lg_fail_count lg1 u = Some 1 \<and> lg_lock_until lg1 u = None)"
proof (intro conjI impI)
  let ?c = "cleanup_expired_login_records t lg"
  note lg1 = failed_login_counts [OF assms(2)]
  {
    assume "n_names (lg_fail_count lg) \<le> 1000"
    then have "lg_fail_count ?c u = Some 4" using assms(1) by (simp add: cleanup_expired_login_records_def)
    then have "lg_lock_until lg1 u = Some (t + 900)" using lg1 by (simp add: login_failed_def Let_def)
    from locked_answer [OF lock_survives_attempts [OF this assms(3)] assms(4)]
    show "fst (api_login jw secret cx admin um t' (Some (Some u, p')) (attempts jw secret cx admin um es lg1))
      = Locked (t + 900 - t')" .
  }
  assume "n_names (lg_fail_count lg) > 1000"
  then have none: "lg_fail_count ?c = Map.empty" by (rule many_names_reset_counts)
  then show "lg_fail_count lg1 u = Some 1" using lg1 by (simp add: login_failed_def Let_def)
  have "lock_remaining t u ?c = None"
    using assms(2) by (auto simp: api_login_def Let_def split: option.splits)
  then have "lg_lock_until ?c u = None"
    by (auto simp: lock_remaining_def cleanup_expired_login_records_def split: option.splits if_splits)
  then show "lg_lock_until lg1 u = None" using lg1 none by (simp add: login_failed_def Let_def)
qed

section \<open>Concrete tokens\<close>

text \<open>A library that prints a payload as its fields, every character marked, and parses it again.\<close>

definition put_field :: "string \<Rightarrow> string" where
  "put_field s = concat (map (\<lambda>c. [CHR ''x'', c]) s) @ ''|''"

fun get_field :: "string \<Rightarrow> string \<times> string" where
  "get_field (x # c # s) =
     (if x = CHR ''|'' then ([], c # s) else let (v, rest) = get_field s in (c # v, rest))"
| "get_field _ = ([], [])"

definition put_number :: "int \<Rightarrow> string" where
  "put_number e = (if e < 0 then ''-'' else ''+'') @ replicate (nat (abs e)) CHR ''1''"

definition get_number :: "string \<Rightarrow> int" where
  "get_number s = (if take 1 s = ''-'' then - int (length s - 1) else int (length s - 1))"

lemma get_put_field: "s \<noteq> [] \<Longrightarrow> get_field (put_field v @ s) = (v, s)"
proof (induction v)
  case Nil
  then show ?case by (cases s) (simp_all add: put_field_def)
next
  case (Cons c v)
  then show ?case by (simp add: put_field_def)
qed

lemma get_put_number: "get_number (put_number e) = e"
  by (simp add: get_number_def put_number_def)

definition sample_jwt :: jwt_lib where
  "sample_jwt = \<lparr>jw_header = ''h'', jw_dump = (\<lambda>u r e. put_field u @ put_field r @ put_number e),
     jw_parse = (\<lambda>s. let (u, s1) = get_field s; (r, s2) = get_field s1
                      in Some \<lparr>pl_username = Claim u, pl_role = Claim r, pl_exp = Claim (get_number s2)\<rparr>),
     jw_mac = (\<lambda>data key. key @ data)\<rparr>"

lemma sample_jwt_parses:
  "jw_parse sample_jwt (jw_dump sample_jwt u r e)
   = Some \<lparr>pl_username = Claim u, pl_role = Claim r, pl_exp = Claim e\<rparr>"
proof -
  have "put_number e \<noteq> []" "put_field r \<noteq> []" by (simp_all add: put_number_def put_field_def)
  then show ?thesis by (simp add: sample_jwt_def get_put_field get_put_number)
qed

theorem token_roundtrip_witness:
  "jwt_get_role sample_jwt ''secret'' 1799 (jwt_sign sample_jwt ''secret'' 0 ''u'' ''admin'' 30) = ''admin''
   \<and> jwt_get_role sample_jwt ''secret'' 1800 (jwt_sign sample_jwt ''secret'' 0 ''u'' ''admin'' 30) = ''''"
  using token_roundtrip [OF sample_jwt_parses, of 30 "''secret''" 1799 0 "''u''" "''admin''"]
    token_roundtrip [OF sample_jwt_parses, of 30 "''secret''" 1800 0 "''u''" "''admin''"]
  by simp

theorem fifth_failure_locks_witness:
  "fst (api_login sample_jwt ''k'' plain_crypto (''admin'', '''') new_user_manager 99 (Some (Some ''u'', Some ''p''))
     (attempts sample_jwt ''k'' plain_crypto (''admin'', '''') new_user_manager
        (map (\<lambda>t. (t, Some (Some ''u'', Some ''p''))) [1, 2, 3, 4, 5, 60]) \<lparr>lg_fail_count = Map.empty, lg_lock_until = Map.empty\<rparr>))
   = Locked 806"
proof -
  let ?a = "attempts sample_jwt ''k'' plain_crypto (''admin'', '''') new_user_manager"
  let ?b = "Some (Some ''u'', Some ''p'')"
  let ?lg4 = "?a (map (\<lambda>t. (t, ?b)) [1, 2, 3, 4]) \<lparr>lg_fail_count = Map.empty, lg_lock_until = Map.empty\<rparr>"
  have fail: "api_login sample_jwt ''k'' plain_crypto (''admin'', '''') new_user_manager t ?b lg
      = (Invalid_credentials, login_failed t ''u'' (cleanup_expired_login_records t lg))"
    if "lg_lock_until lg = Map.empty" for t lg
    using that by (simp add: api_login_def check_credentials_def authenticate_def new_user_manager_def
        lock_remaining_def cleanup_expired_login_records_def)
  have lg4: "?lg4 = \<lparr>lg_fail_count = [''u'' \<mapsto> 4], lg_lock_until = Map.empty\<rparr>"
    by (simp add: fail login_failed_def cleanup_expired_login_records_def n_names_def fun_eq_iff)
  have step: "api_login sample_jwt ''k'' plain_crypto (''admin'', '''') new_user_manager 5 ?b ?lg4
      = (Invalid_credentials, login_failed 5 ''u'' (cleanup_expired_login_records 5 ?lg4))"
    unfolding lg4 by (rule fail) simp
  have four: "lg_fail_count ?lg4 ''u'' = Some 4" and few: "n_names (lg_fail_count ?lg4) \<le> 1000"
    unfolding lg4 by (simp_all add: n_names_def)
  from fifth_failure_locks [OF four step, of "[(60, ?b)]" 99 "Some ''p''"] few step show ?thesis by simp
qed

end
