(* ===== verification/Vm_Node.thy ===== *)
theory Vm_Node
  imports Cpp_Strings "HOL-Library.Word"
begin

text \<open>
  \<^verbatim>\<open>src/src/v2rayn_manager/vm_node_manager.h\<close>, the record of an upstream node, its JSON form in the
  management interface (\<^verbatim>\<open>node_to_json\<close>, \<^verbatim>\<open>json_to_node\<close>) and \<^verbatim>\<open>vm_node_validator.cpp\<close>. A document
  is the record of its members, \<open>None\<close> where one is missing; at a member of the wrong type the
  accessors throw, and the callers answer such a document like one that does not parse.
\<close>

section \<open>Nodes\<close>

record tcp_config =
  tcp_header_type :: string

record ws_config =
  ws_path :: string
  ws_host :: string

record h2_config =
  h2_path :: string
  h2_host :: "string list"

record quic_config =
  quic_security :: string
  quic_key :: string
  quic_header_type :: string

record kcp_config =
  kcp_mtu :: int
  kcp_tti :: int
  kcp_uplink :: int
  kcp_downlink :: int
  kcp_congestion :: bool
  kcp_header_type :: string

record tls_config =
  tls_allow_insecure :: bool
  tls_server_name :: string

record vm_node =
  vn_tag :: string
  vn_address :: string
  vn_port :: "16 word"
  vn_user_id :: string
  vn_alter_id :: int
  vn_security :: string
  vn_network :: string
  vn_tls :: string
  vn_remark :: string
  vn_tcp :: tcp_config
  vn_ws :: ws_config
  vn_h2 :: h2_config
  vn_quic :: quic_config
  vn_kcp :: kcp_config
  vn_tlsc :: tls_config

definition default_node :: vm_node where
  "default_node = \<lparr>vn_tag = '''', vn_address = '''', vn_port = 443, vn_user_id = '''', vn_alter_id = 0,
     vn_security = ''auto'', vn_network = ''tcp'', vn_tls = ''none'', vn_remark = '''',
     vn_tcp = \<lparr>tcp_header_type = ''none''\<rparr>, vn_ws = \<lparr>ws_path = ''/'', ws_host = ''''\<rparr>,
     vn_h2 = \<lparr>h2_path = ''/'', h2_host = []\<rparr>,
     vn_quic = \<lparr>quic_security = ''none'', quic_key = '''', quic_header_type = ''none''\<rparr>,
     vn_kcp = \<lparr>kcp_mtu = 1350, kcp_tti = 20, kcp_uplink = 5, kcp_downlink = 20, kcp_congestion = False,
               kcp_header_type = ''none''\<rparr>,
     vn_tlsc = \<lparr>tls_allow_insecure = False, tls_server_name = ''''\<rparr>\<rparr>"

definition desensitize_uuid :: "string \<Rightarrow> string" where
  "desensitize_uuid uuid =
     (if length uuid < 8 then ''***'' else take 4 uuid @ ''****'' @ drop (length uuid - 4) uuid)"

section \<open>The JSON form\<close>

record ws_doc =
  wd_path :: "string option"
  wd_host :: "string option"

record h2_doc =
  hd_path :: "string option"
  hd_host :: "string list option"

record quic_doc =
  qd_security :: "string option"
  qd_key :: "string option"
  qd_header_type :: "string option"

record kcp_doc =
  kd_mtu :: "int option"
  kd_tti :: "int option"
  kd_uplink :: "int option"
  kd_downlink :: "int option"
  kd_congestion :: "bool option"
  kd_header_type :: "string option"

record tls_doc =
  td_allow_insecure :: "bool option"
  td_server_name :: "string option"

text \<open>\<open>nd_tcp\<close> is the member \<^verbatim>\<open>header_type\<close> of \<^verbatim>\<open>tcp_config\<close>, where that is there.\<close>

record node_doc =
  nd_tag :: "string option"
  nd_address :: "string option"
  nd_port :: "int option"
  nd_user_id :: "string option"
  nd_alter_id :: "int option"
  nd_security :: "string option"
  nd_network :: "string option"
  nd_tls :: "string option"
  nd_remark :: "string option"
  nd_tcp :: "string option option"
  nd_ws :: "ws_doc option"
  nd_h2 :: "h2_doc option"
  nd_quic :: "quic_doc option"
  nd_kcp :: "kcp_doc option"
  nd_tlsc :: "tls_doc option"

definition node_to_json :: "bool \<Rightarrow> vm_node \<Rightarrow> node_doc" where
  "node_to_json desensitize n =
     \<lparr>nd_tag = Some (vn_tag n), nd_address = Some (vn_address n), nd_port = Some (uint (vn_port n)),
      nd_user_id = Some (if desensitize then desensitize_uuid (vn_user_id n) else vn_user_id n),
      nd_alter_id = Some (vn_alter_id n), nd_security = Some (vn_security n),
      nd_network = Some (vn_network n), nd_tls = Some (vn_tls n), nd_remark = Some (vn_remark n),
      nd_tcp = Some (Some (tcp_header_type (vn_tcp n))),
      nd_ws = Some \<lparr>wd_path = Some (ws_path (vn_ws n)), wd_host = Some (ws_host (vn_ws n))\<rparr>,
      nd_h2 = Some \<lparr>hd_path = Some (h2_path (vn_h2 n)), hd_host = Some (h2_host (vn_h2 n))\<rparr>,
      nd_quic = Some \<lparr>qd_security = Some (quic_security (vn_quic n)), qd_key = Some (quic_key (vn_quic n)),
                      qd_header_type = Some (quic_header_type (vn_quic n))\<rparr>,
      nd_kcp = Some \<lparr>kd_mtu = Some (kcp_mtu (vn_kcp n)), kd_tti = Some (kcp_tti (vn_kcp n)),
                     kd_uplink = Some (kcp_uplink (vn_kcp n)), kd_downlink = Some (kcp_downlink (vn_kcp n)),
                     kd_congestion = Some (kcp_congestion (vn_kcp n)),
                     kd_header_type = Some (kcp_header_type (vn_kcp n))\<rparr>,
      nd_tlsc = Some \<lparr>td_allow_insecure = Some (tls_allow_insecure (vn_tlsc n)),
                      td_server_name = Some (tls_server_name (vn_tlsc n))\<rparr>\<rparr>"

text \<open>A port outside 16 bits is reduced when it is stored.\<close>

definition json_to_node :: "node_doc \<Rightarrow> vm_node" where
  "json_to_node j = default_node\<lparr>
     vn_tag := member_or '''' (nd_tag j), vn_address := member_or '''' (nd_address j),
     vn_port := word_of_int (member_or 443 (nd_port j)), vn_user_id := member_or '''' (nd_user_id j),
     vn_alter_id := member_or 0 (nd_alter_id j), vn_security := member_or ''auto'' (nd_security j),
     vn_network := member_or ''tcp'' (nd_network j), vn_tls := member_or ''none'' (nd_tls j),
     vn_remark := member_or '''' (nd_remark j),
     vn_tcp := (case nd_tcp j of None \<Rightarrow> vn_tcp default_node
                | Some t \<Rightarrow> \<lparr>tcp_header_type = member_or ''none'' t\<rparr>),
     vn_ws := (case nd_ws j of None \<Rightarrow> vn_ws default_node
               | Some d \<Rightarrow> \<lparr>ws_path = member_or ''/'' (wd_path d), ws_host = member_or '''' (wd_host d)\<rparr>),
     vn_h2 := (case nd_h2 j of None \<Rightarrow> vn_h2 default_node
               | Some d \<Rightarrow> \<lparr>h2_path = member_or ''/'' (hd_path d), h2_host = member_or [] (hd_host d)\<rparr>),
     vn_quic := (case nd_quic j of None \<Rightarrow> vn_quic default_node
                 | Some d \<Rightarrow> \<lparr>quic_security = member_or ''none'' (qd_security d),
                              quic_key = member_or '''' (qd_key d),
                              quic_header_type = member_or ''none'' (qd_header_type d)\<rparr>),
     vn_kcp := (case nd_kcp j of None \<Rightarrow> vn_kcp default_node
                | Some d \<Rightarrow> \<lparr>kcp_mtu = member_or 1350 (kd_mtu d), kcp_tti = member_or 20 (kd_tti d),
                             kcp_uplink = member_or 5 (kd_uplink d), kcp_downlink = member_or 20 (kd_downlink d),
                             kcp_congestion = member_or False (kd_congestion d),
                             kcp_header_type = member_or ''none'' (kd_header_type d)\<rparr>),
     vn_tlsc := (case nd_tlsc j of None \<Rightarrow> vn_tlsc default_node
                 | Some d \<Rightarrow> \<lparr>tls_allow_insecure = member_or False (td_allow_insecure d),
                              tls_server_name = member_or '''' (td_server_name d)\<rparr>)\<rparr>"

lemma json_roundtrip: "json_to_node (node_to_json False n) = n"
  by (simp add: json_to_node_def node_to_json_def default_node_def)

lemma node_to_json_masks:
  "node_to_json True n = node_to_json False (n\<lparr>vn_user_id := desensitize_uuid (vn_user_id n)\<rparr>)"
  by (simp add: node_to_json_def)

section \<open>Validation\<close>

text \<open>The messages, named after what they complain about.\<close>

datatype node_error =
  Tag_empty | Tag_format | Address_empty | Address_format | Port_zero | Uuid_empty | Uuid_format
| Alter_id_v5 | Alter_id_range | Security_invalid | Network_invalid | Tls_invalid | Remark_long
| Tcp_header_invalid | Ws_path_empty | H2_path_empty | Quic_security_invalid
| Kcp_mtu | Kcp_tti | Kcp_uplink | Kcp_downlink

definition is_alpha :: "char \<Rightarrow> bool" where
  "is_alpha c \<longleftrightarrow> (let n = of_char c :: nat in (65 \<le> n \<and> n \<le> 90) \<or> (97 \<le> n \<and> n \<le> 122))"

definition is_alnum :: "char \<Rightarrow> bool" where
  "is_alnum c \<longleftrightarrow> is_alpha c \<or> is_digit c"

definition is_xdigit :: "char \<Rightarrow> bool" where
  "is_xdigit c \<longleftrightarrow> is_digit c \<or>
     (let n = of_char c :: nat in (65 \<le> n \<and> n \<le> 70) \<or> (97 \<le> n \<and> n \<le> 102))"

fun split_on :: "'a \<Rightarrow> 'a list \<Rightarrow> 'a list list" where
  "split_on c [] = [[]]"
| "split_on c (x # xs) =
     (if x = c then [] # split_on c xs
      else case split_on c xs of [] \<Rightarrow> [[x]] | w # ws \<Rightarrow> (x # w) # ws)"

text \<open>The regular expressions of the validator, each as the test of the parts it separates.\<close>

definition validate_tag :: "string \<Rightarrow> node_error option" where
  "validate_tag tag =
     (if tag = '''' then Some Tag_empty
      else if \<forall>c \<in> set tag. is_alnum c \<or> c = CHR ''_'' \<or> c = CHR ''-'' then None else Some Tag_format)"

definition is_ipv4 :: "string \<Rightarrow> bool" where
  "is_ipv4 s \<longleftrightarrow>
     (let ps = split_on CHR ''.'' s
      in length ps = 4 \<and> (\<forall>p \<in> set ps. 1 \<le> length p \<and> length p \<le> 3 \<and> (\<forall>c \<in> set p. is_digit c)))"

definition is_ipv6 :: "string \<Rightarrow> bool" where
  "is_ipv6 s \<longleftrightarrow>
     (let s1 = (if s \<noteq> [] \<and> hd s = CHR ''['' then tl s else s);
          s2 = (if s1 \<noteq> [] \<and> last s1 = CHR '']'' then butlast s1 else s1);
          ps = split_on CHR '':'' s2
      in 3 \<le> length ps \<and> length ps \<le> 8 \<and> (\<forall>p \<in> set ps. length p \<le> 4 \<and> (\<forall>c \<in> set p. is_xdigit c)))"

definition is_label :: "string \<Rightarrow> bool" where
  "is_label p \<longleftrightarrow> p \<noteq> [] \<and> is_alnum (hd p) \<and> is_alnum (last p) \<and> (\<forall>c \<in> set p. is_alnum c \<or> c = CHR ''-'')"

definition is_domain :: "string \<Rightarrow> bool" where
  "is_domain s \<longleftrightarrow>
     (let ps = split_on CHR ''.'' s
      in 2 \<le> length ps \<and> (\<forall>p \<in> set (butlast ps). is_label p)
         \<and> 2 \<le> length (last ps) \<and> (\<forall>c \<in> set (last ps). is_alpha c))"

definition validate_address :: "string \<Rightarrow> node_error option" where
  "validate_address a =
     (if a = '''' then Some Address_empty
      else if \<not> is_ipv4 a \<and> \<not> is_ipv6 a \<and> \<not> is_domain a then Some Address_format else None)"

definition validate_port :: "16 word \<Rightarrow> node_error option" where
  "validate_port p = (if p = 0 then Some Port_zero else None)"

definition is_uuid :: "string \<Rightarrow> bool" where
  "is_uuid s \<longleftrightarrow>
     (let ps = split_on CHR ''-'' s
      in map length ps = [8, 4, 4, 4, 12] \<and> (\<forall>p \<in> set ps. \<forall>c \<in> set p. is_xdigit c))"

definition validate_uuid :: "string \<Rightarrow> node_error option" where
  "validate_uuid s =
     (if s = '''' then Some Uuid_empty else if is_uuid s then None else Some Uuid_format)"

definition validate_alter_id :: "int \<Rightarrow> bool \<Rightarrow> node_error option" where
  "validate_alter_id a v5 =
     (if v5 \<and> a \<noteq> 0 then Some Alter_id_v5
      else if a < 0 \<or> a > 65535 then Some Alter_id_range else None)"

definition validate_security :: "string \<Rightarrow> node_error option" where
  "validate_security s =
     (if s \<noteq> ''auto'' \<and> s \<noteq> ''aes-128-gcm'' \<and> s \<noteq> ''chacha20-poly1305'' \<and> s \<noteq> ''none'' \<and> s \<noteq> ''zero''
      then Some Security_invalid else None)"

definition validate_network :: "string \<Rightarrow> node_error option" where
  "validate_network s =
     (if s \<noteq> ''tcp'' \<and> s \<noteq> ''ws'' \<and> s \<noteq> ''h2'' \<and> s \<noteq> ''quic'' \<and> s \<noteq> ''kcp''
      then Some Network_invalid else None)"

definition validate_tls :: "string \<Rightarrow> node_error option" where
  "validate_tls s = (if s \<noteq> ''none'' \<and> s \<noteq> ''tls'' then Some Tls_invalid else None)"

definition validate_remark :: "string \<Rightarrow> node_error option" where
  "validate_remark s = (if length s > 128 then Some Remark_long else None)"

definition validate_ws_config :: "ws_config \<Rightarrow> node_error option" where
  "validate_ws_config c = (if ws_path c = '''' then Some Ws_path_empty else None)"

definition validate_h2_config :: "h2_config \<Rightarrow> node_error option" where
  "validate_h2_config c = (if h2_path c = '''' then Some H2_path_empty else None)"

definition validate_quic_config :: "quic_config \<Rightarrow> node_error option" where
  "validate_quic_config c =
     (if quic_security c \<noteq> ''none'' \<and> quic_security c \<noteq> ''aes-128-gcm'' \<and> quic_security c \<noteq> ''chacha20-poly1305''
      then Some Quic_security_invalid else None)"

definition validate_kcp_config :: "kcp_config \<Rightarrow> node_error option" where
  "validate_kcp_config c =
     (if kcp_mtu c < 576 \<or> kcp_mtu c > 1500 then Some Kcp_mtu
      else if kcp_tti c < 10 \<or> kcp_tti c > 100 then Some Kcp_tti
      else if kcp_uplink c < 1 \<or> kcp_uplink c > 65535 then Some Kcp_uplink
      else if kcp_downlink c < 1 \<or> kcp_downlink c > 65535 then Some Kcp_downlink
      else None)"

definition validate_tcp_config :: "tcp_config \<Rightarrow> node_error option" where
  "validate_tcp_config c =
     (if tcp_header_type c \<noteq> ''none'' \<and> tcp_header_type c \<noteq> ''http'' then Some Tcp_header_invalid else None)"

definition validate_tls_config :: "tls_config \<Rightarrow> node_error option" where
  "validate_tls_config c = None"

text \<open>The first complaint of a sequence of checks.\<close>

fun first_error :: "'e option list \<Rightarrow> 'e option" where
  "first_error [] = None"
| "first_error (None # es) = first_error es"
| "first_error (Some e # es) = Some e"

definition validate_node :: "vm_node \<Rightarrow> bool \<Rightarrow> node_error option" where
  "validate_node n v5 =
     first_error
       ([validate_tag (vn_tag n), validate_address (vn_address n), validate_port (vn_port n),
         validate_uuid (vn_user_id n), validate_alter_id (vn_alter_id n) v5,
         validate_security (vn_security n), validate_network (vn_network n), validate_tls (vn_tls n),
         validate_remark (vn_remark n)]
        @ (if vn_network n = ''tcp'' then [validate_tcp_config (vn_tcp n)]
           else if vn_network n = ''ws'' then [validate_ws_config (vn_ws n)]
           else if vn_network n = ''h2'' then [validate_h2_config (vn_h2 n)]
           else if vn_network n = ''quic'' then [validate_quic_config (vn_quic n)]
           else if vn_network n = ''kcp'' then [validate_kcp_config (vn_kcp n)] else [])
        @ (if vn_tls n = ''tls'' then [validate_tls_config (vn_tlsc n)] else []))"

lemma first_error_None: "first_error es = None \<longleftrightarrow> set es \<subseteq> {None}"
  by (induction es rule: first_error.induct) auto

lemma valid_fields:
  assumes "validate_node n v5 = None"
  shows "validate_tag (vn_tag n) = None" "validate_address (vn_address n) = None" "vn_port n \<noteq> 0"
    "is_uuid (vn_user_id n)" "v5 \<Longrightarrow> vn_alter_id n = 0" "0 \<le> vn_alter_id n" "vn_alter_id n \<le> 65535"
    "vn_network n \<in> {''tcp'', ''ws'', ''h2'', ''quic'', ''kcp''}" "vn_tls n \<in> {''none'', ''tls''}"
    "vn_tag n \<noteq> ''''"
  using assms
  by (auto simp: validate_node_def first_error_None validate_port_def validate_uuid_def validate_alter_id_def
      validate_network_def validate_tls_def validate_tag_def split: if_splits)

end
