(* ===== verification/Vm_Config.thy ===== *)
theory Vm_Config
  imports Vm_Node
begin

text \<open>
  \<^verbatim>\<open>src/src/v2rayn_manager/vm_config_builder.cpp\<close>, the reading of an outbound in
  \<^verbatim>\<open>vm_node_manager.cpp\<close> and \<^verbatim>\<open>v2rayn_config.cpp\<close>: the configuration file of the upstream proxy that
  is generated from the nodes and read back at the start. What the code does not look at is kept as
  text (\<open>_rest\<close>). The lemmas show that reading inverts writing for every node that validates.
\<close>

section \<open>Documents\<close>

record vmess_user_doc =
  us_id :: "string option"
  us_alter_id :: "int option"
  us_security :: "string option"

record vnext_doc =
  vx_address :: "string option"
  vx_port :: "int option"
  vx_users :: "vmess_user_doc list option"

text \<open>The member \<^verbatim>\<open>type\<close> of a member \<^verbatim>\<open>header\<close> is one option; so is \<^verbatim>\<open>Host\<close> of \<^verbatim>\<open>headers\<close>.\<close>

record ws_settings =
  wss_path :: "string option"
  wss_host :: "string option"

record h2_settings =
  h2s_path :: "string option"
  h2s_host :: "string list option"

record quic_settings =
  qs_security :: "string option"
  qs_key :: "string option"
  qs_header_type :: "string option"

record kcp_settings =
  ks_mtu :: "int option"
  ks_tti :: "int option"
  ks_uplink :: "int option"
  ks_downlink :: "int option"
  ks_congestion :: "bool option"
  ks_header_type :: "string option"

record tls_settings =
  ts_allow_insecure :: "bool option"
  ts_server_name :: "string option"

record stream_doc =
  sd_network :: "string option"
  sd_security :: "string option"
  sd_tcp :: "string option option"
  sd_ws :: "ws_settings option"
  sd_h2 :: "h2_settings option"
  sd_quic :: "quic_settings option"
  sd_kcp :: "kcp_settings option"
  sd_tls :: "tls_settings option"

text \<open>\<open>ob_vnext\<close> is the array \<^verbatim>\<open>vnext\<close> of \<^verbatim>\<open>settings\<close>, where both are there.\<close>

record outbound_doc =
  ob_tag :: "string option"
  ob_protocol :: "string option"
  ob_vnext :: "vnext_doc list option"
  ob_stream :: "stream_doc option"

text \<open>
  A routing rule: an object with the tag it routes to, if it has one, or a value at which reading
  that tag throws (it is no object, or the tag is no string).
\<close>

datatype rule_doc = Rule "string option" string | Odd_rule string

record routing_doc =
  rt_rules :: "rule_doc list option"
  rt_rest :: string

text \<open>The members of the file; \<open>None\<close> also where a member is not the array or object it should be.\<close>

record config_doc =
  cf_inbounds :: "string list option"
  cf_outbounds :: "outbound_doc list option"
  cf_routing :: "routing_doc option"
  cf_log :: "string option"
  cf_rest :: string

definition empty_config :: config_doc where
  "empty_config = \<lparr>cf_inbounds = None, cf_outbounds = None, cf_routing = None, cf_log = None, cf_rest = ''''\<rparr>"

section \<open>Building\<close>

definition build_tcp_settings :: "tcp_config \<Rightarrow> string option" where
  "build_tcp_settings c = Some (tcp_header_type c)"

definition build_ws_settings :: "ws_config \<Rightarrow> ws_settings" where
  "build_ws_settings c =
     \<lparr>wss_path = Some (ws_path c), wss_host = (if ws_host c \<noteq> '''' then Some (ws_host c) else None)\<rparr>"

definition build_h2_settings :: "h2_config \<Rightarrow> h2_settings" where
  "build_h2_settings c =
     \<lparr>h2s_path = Some (h2_path c), h2s_host = (if h2_host c \<noteq> [] then Some (h2_host c) else None)\<rparr>"

definition build_quic_settings :: "quic_config \<Rightarrow> quic_settings" where
  "build_quic_settings c = \<lparr>qs_security = Some (quic_security c), qs_key = Some (quic_key c),
     qs_header_type = Some (quic_header_type c)\<rparr>"

definition build_kcp_settings :: "kcp_config \<Rightarrow> kcp_settings" where
  "build_kcp_settings c = \<lparr>ks_mtu = Some (kcp_mtu c), ks_tti = Some (kcp_tti c),
     ks_uplink = Some (kcp_uplink c), ks_downlink = Some (kcp_downlink c),
     ks_congestion = Some (kcp_congestion c), ks_header_type = Some (kcp_header_type c)\<rparr>"

definition build_tls_settings :: "tls_config \<Rightarrow> tls_settings" where
  "build_tls_settings c = \<lparr>ts_allow_insecure = Some (tls_allow_insecure c),
     ts_server_name = (if tls_server_name c \<noteq> '''' then Some (tls_server_name c) else None)\<rparr>"

definition build_stream_settings :: "vm_node \<Rightarrow> stream_doc" where
  "build_stream_settings n =
     (let net = vn_network n
      in \<lparr>sd_network = Some net, sd_security = Some (if vn_tls n = ''tls'' then ''tls'' else ''none''),
          sd_tcp = (if net = ''tcp'' then Some (build_tcp_settings (vn_tcp n)) else None),
          sd_ws = (if net = ''ws'' then Some (build_ws_settings (vn_ws n)) else None),
          sd_h2 = (if net = ''h2'' then Some (build_h2_settings (vn_h2 n)) else None),
          sd_quic = (if net = ''quic'' then Some (build_quic_settings (vn_quic n)) else None),
          sd_kcp = (if net = ''kcp'' then Some (build_kcp_settings (vn_kcp n)) else None),
          sd_tls = (if vn_tls n = ''tls'' then Some (build_tls_settings (vn_tlsc n)) else None)\<rparr>)"

definition build_vmess_outbound :: "vm_node \<Rightarrow> outbound_doc" where
  "build_vmess_outbound n =
     \<lparr>ob_tag = Some (vn_tag n), ob_protocol = Some ''vmess'',
      ob_vnext = Some [\<lparr>vx_address = Some (vn_address n), vx_port = Some (uint (vn_port n)),
        vx_users = Some [\<lparr>us_id = Some (vn_user_id n), us_alter_id = Some (vn_alter_id n),
                          us_security = Some (vn_security n)\<rparr>]\<rparr>],
      ob_stream = Some (build_stream_settings n)\<rparr>"

definition plain_outbound :: "string \<Rightarrow> string \<Rightarrow> outbound_doc" where
  "plain_outbound protocol tag =
     \<lparr>ob_tag = Some tag, ob_protocol = Some protocol, ob_vnext = None, ob_stream = None\<rparr>"

definition vmess_prefixed :: "string \<Rightarrow> bool" where
  "vmess_prefixed tag \<longleftrightarrow> take 6 tag = ''vmess-''"

text \<open>The rules with the tag of every default rule replaced; \<open>None\<close> where reading one throws.\<close>

fun retag_rules :: "string \<Rightarrow> rule_doc list \<Rightarrow> rule_doc list option" where
  "retag_rules active [] = Some []"
| "retag_rules active (Odd_rule x # rs) = None"
| "retag_rules active (Rule tag x # rs) =
     map_option (\<lambda>rs'. Rule (if vmess_prefixed (member_or '''' tag) then Some active else tag) x # rs')
       (retag_rules active rs)"

fun is_default_rule :: "rule_doc \<Rightarrow> bool" where
  "is_default_rule (Rule tag x) \<longleftrightarrow> vmess_prefixed (member_or '''' tag)"
| "is_default_rule (Odd_rule x) \<longleftrightarrow> False"

text \<open>
  What \<^verbatim>\<open>new_rules.insert(begin, {{..}, {..}, {..}})\<close> inserts: a braced list selects the overload that
  inserts its elements, and an element is a list of two strings, that is an array, not an object.
\<close>

definition inserted_rules :: "string \<Rightarrow> rule_doc list" where
  "inserted_rules active =
     [Odd_rule ''[type,field]'', Odd_rule (''[outboundTag,'' @ active @ '']''), Odd_rule ''[network,tcp+udp]'']"

definition default_inbounds :: "string list" where
  "default_inbounds =
     [''tag=socks-in port=10808 listen=127.0.0.1 protocol=socks settings={auth=noauth udp=true} sniffing={enabled=true destOverride=[http tls]}'',
      ''tag=http-in port=10809 listen=127.0.0.1 protocol=http settings={}'']"

text \<open>
  The existing configuration is \<open>None\<close> where the file is missing or not an object; the result is
  \<open>None\<close> where the function throws.
\<close>

definition build_full_config ::
    "vm_node list \<Rightarrow> config_doc option \<Rightarrow> string \<Rightarrow> config_doc option" where
  "build_full_config nodes existing active_node =
     (let config = (case existing of None \<Rightarrow> empty_config | Some c \<Rightarrow> c);
          outbounds = map build_vmess_outbound nodes
                      @ [plain_outbound ''freedom'' ''direct'', plain_outbound ''blackhole'' ''block''];
          active = (if active_node = '''' \<and> nodes \<noteq> [] then vn_tag (hd nodes) else active_node);
          routing = (case cf_routing config of None \<Rightarrow> \<lparr>rt_rules = None, rt_rest = ''''\<rparr> | Some r \<Rightarrow> r);
          rules = (case rt_rules routing of None \<Rightarrow> [] | Some rs \<Rightarrow> rs);
          routing1 = (if active = '''' then Some routing
                      else map_option (\<lambda>rs. routing\<lparr>rt_rules := Some
                             ((if \<exists>r \<in> set rules. is_default_rule r then [] else inserted_rules active) @ rs)\<rparr>)
                           (retag_rules active rules))
      in map_option (\<lambda>rt. config\<lparr>cf_outbounds := Some outbounds, cf_routing := Some rt,
           cf_inbounds := (case cf_inbounds config of
                             None \<Rightarrow> Some default_inbounds
                           | Some is \<Rightarrow> if is = [] then Some default_inbounds else Some is),
           cf_log := (case cf_log config of None \<Rightarrow> Some ''loglevel=warning'' | Some l \<Rightarrow> Some l)\<rparr>) routing1)"

text \<open>\<^verbatim>\<open>v2rayn_config::validate\<close>.\<close>

definition validate_config :: "config_doc option \<Rightarrow> bool" where
  "validate_config c =
     (case c of None \<Rightarrow> False | Some d \<Rightarrow> cf_inbounds d \<noteq> None \<and> cf_outbounds d \<noteq> None)"

lemma built_config_valid: "build_full_config nodes existing active = Some c \<Longrightarrow> validate_config (Some c)"
  by (auto simp: validate_config_def build_full_config_def Let_def split: option.splits if_splits)

lemma built_outbounds:
  "build_full_config nodes existing active = Some c
   \<Longrightarrow> cf_outbounds c = Some (map build_vmess_outbound nodes
         @ [plain_outbound ''freedom'' ''direct'', plain_outbound ''blackhole'' ''block''])"
  by (auto simp: build_full_config_def Let_def split: if_splits)

text \<open>The rules of a configuration, and those of the one that is built from it.\<close>

definition rules_of :: "config_doc option \<Rightarrow> rule_doc list" where
  "rules_of c = (case c of None \<Rightarrow> [] | Some d \<Rightarrow>
     (case cf_routing d of None \<Rightarrow> [] | Some r \<Rightarrow> (case rt_rules r of None \<Rightarrow> [] | Some rs \<Rightarrow> rs)))"

definition is_rule :: "rule_doc \<Rightarrow> bool" where
  "is_rule r \<longleftrightarrow> (case r of Rule tag x \<Rightarrow> True | Odd_rule x \<Rightarrow> False)"

fun retag :: "string \<Rightarrow> rule_doc \<Rightarrow> rule_doc" where
  "retag active (Rule tag x) = Rule (if vmess_prefixed (member_or '''' tag) then Some active else tag) x"
| "retag active (Odd_rule x) = Odd_rule x"

lemma retag_rules_Some: "list_all is_rule rs \<Longrightarrow> retag_rules active rs = Some (map (retag active) rs)"
  by (induction active rs rule: retag_rules.induct) (auto simp: is_rule_def)

lemma retag_rules_None: "\<not> list_all is_rule rs \<Longrightarrow> retag_rules active rs = None"
  by (induction active rs rule: retag_rules.induct) (auto simp: is_rule_def)

lemma build_throws:
  "active \<noteq> '''' \<Longrightarrow> \<not> list_all is_rule (rules_of existing)
   \<Longrightarrow> build_full_config nodes existing active = None"
  by (auto simp: build_full_config_def rules_of_def Let_def empty_config_def retag_rules_None split: option.splits)

lemma build_retags:
  assumes "active \<noteq> ''''" "list_all is_rule (rules_of existing)"
  obtains c where "build_full_config nodes existing active = Some c"
    "rules_of (Some c) = (if \<exists>r \<in> set (rules_of existing). is_default_rule r then [] else inserted_rules active)
       @ map (retag active) (rules_of existing)"
  using assms
  by (fastforce simp: build_full_config_def rules_of_def Let_def empty_config_def retag_rules_Some split: option.splits)

lemma is_rule_retag [simp]: "is_rule (retag active r) = is_rule r"
  by (cases r) (simp_all add: is_rule_def)

lemma built_rules:
  assumes "build_full_config nodes existing active = Some c" "active \<noteq> ''''"
    "\<exists>r \<in> set (rules_of existing). is_default_rule r"
  shows "rules_of (Some c) = map (retag active) (rules_of existing)"
proof -
  have "list_all is_rule (rules_of existing)"
    using build_throws [OF assms(2)] assms(1) by (metis option.distinct(1))
  from build_retags [OF assms(2) this] obtain c' where "build_full_config nodes existing active = Some c'"
    "rules_of (Some c') = (if \<exists>r \<in> set (rules_of existing). is_default_rule r then [] else inserted_rules active)
       @ map (retag active) (rules_of existing)" by blast
  with assms(1,3) show ?thesis by simp
qed

section \<open>Reading\<close>

definition parse_stream :: "stream_doc \<Rightarrow> vm_node \<Rightarrow> vm_node" where
  "parse_stream ss n =
     (let n1 = n\<lparr>vn_network := member_or ''tcp'' (sd_network ss),
                 vn_tls := (if member_or ''none'' (sd_security ss) = ''tls'' then ''tls'' else ''none'')\<rparr>;
          net = vn_network n1;
          n2 = (if net = ''tcp'' \<and> sd_tcp ss \<noteq> None then
                  (case the (sd_tcp ss) of None \<Rightarrow> n1 | Some t \<Rightarrow> n1\<lparr>vn_tcp := \<lparr>tcp_header_type = t\<rparr>\<rparr>)
                else if net = ''ws'' \<and> sd_ws ss \<noteq> None then
                  (let w = the (sd_ws ss)
                   in n1\<lparr>vn_ws := \<lparr>ws_path = member_or ''/'' (wss_path w),
                                  ws_host = member_or (ws_host (vn_ws n1)) (wss_host w)\<rparr>\<rparr>)
                else if net = ''h2'' \<and> sd_h2 ss \<noteq> None then
                  (let h = the (sd_h2 ss)
                   in n1\<lparr>vn_h2 := \<lparr>h2_path = member_or ''/'' (h2s_path h),
                                  h2_host = h2_host (vn_h2 n1) @ member_or [] (h2s_host h)\<rparr>\<rparr>)
                else if net = ''quic'' \<and> sd_quic ss \<noteq> None then
                  (let q = the (sd_quic ss)
                   in n1\<lparr>vn_quic := \<lparr>quic_security = member_or ''none'' (qs_security q),
                                    quic_key = member_or '''' (qs_key q),
                                    quic_header_type = member_or (quic_header_type (vn_quic n1)) (qs_header_type q)\<rparr>\<rparr>)
                else if net = ''kcp'' \<and> sd_kcp ss \<noteq> None then
                  (let k = the (sd_kcp ss)
                   in n1\<lparr>vn_kcp := \<lparr>kcp_mtu = member_or 1350 (ks_mtu k), kcp_tti = member_or 20 (ks_tti k),
                                   kcp_uplink = member_or 5 (ks_uplink k),
                                   kcp_downlink = member_or 20 (ks_downlink k),
                                   kcp_congestion = member_or False (ks_congestion k),
                                   kcp_header_type = member_or (kcp_header_type (vn_kcp n1)) (ks_header_type k)\<rparr>\<rparr>)
                else n1)
      in if vn_tls n2 = ''tls'' \<and> sd_tls ss \<noteq> None then
           (let t = the (sd_tls ss)
            in n2\<lparr>vn_tlsc := \<lparr>tls_allow_insecure = member_or False (ts_allow_insecure t),
                             tls_server_name = member_or '''' (ts_server_name t)\<rparr>\<rparr>)
         else n2)"

definition parse_outbound :: "outbound_doc \<Rightarrow> vm_node option" where
  "parse_outbound ob =
     (let n = default_node\<lparr>vn_tag := member_or '''' (ob_tag ob)\<rparr>
      in if vn_tag n = '''' then None
         else
           case ob_vnext ob of
             None \<Rightarrow> None
           | Some [] \<Rightarrow> None
           | Some (vx # _) \<Rightarrow>
               let n1 = n\<lparr>vn_address := member_or '''' (vx_address vx),
                          vn_port := word_of_int (member_or 443 (vx_port vx))\<rparr>;
                   n2 = (case vx_users vx of
                           None \<Rightarrow> n1
                         | Some [] \<Rightarrow> n1
                         | Some (us # _) \<Rightarrow>
                             n1\<lparr>vn_user_id := member_or '''' (us_id us),
                                vn_alter_id := member_or 0 (us_alter_id us),
                                vn_security := member_or ''auto'' (us_security us)\<rparr>)
               in Some (case ob_stream ob of None \<Rightarrow> n2 | Some ss \<Rightarrow> parse_stream ss n2))"

text \<open>
  What the configuration keeps of a node: the remark is stored elsewhere, and the settings of the
  transports and of the encryption that are not in use are not stored.
\<close>

definition stored_part :: "vm_node \<Rightarrow> vm_node" where
  "stored_part n = default_node\<lparr>
     vn_tag := vn_tag n, vn_address := vn_address n, vn_port := vn_port n, vn_user_id := vn_user_id n,
     vn_alter_id := vn_alter_id n, vn_security := vn_security n, vn_network := vn_network n,
     vn_tls := vn_tls n,
     vn_tcp := (if vn_network n = ''tcp'' then vn_tcp n else vn_tcp default_node),
     vn_ws := (if vn_network n = ''ws'' then vn_ws n else vn_ws default_node),
     vn_h2 := (if vn_network n = ''h2'' then vn_h2 n else vn_h2 default_node),
     vn_quic := (if vn_network n = ''quic'' then vn_quic n else vn_quic default_node),
     vn_kcp := (if vn_network n = ''kcp'' then vn_kcp n else vn_kcp default_node),
     vn_tlsc := (if vn_tls n = ''tls'' then vn_tlsc n else vn_tlsc default_node)\<rparr>"


lemma parse_build_outbound:
  assumes "vn_tag n \<noteq> ''''" "vn_network n \<in> {''tcp'', ''ws'', ''h2'', ''quic'', ''kcp''}"
    and "vn_tls n \<in> {''none'', ''tls''}"
  shows "parse_outbound (build_vmess_outbound n) = Some (stored_part n)"
proof -
  let ?base = "default_node\<lparr>vn_tag := vn_tag n, vn_address := vn_address n, vn_port := vn_port n,
    vn_user_id := vn_user_id n, vn_alter_id := vn_alter_id n, vn_security := vn_security n\<rparr>"
  have base: "parse_outbound (build_vmess_outbound n) = Some (parse_stream (build_stream_settings n) ?base)"
    using assms(1) by (simp add: parse_outbound_def build_vmess_outbound_def Let_def)
  have tls: "vn_tls n = ''tls'' \<or> vn_tls n = ''none''" using assms(3) by auto
  have def: "ws_host (vn_ws default_node) = ''''" "h2_host (vn_h2 default_node) = []"
    by (simp_all add: default_node_def)
  from assms(2) consider "vn_network n = ''tcp''" | "vn_network n = ''ws''" | "vn_network n = ''h2''"
    | "vn_network n = ''quic''" | "vn_network n = ''kcp''" by auto
  then have "parse_stream (build_stream_settings n) ?base = stored_part n"
  proof cases
    case 1
    with tls show ?thesis
      by (auto simp: parse_stream_def build_stream_settings_def stored_part_def build_tcp_settings_def
          build_tls_settings_def Let_def)
  next
    case 2
    with tls def show ?thesis
      by (auto simp: parse_stream_def build_stream_settings_def stored_part_def build_ws_settings_def
          build_tls_settings_def Let_def)
  next
    case 3
    with tls def show ?thesis
      by (auto simp: parse_stream_def build_stream_settings_def stored_part_def build_h2_settings_def
          build_tls_settings_def Let_def)
  next
    case 4
    with tls show ?thesis
      by (auto simp: parse_stream_def build_stream_settings_def stored_part_def build_quic_settings_def
          build_tls_settings_def Let_def)
  next
    case 5
    with tls show ?thesis
      by (auto simp: parse_stream_def build_stream_settings_def stored_part_def build_kcp_settings_def
          build_tls_settings_def Let_def)
  qed
  with base show ?thesis by simp
qed

end
