(* ===== verification/Vm_Link_Codec.thy ===== *)
theory Vm_Link_Codec
  imports Vm_Node
begin

text \<open>
  \<^verbatim>\<open>src/src/v2rayn_manager/vm_link_codec.cpp\<close>: the \<^verbatim>\<open>vmess://\<close> links nodes are imported from and exported
  to, a JSON object in base64. The block coder of OpenSSL and the JSON text are parameters
  (\<open>link_lib\<close>). The lemmas show that importing an exported link gives the node back, but for what a
  link does not carry.
\<close>

section \<open>Documents and libraries\<close>

text \<open>A port or an alter id comes as a number (its fraction dropped), as text, or as something else.\<close>

datatype number_member = Num int | Text string | Other_value

record link_doc =
  ld_ps :: "string option"
  ld_add :: "string option"
  ld_port :: "number_member option"
  ld_id :: "string option"
  ld_aid :: "number_member option"
  ld_scy :: "string option"
  ld_net :: "string option"
  ld_tls :: "string option"
  ld_type :: "string option"
  ld_host :: "string option"
  ld_path :: "string option"
  ld_sni :: "string option"

text \<open>
  The text of a link is no JSON, a document at which \<^verbatim>\<open>value\<close> throws (no object, or a member of the
  wrong type), or one of the members above.
\<close>

datatype link_text = Bad_json | Bad_member | Link link_doc

text \<open>\<^verbatim>\<open>EVP_EncodeBlock\<close>, \<^verbatim>\<open>EVP_DecodeBlock\<close> (\<open>None\<close> where it returns a negative number), \<^verbatim>\<open>dump\<close>, \<^verbatim>\<open>parse\<close>.\<close>

record link_lib =
  ll_encode :: "string \<Rightarrow> string"
  ll_decode :: "string \<Rightarrow> string option"
  ll_dump :: "link_doc \<Rightarrow> string"
  ll_parse :: "string \<Rightarrow> link_text"

section \<open>Base64\<close>

definition pop_back :: "char \<Rightarrow> string \<Rightarrow> string" where
  "pop_back c s = rev (dropWhile (\<lambda>x. x = c) (rev s))"

definition NUL :: char where
  "NUL = CHR 0x00"

definition link_base64_encode :: "link_lib \<Rightarrow> string \<Rightarrow> string" where
  "link_base64_encode lib input = pop_back CHR ''='' (pop_back NUL (ll_encode lib input))"

definition pad4 :: "string \<Rightarrow> string" where
  "pad4 s = s @ replicate ((4 - length s mod 4) mod 4) CHR ''=''"

definition link_base64_decode :: "link_lib \<Rightarrow> string \<Rightarrow> string" where
  "link_base64_decode lib input =
     (case ll_decode lib (pad4 input) of None \<Rightarrow> '''' | Some out \<Rightarrow> pop_back NUL out)"

definition base64_urlsafe_decode :: "link_lib \<Rightarrow> string \<Rightarrow> string" where
  "base64_urlsafe_decode lib input =
     link_base64_decode lib
       (map (\<lambda>c. if c = CHR ''-'' then CHR ''+'' else if c = CHR ''_'' then CHR ''/'' else c) input)"

section \<open>Importing\<close>

text \<open>The comma-separated hosts: the loop over \<^verbatim>\<open>find\<close>, with the rest of the text as its state.\<close>

function split_hosts :: "string \<Rightarrow> string list" where
  "split_hosts h =
     (case index_of CHR '','' h of None \<Rightarrow> [h] | Some i \<Rightarrow> take i h # split_hosts (drop (Suc i) h))"
  by auto
termination by (relation "measure length") (auto simp: index_of_Some)

declare split_hosts.simps [simp del]

definition read_port :: "number_member option \<Rightarrow> 16 word" where
  "read_port m =
     (case m of
        Some (Num i) \<Rightarrow> word_of_int i
      | Some (Text t) \<Rightarrow> (case stoi t of None \<Rightarrow> 443 | Some i \<Rightarrow> word_of_int i)
      | _ \<Rightarrow> 443)"

definition read_alter_id :: "number_member option \<Rightarrow> int" where
  "read_alter_id m =
     (case m of
        Some (Num i) \<Rightarrow> to_int32 i
      | Some (Text t) \<Rightarrow> (case stoi t of None \<Rightarrow> 0 | Some i \<Rightarrow> i)
      | _ \<Rightarrow> 0)"

definition node_of_link :: "link_doc \<Rightarrow> vm_node" where
  "node_of_link j =
     (let tls0 = member_or '''' (ld_tls j);
          n = default_node\<lparr>vn_remark := member_or '''' (ld_ps j), vn_address := member_or '''' (ld_add j),
                vn_user_id := member_or '''' (ld_id j), vn_security := member_or ''auto'' (ld_scy j),
                vn_network := member_or ''tcp'' (ld_net j),
                vn_tls := (if tls0 = '''' \<or> tls0 = ''none'' then ''none'' else tls0),
                vn_port := read_port (ld_port j), vn_alter_id := read_alter_id (ld_aid j)\<rparr>;
          header_type = member_or ''none'' (ld_type j);
          host = member_or '''' (ld_host j);
          path = member_or '''' (ld_path j);
          sni = member_or '''' (ld_sni j);
          n1 = (if vn_network n = ''tcp'' then n\<lparr>vn_tcp := \<lparr>tcp_header_type = header_type\<rparr>\<rparr>
                else if vn_network n = ''ws'' then
                  n\<lparr>vn_ws := \<lparr>ws_path = (if path = '''' then ''/'' else path), ws_host = host\<rparr>\<rparr>
                else if vn_network n = ''h2'' then
                  n\<lparr>vn_h2 := \<lparr>h2_path = (if path = '''' then ''/'' else path),
                             h2_host = (if host \<noteq> '''' then split_hosts host else [])\<rparr>\<rparr>
                else if vn_network n = ''quic'' then
                  n\<lparr>vn_quic := \<lparr>quic_security = (if host = '''' then ''none'' else host), quic_key = path,
                               quic_header_type = header_type\<rparr>\<rparr>
                else if vn_network n = ''kcp'' then
                  n\<lparr>vn_kcp := (vn_kcp n)\<lparr>kcp_header_type := header_type\<rparr>\<rparr>
                else n)
      in if vn_tls n1 = ''tls'' \<and> sni \<noteq> '''' then
           n1\<lparr>vn_tlsc := (vn_tlsc n1)\<lparr>tls_server_name := sni\<rparr>\<rparr>
         else n1)"

datatype link_error = No_prefix | Not_base64 | Not_json | Throws

definition decode_link :: "link_lib \<Rightarrow> string \<Rightarrow> link_error + vm_node" where
  "decode_link lib link =
     (if take 8 link \<noteq> ''vmess://'' then Inl No_prefix
      else
        let b64_part = drop 8 link;
            s0 = base64_urlsafe_decode lib b64_part;
            s = (if s0 = '''' then link_base64_decode lib b64_part else s0)
        in if s = '''' then Inl Not_base64
           else case ll_parse lib s of
                  Bad_json \<Rightarrow> Inl Not_json
                | Bad_member \<Rightarrow> Inl Throws
                | Link j \<Rightarrow> Inr (node_of_link j))"

section \<open>Exporting\<close>

fun join_hosts :: "string list \<Rightarrow> string" where
  "join_hosts [] = ''''"
| "join_hosts [h] = h"
| "join_hosts (h # hs) = h @ '','' @ join_hosts hs"

definition link_of_node :: "vm_node \<Rightarrow> link_doc" where
  "link_of_node n =
     (let net = vn_network n;
          (ty, ho, pa) =
            (if net = ''tcp'' then (Some (tcp_header_type (vn_tcp n)), Some '''', Some '''')
             else if net = ''ws'' then (Some ''none'', Some (ws_host (vn_ws n)), Some (ws_path (vn_ws n)))
             else if net = ''h2'' then (Some ''none'', Some (join_hosts (h2_host (vn_h2 n))), Some (h2_path (vn_h2 n)))
             else if net = ''quic'' then
               (Some (quic_header_type (vn_quic n)), Some (quic_security (vn_quic n)), Some (quic_key (vn_quic n)))
             else if net = ''kcp'' then (Some (kcp_header_type (vn_kcp n)), Some '''', Some '''')
             else (None, None, None))
      in \<lparr>ld_ps = Some (vn_remark n), ld_add = Some (vn_address n),
          ld_port = Some (Text (to_string (uint (vn_port n)))), ld_id = Some (vn_user_id n),
          ld_aid = Some (Text (to_string (vn_alter_id n))), ld_scy = Some (vn_security n),
          ld_net = Some net, ld_tls = Some (if vn_tls n = ''tls'' then ''tls'' else ''''),
          ld_type = ty, ld_host = ho, ld_path = pa,
          ld_sni = Some (if vn_tls n = ''tls'' then tls_server_name (vn_tlsc n) else '''')\<rparr>)"

definition encode_link :: "link_lib \<Rightarrow> vm_node \<Rightarrow> string" where
  "encode_link lib n = ''vmess://'' @ link_base64_encode lib (ll_dump lib (link_of_node n))"

section \<open>The block coder\<close>

text \<open>
  What is documented of the two functions, for one text: the code is made of characters of the
  alphabet and up to two padding characters, its length is a multiple of four, and decoding it gives
  the text with a zero byte for each padding character.
\<close>

definition block_coded :: "link_lib \<Rightarrow> string \<Rightarrow> bool" where
  "block_coded lib s \<longleftrightarrow>
     (\<exists>body p. ll_encode lib s = body @ replicate p CHR ''='' \<and> p \<le> 2 \<and> set body \<subseteq> set base64_table
        \<and> (length body + p) mod 4 = 0 \<and> ll_decode lib (body @ replicate p CHR ''='') = Some (s @ replicate p NUL))"

lemma pop_back_snoc: "pop_back c (s @ replicate n c) = pop_back c s"
proof -
  have "dropWhile (\<lambda>x. x = c) (replicate n c @ xs) = dropWhile (\<lambda>x. x = c) xs" for xs
    by (induction n) simp_all
  then show ?thesis by (simp add: pop_back_def)
qed

lemma pop_back_id: "s = '''' \<or> last s \<noteq> c \<Longrightarrow> pop_back c s = s"
  by (cases s rule: rev_cases) (simp_all add: pop_back_def)

lemma table_chars: "c \<in> set base64_table \<Longrightarrow> c \<noteq> CHR ''='' \<and> c \<noteq> NUL \<and> c \<noteq> CHR ''-'' \<and> c \<noteq> CHR ''_''"
  by (auto simp: base64_table_def NUL_def)

lemma pad4_replicate: "p \<le> 2 \<Longrightarrow> (length body + p) mod 4 = 0 \<Longrightarrow> pad4 body = body @ replicate p CHR ''=''"
proof -
  assume "p \<le> 2" "(length body + p) mod 4 = 0"
  then have sum: "(length body mod 4 + p) mod 4 = 0" by (simp add: mod_add_left_eq)
  have "length body mod 4 < 4" by simp
  then have "length body mod 4 \<in> {0, 1, 2, 3}" by force
  moreover have "p \<in> {0, 1, 2}" using \<open>p \<le> 2\<close> by force
  ultimately have "(4 - length body mod 4) mod 4 = p" using sum by (auto simp: dvd_def) presburger+
  then show ?thesis by (simp add: pad4_def)
qed

lemma decode_encode_block:
  assumes "block_coded lib s" "s \<noteq> ''''" "last s \<noteq> NUL"
  shows "base64_urlsafe_decode lib (link_base64_encode lib s) = s"
proof -
  from assms(1) obtain body p where body: "ll_encode lib s = body @ replicate p CHR ''=''" "p \<le> 2"
      "set body \<subseteq> set base64_table" "(length body + p) mod 4 = 0"
      "ll_decode lib (body @ replicate p CHR ''='') = Some (s @ replicate p NUL)"
    by (auto simp: block_coded_def)
  have last: "body = '''' \<or> last body \<noteq> CHR ''=''" "body @ replicate p CHR ''='' = '''' \<or> last (body @ replicate p CHR ''='') \<noteq> NUL"
    using body(3) table_chars by (auto simp: NUL_def last_append) (metis last_in_set subsetD table_chars NUL_def)+
  have enc: "link_base64_encode lib s = body"
    by (simp only: link_base64_encode_def body(1) pop_back_id [OF last(2)] pop_back_snoc pop_back_id [OF last(1)])
  have "map (\<lambda>c. if c = CHR ''-'' then CHR ''+'' else if c = CHR ''_'' then CHR ''/'' else c) body = body"
    using body(3) table_chars by (intro map_idI) auto
  then show ?thesis
    using assms(2,3)
    by (simp add: base64_urlsafe_decode_def link_base64_decode_def enc pad4_replicate [OF body(2,4)] body(5)
        pop_back_snoc pop_back_id)
qed

section \<open>Members\<close>

lemma split_join: "hs \<noteq> [] \<Longrightarrow> \<forall>h \<in> set hs. CHR '','' \<notin> set h \<Longrightarrow> split_hosts (join_hosts hs) = hs"
proof (induction hs rule: join_hosts.induct)
  case (2 h)
  then have "index_of CHR '','' h = None" by (simp add: index_of_None)
  then show ?case by (simp add: split_hosts.simps [of h])
next
  case (3 h h' hs)
  have "index_of CHR '','' (h @ CHR '','' # join_hosts (h' # hs)) = Some (length h)"
    using 3 by (intro index_of_append) simp
  with 3 show ?case by (simp add: split_hosts.simps [of "h @ _"])
qed simp

lemma join_empty: "join_hosts hs = '''' \<longleftrightarrow> hs = [] \<or> hs = ['''']"
  by (induction hs rule: join_hosts.induct) auto

lemma read_port_written: "read_port (Some (Text (to_string (uint p)))) = p"
proof -
  have "uint p < 65536" "0 \<le> uint p" using uint_lt2p [of p] by simp_all
  then have "stoi (to_string (uint p)) = Some (uint p)" by (intro stoi_to_string) linarith+
  then show ?thesis by (simp add: read_port_def)
qed

lemma read_alter_id_written:
  "0 \<le> a \<Longrightarrow> a \<le> 65535 \<Longrightarrow> read_alter_id (Some (Text (to_string a))) = a"
  by (simp add: read_alter_id_def stoi_to_string)

text \<open>What a link carries of a node: no tag, and of the settings only those it has a member for.\<close>

definition linked_part :: "vm_node \<Rightarrow> vm_node" where
  "linked_part n = default_node\<lparr>
     vn_address := vn_address n, vn_port := vn_port n, vn_user_id := vn_user_id n,
     vn_alter_id := vn_alter_id n, vn_security := vn_security n, vn_network := vn_network n,
     vn_tls := vn_tls n, vn_remark := vn_remark n,
     vn_tcp := (if vn_network n = ''tcp'' then vn_tcp n else vn_tcp default_node),
     vn_ws := (if vn_network n = ''ws'' then vn_ws n else vn_ws default_node),
     vn_h2 := (if vn_network n = ''h2'' then vn_h2 n else vn_h2 default_node),
     vn_quic := (if vn_network n = ''quic'' then vn_quic n else vn_quic default_node),
     vn_kcp := (if vn_network n = ''kcp''
                then (vn_kcp default_node)\<lparr>kcp_header_type := kcp_header_type (vn_kcp n)\<rparr>
                else vn_kcp default_node),
     vn_tlsc := (if vn_tls n = ''tls''
                 then (vn_tlsc default_node)\<lparr>tls_server_name := tls_server_name (vn_tlsc n)\<rparr>
                 else vn_tlsc default_node)\<rparr>"

definition hosts_listable :: "vm_node \<Rightarrow> bool" where
  "hosts_listable n \<longleftrightarrow>
     vn_network n = ''h2'' \<longrightarrow> (\<forall>h \<in> set (h2_host (vn_h2 n)). h \<noteq> '''' \<and> CHR '','' \<notin> set h)"

lemma transport_settings:
  assumes "validate_node n v5 = None"
  shows "vn_network n = ''ws'' \<Longrightarrow> ws_path (vn_ws n) \<noteq> ''''"
    "vn_network n = ''h2'' \<Longrightarrow> h2_path (vn_h2 n) \<noteq> ''''"
    "vn_network n = ''quic'' \<Longrightarrow> quic_security (vn_quic n) \<noteq> ''''"
  using assms
  by (auto simp: validate_node_def first_error_None validate_ws_config_def validate_h2_config_def
      validate_quic_config_def split: if_splits)

lemma hosts_written:
  "hosts_listable n \<Longrightarrow> vn_network n = ''h2''
   \<Longrightarrow> (if join_hosts (h2_host (vn_h2 n)) \<noteq> '''' then split_hosts (join_hosts (h2_host (vn_h2 n))) else [])
     = h2_host (vn_h2 n)"
  using split_join [of "h2_host (vn_h2 n)"] by (auto simp: hosts_listable_def join_empty)

lemma node_of_link_of_node:
  assumes "validate_node n v5 = None" "hosts_listable n"
  shows "node_of_link (link_of_node n) = linked_part n"
proof -
  note fields = valid_fields [OF assms(1)] and transport = transport_settings [OF assms(1)]
  have num: "read_port (Some (Text (to_string (uint (vn_port n))))) = vn_port n"
    "read_alter_id (Some (Text (to_string (vn_alter_id n)))) = vn_alter_id n"
    using fields(6,7) by (simp_all add: read_port_written read_alter_id_written)
  have sni: "tls_server_name (vn_tlsc default_node) = ''''" by (simp add: default_node_def)
  note link_simps = node_of_link_def link_of_node_def linked_part_def Let_def num sni
  from fields(9) have tls: "vn_tls n = ''none'' \<or> vn_tls n = ''tls''" by auto
  from fields(8) consider "vn_network n = ''tcp''" | "vn_network n = ''ws''" | "vn_network n = ''h2''"
    | "vn_network n = ''quic''" | "vn_network n = ''kcp''" by auto
  then show ?thesis
  proof cases
    case 1
    with tls show ?thesis by (auto simp: link_simps)
  next
    case 2
    with tls transport(1) show ?thesis by (auto simp: link_simps)
  next
    case 3
    with tls transport(2) hosts_written [OF assms(2)] show ?thesis by (auto simp: link_simps)
  next
    case 4
    with tls transport(3) show ?thesis by (auto simp: link_simps)
  next
    case 5
    with tls show ?thesis by (auto simp: link_simps)
  qed
qed

lemma decoded_node:
  "decode_link lib link = Inr n \<Longrightarrow> take 8 link = ''vmess://'' \<and> (\<exists>j. n = node_of_link j)"
  by (auto simp: decode_link_def Let_def split: if_splits link_text.splits)

lemma node_of_link_untagged: "vn_tag (node_of_link j) = ''''"
  by (simp add: node_of_link_def Let_def default_node_def)

section \<open>A concrete library\<close>

lemma length_sextets_mod: "(length (sextets s) + (3 - length s mod 3) mod 3) mod 4 = 0"
proof (induction s rule: sextets.induct)
  case (4 a b c s)
  have "Suc (Suc (Suc (length s))) mod 3 = length s mod 3" by presburger
  with 4 show ?case by simp
qed simp_all

definition sample_encode :: "string \<Rightarrow> string" where
  "sample_encode s = base64_encode s @ replicate ((3 - length s mod 3) mod 3) CHR ''=''"

definition sample_decode :: "string \<Rightarrow> string option" where
  "sample_decode t = Some (basic_decode (takeWhile (\<lambda>c. c \<noteq> CHR ''='') t)
                           @ replicate (length (dropWhile (\<lambda>c. c \<noteq> CHR ''='') t)) NUL)"

definition sample_link_lib :: "link_doc \<Rightarrow> link_lib" where
  "sample_link_lib d = \<lparr>ll_encode = sample_encode, ll_decode = sample_decode, ll_dump = (\<lambda>j. ''{...}''),
     ll_parse = (\<lambda>t. Link d)\<rparr>"

lemma base64_chars: "set (base64_encode s) \<subseteq> set base64_table"
proof
  fix c assume "c \<in> set (base64_encode s)"
  then obtain i where "i \<in> set (sextets s)" "c = b64_char i" by (auto simp: base64_encode_eq)
  then show "c \<in> set base64_table"
    using sextets_range [of s] table_facts(1) by (auto simp: b64_char_def)
qed

lemma sample_block_coded: "block_coded (sample_link_lib d) s"
proof -
  let ?p = "(3 - length s mod 3) mod 3"
  have nopad: "\<forall>c \<in> set (base64_encode s). c \<noteq> CHR ''=''" using base64_chars table_chars by blast
  have tw: "takeWhile (\<lambda>c. c \<noteq> CHR ''='') (base64_encode s @ replicate ?p CHR ''='') = base64_encode s"
    "dropWhile (\<lambda>c. c \<noteq> CHR ''='') (base64_encode s @ replicate ?p CHR ''='') = replicate ?p CHR ''=''"
    using nopad by (subst takeWhile_append2 dropWhile_append2; auto simp: takeWhile_replicate dropWhile_replicate)+
  have "?p < 3" by simp
  then have "?p \<le> 2" by linarith
  moreover have "(length (base64_encode s) + ?p) mod 4 = 0"
    using length_sextets_mod [of s] by (simp add: base64_encode_eq)
  moreover have "sample_decode (base64_encode s @ replicate ?p CHR ''='') = Some (s @ replicate ?p NUL)"
    by (simp only: sample_decode_def tw decode_encode(2) length_replicate)
  ultimately show ?thesis
    unfolding block_coded_def
    by (intro exI [of _ "base64_encode s"] exI [of _ ?p]) (simp add: sample_link_lib_def sample_encode_def base64_chars)
qed

section \<open>Properties\<close>

text \<open>
  C20: A node that is exported as a link and imported again comes back with its address, port, user id,
  alter id, security, network, encryption and remark, and with the settings of the transport it uses and
  its server name if it uses TLS: for every valid node, with the one condition that the host names of the
  h2 transport, if it is in use, are not empty and have no comma (the link joins them with commas), and
  whatever the block coder and the JSON library as they are documented. What a link does not carry comes
  back as the default: the tag, the settings of the transports that are not in use, all of kcp but the
  header type, the permission of insecure certificates, and the server name where TLS is off.
\<close>

theorem link_roundtrip:
  assumes "validate_node n v5 = None" "hosts_listable n"
    and "ll_parse lib (ll_dump lib (link_of_node n)) = Link (link_of_node n)"
    and "ll_dump lib (link_of_node n) = t @ ''}''"
    and "block_coded lib (ll_dump lib (link_of_node n))"
  shows "decode_link lib (encode_link lib n) = Inr (linked_part n)"
proof -
  have "base64_urlsafe_decode lib (link_base64_encode lib (ll_dump lib (link_of_node n))) = ll_dump lib (link_of_node n)"
    using assms(4,5) by (intro decode_encode_block) (simp_all add: NUL_def)
  then show ?thesis
    using assms(3,4) node_of_link_of_node [OF assms(1,2)] by (simp add: decode_link_def encode_link_def)
qed

definition sample_node :: vm_node where
  "sample_node = default_node\<lparr>vn_tag := ''vmess-1'', vn_address := ''10.0.0.1'', vn_port := 8443,
     vn_user_id := ''01234567-89ab-cdef-0123-456789abcdef'', vn_network := ''h2'', vn_tls := ''tls'',
     vn_remark := ''Tokyo'', vn_h2 := \<lparr>h2_path = ''/p'', h2_host = [''a.org'', ''b.org'']\<rparr>,
     vn_tlsc := \<lparr>tls_allow_insecure = False, tls_server_name = ''a.org''\<rparr>\<rparr>"

lemma sample_node_valid: "validate_node sample_node True = None"
  by code_simp

theorem link_roundtrip_witness:
  "decode_link (sample_link_lib (link_of_node sample_node))
     (encode_link (sample_link_lib (link_of_node sample_node)) sample_node) = Inr (linked_part sample_node)"
  by (rule link_roundtrip [OF sample_node_valid _ _ _ sample_block_coded, where t = "''{...''"])
    (simp_all add: sample_link_lib_def hosts_listable_def sample_node_def)

end
