(* ===== verification/Vm_Node_Manager.thy ===== *)
theory Vm_Node_Manager
  imports Vm_Config Vm_Link_Codec Node_Health Load_Balancer V2rayn_Process
begin

text \<open>
  \<^verbatim>\<open>src/src/v2rayn_manager/vm_node_manager.cpp\<close>: the table of upstream nodes, kept in memory and in the
  configuration file of the upstream proxy, with the remarks in a file of their own. Every operation
  is one step on the table, the files and the components it calls. The lemmas show that the table
  stays well formed, that what is saved is what is loaded, and where the two part.
\<close>

section \<open>State\<close>

text \<open>
  \<open>vm_config_file\<close> and \<open>vm_remarks_file\<close> are the two files as they parse, \<open>None\<close> where they are missing,
  cannot be read or hold no object; \<open>vm_active\<close> is the tag of the active node.
\<close>

record vm_system =
  vm_nodes :: "vm_node list"
  vm_active :: string
  vm_config_file :: "config_doc option"
  vm_remarks_file :: "(string \<rightharpoonup> string) option"
  vm_health :: node_health_checker
  vm_balancer :: load_balancer
  vm_process :: v2rayn_process

text \<open>What the environment answers: whether the files can be written, the probe, the child process.\<close>

record vm_env =
  ve_config_writable :: bool
  ve_remarks_writable :: bool
  ve_connect :: "string \<Rightarrow> int \<Rightarrow> bool \<times> int"
  ve_now :: time_point
  ve_gone_at :: "nat option"
  ve_forked :: int

datatype vm_error =
  Invalid node_error | Tag_exists | No_such_node | Last_node | Config_invalid | Config_unwritten
| Bad_link link_error

text \<open>\<open>Threw\<close>: an exception leaves the operation.\<close>

datatype vm_result = Done | Refused vm_error | Threw

section \<open>The files\<close>

definition remarks_of :: "vm_node list \<Rightarrow> string \<rightharpoonup> string" where
  "remarks_of ns = fold (\<lambda>n m. if vn_remark n \<noteq> '''' then m(vn_tag n \<mapsto> vn_remark n) else m) ns Map.empty"

definition save_to_config :: "vm_env \<Rightarrow> vm_system \<Rightarrow> vm_result \<times> vm_system" where
  "save_to_config env s =
     (case build_full_config (vm_nodes s) (vm_config_file s) (vm_active s) of
        None \<Rightarrow> (Threw, s)
      | Some config \<Rightarrow>
          if \<not> validate_config (Some config) then (Refused Config_invalid, s)
          else if \<not> ve_config_writable env then (Refused Config_unwritten, s)
          else (Done, s\<lparr>vm_config_file := Some config,
                  vm_remarks_file := (if ve_remarks_writable env then Some (remarks_of (vm_nodes s))
                                      else vm_remarks_file s)\<rparr>))"

text \<open>The nodes of the vmess outbounds that parse, with their remarks.\<close>

definition loaded_nodes :: "outbound_doc list \<Rightarrow> vm_node list" where
  "loaded_nodes obs =
     List.map_filter parse_outbound (filter (\<lambda>ob. member_or '''' (ob_protocol ob) = ''vmess'') obs)"

definition with_remark :: "(string \<rightharpoonup> string) option \<Rightarrow> vm_node \<Rightarrow> vm_node" where
  "with_remark remarks n =
     (case remarks of
        None \<Rightarrow> n
      | Some m \<Rightarrow> (case m (vn_tag n) of None \<Rightarrow> n | Some r \<Rightarrow> n\<lparr>vn_remark := r\<rparr>))"

text \<open>The tag of the first default rule, else the one that was set; \<open>None\<close> where reading a rule throws.\<close>

fun active_of_rules :: "rule_doc list \<Rightarrow> string \<Rightarrow> string option" where
  "active_of_rules [] active = Some active"
| "active_of_rules (Odd_rule x # rs) active = None"
| "active_of_rules (Rule tag x # rs) active =
     (if vmess_prefixed (member_or '''' tag) then Some (member_or '''' tag) else active_of_rules rs active)"

definition load_from_config :: "vm_system \<Rightarrow> vm_result \<times> vm_system" where
  "load_from_config s =
     (case vm_config_file s of
        None \<Rightarrow> (Done, s\<lparr>vm_nodes := []\<rparr>)
      | Some config \<Rightarrow>
          let nodes = map (with_remark (vm_remarks_file s))
                        (case cf_outbounds config of None \<Rightarrow> [] | Some obs \<Rightarrow> loaded_nodes obs);
              s1 = s\<lparr>vm_nodes := nodes\<rparr>
          in case (case cf_routing config of
                     None \<Rightarrow> Some (vm_active s)
                   | Some r \<Rightarrow> (case rt_rules r of None \<Rightarrow> Some (vm_active s)
                               | Some rs \<Rightarrow> active_of_rules rs (vm_active s))) of
               None \<Rightarrow> (Threw, s1)
             | Some active \<Rightarrow>
                 (Done, s1\<lparr>vm_active := (if active = '''' \<and> nodes \<noteq> [] then vn_tag (hd nodes) else active)\<rparr>))"

section \<open>Reading the table\<close>

definition list_nodes :: "bool \<Rightarrow> vm_system \<Rightarrow> vm_node list" where
  "list_nodes desensitize s =
     (if desensitize then map (\<lambda>n. n\<lparr>vn_user_id := desensitize_uuid (vn_user_id n)\<rparr>) (vm_nodes s)
      else vm_nodes s)"

definition get_node :: "string \<Rightarrow> vm_system \<Rightarrow> vm_node option" where
  "get_node tag s = find (\<lambda>n. vn_tag n = tag) (vm_nodes s)"

definition get_active_node :: "vm_system \<Rightarrow> string" where
  "get_active_node s = vm_active s"

definition is_tag_unique :: "string \<Rightarrow> string \<Rightarrow> vm_node list \<Rightarrow> bool" where
  "is_tag_unique tag exclude ns \<longleftrightarrow> \<not> (\<exists>n \<in> set ns. vn_tag n = tag \<and> vn_tag n \<noteq> exclude)"

definition probe_target :: "vm_system \<Rightarrow> string \<Rightarrow> (string \<times> int) option" where
  "probe_target s tag = map_option (\<lambda>n. (vn_address n, uint (vn_port n))) (get_node tag s)"

section \<open>Changing the table\<close>

definition add_node :: "vm_env \<Rightarrow> vm_node \<Rightarrow> vm_system \<Rightarrow> vm_result \<times> vm_system" where
  "add_node env n s =
     (case validate_node n True of
        Some e \<Rightarrow> (Refused (Invalid e), s)
      | None \<Rightarrow>
          if \<not> is_tag_unique (vn_tag n) '''' (vm_nodes s) then (Refused Tag_exists, s)
          else
            case save_to_config env (s\<lparr>vm_nodes := vm_nodes s @ [n]\<rparr>) of
              (Done, s1) \<Rightarrow>
                (Done, s1\<lparr>vm_health := check_now (probe_target s1) (ve_connect env) (ve_now env) (vn_tag n)
                                        (vm_health s1)\<rparr>)
            | (Refused e, s1) \<Rightarrow> (Refused e, s1\<lparr>vm_nodes := butlast (vm_nodes s1)\<rparr>)
            | (Threw, s1) \<Rightarrow> (Threw, s1))"

text \<open>The first node with a tag is replaced, or erased.\<close>

fun put_first :: "string \<Rightarrow> vm_node \<Rightarrow> vm_node list \<Rightarrow> vm_node list" where
  "put_first tag n [] = []"
| "put_first tag n (x # xs) = (if vn_tag x = tag then n # xs else x # put_first tag n xs)"

fun erase_first :: "string \<Rightarrow> vm_node list \<Rightarrow> vm_node list" where
  "erase_first tag [] = []"
| "erase_first tag (x # xs) = (if vn_tag x = tag then xs else x # erase_first tag xs)"

definition update_node :: "vm_env \<Rightarrow> string \<Rightarrow> vm_node \<Rightarrow> vm_system \<Rightarrow> vm_result \<times> vm_system" where
  "update_node env old_tag n s =
     (case validate_node n True of
        Some e \<Rightarrow> (Refused (Invalid e), s)
      | None \<Rightarrow>
          if \<not> is_tag_unique (vn_tag n) old_tag (vm_nodes s) then (Refused Tag_exists, s)
          else
            case get_node old_tag s of
              None \<Rightarrow> (Refused No_such_node, s)
            | Some backup \<Rightarrow>
                case save_to_config env (s\<lparr>vm_nodes := put_first old_tag n (vm_nodes s)\<rparr>) of
                  (Done, s1) \<Rightarrow> (Done, s1)
                | (Refused e, s1) \<Rightarrow> (Refused e, s1\<lparr>vm_nodes := put_first (vn_tag n) backup (vm_nodes s1)\<rparr>)
                | (Threw, s1) \<Rightarrow> (Threw, s1))"

definition remove_node :: "vm_env \<Rightarrow> string \<Rightarrow> vm_system \<Rightarrow> vm_result \<times> vm_system" where
  "remove_node env tag s =
     (if length (vm_nodes s) \<le> 1 then (Refused Last_node, s)
      else
        case get_node tag s of
          None \<Rightarrow> (Refused No_such_node, s)
        | Some backup \<Rightarrow>
            case save_to_config env (s\<lparr>vm_nodes := erase_first tag (vm_nodes s)\<rparr>) of
              (Done, s1) \<Rightarrow>
                (Done, s1\<lparr>vm_balancer := dec_node_connections tag (vm_balancer s1),
                          vm_health := mark_unavailable tag (vm_health s1)\<rparr>)
            | (Refused e, s1) \<Rightarrow> (Refused e, s1\<lparr>vm_nodes := vm_nodes s1 @ [backup]\<rparr>)
            | (Threw, s1) \<Rightarrow> (Threw, s1))"

text \<open>
  \<^verbatim>\<open>std::move\<close> leaves a node whose strings and lists are empty and whose numbers are what they were.
\<close>

definition moved_from :: "vm_node \<Rightarrow> vm_node" where
  "moved_from n = n\<lparr>vn_tag := '''', vn_address := '''', vn_user_id := '''', vn_security := '''',
     vn_network := '''', vn_tls := '''', vn_remark := '''',
     vn_tcp := \<lparr>tcp_header_type = ''''\<rparr>, vn_ws := \<lparr>ws_path = '''', ws_host = ''''\<rparr>,
     vn_h2 := \<lparr>h2_path = '''', h2_host = []\<rparr>,
     vn_quic := \<lparr>quic_security = '''', quic_key = '''', quic_header_type = ''''\<rparr>,
     vn_kcp := (vn_kcp n)\<lparr>kcp_header_type := ''''\<rparr>,
     vn_tlsc := (vn_tlsc n)\<lparr>tls_server_name := ''''\<rparr>\<rparr>"

text \<open>The two loops: the tags that were given, then the nodes that are left.\<close>

fun take_ordered :: "string list \<Rightarrow> vm_node list \<Rightarrow> vm_node list \<Rightarrow> vm_node list \<times> vm_node list" where
  "take_ordered [] ns reordered = (ns, reordered)"
| "take_ordered (tag # tags) ns reordered =
     (case find (\<lambda>n. vn_tag n = tag) ns of
        None \<Rightarrow> take_ordered tags ns reordered
      | Some n \<Rightarrow> take_ordered tags (put_first tag (moved_from n) ns) (reordered @ [n]))"

fun take_rest :: "vm_node list \<Rightarrow> vm_node list \<Rightarrow> vm_node list" where
  "take_rest [] reordered = reordered"
| "take_rest (n # ns) reordered =
     take_rest ns (if \<exists>r \<in> set reordered. vn_tag r = vn_tag n then reordered else reordered @ [n])"

definition reorder_nodes :: "string list \<Rightarrow> vm_system \<Rightarrow> vm_system" where
  "reorder_nodes ordered_tags s =
     (let (ns, reordered) = take_ordered ordered_tags (vm_nodes s) []
      in s\<lparr>vm_nodes := take_rest ns reordered\<rparr>)"

definition set_active_node :: "string \<Rightarrow> vm_system \<Rightarrow> vm_result \<times> vm_system" where
  "set_active_node tag s =
     (if \<exists>n \<in> set (vm_nodes s). vn_tag n = tag then (Done, s\<lparr>vm_active := tag\<rparr>)
      else (Refused No_such_node, s))"

definition apply_config :: "vm_env \<Rightarrow> vm_system \<Rightarrow> vm_result \<times> vm_system" where
  "apply_config env s =
     (case save_to_config env s of
        (Done, s1) \<Rightarrow>
          (Done, s1\<lparr>vm_process := snd (process_restart (ve_gone_at env) (ve_forked env) (vm_process s1))\<rparr>)
      | (r, s1) \<Rightarrow> (r, s1))"

section \<open>Links\<close>

definition numbered_tag :: "nat \<Rightarrow> string" where
  "numbered_tag i = ''vmess-'' @ to_string (int i)"

lemma numbered_tag_inj: "numbered_tag i = numbered_tag j \<longleftrightarrow> i = j"
  by (simp add: numbered_tag_def to_string_def decimal_inj)

lemma finite_numbered: "finite {i. numbered_tag i \<in> vn_tag ` set ns}"
  using finite_vimageI [of "vn_tag ` set ns" numbered_tag]
  by (simp add: vimage_def inj_on_def numbered_tag_inj)

lemma find_tag: "find (\<lambda>n. vn_tag n = tag) ns = Some b \<Longrightarrow> b \<in> set ns \<and> vn_tag b = tag"
  by (induction ns) (auto split: if_splits)

text \<open>The loop without a bound: the first number whose tag is free.\<close>

function auto_tag_from :: "vm_node list \<Rightarrow> nat \<Rightarrow> string" where
  "auto_tag_from ns i =
     (if find (\<lambda>n. vn_tag n = numbered_tag i) ns = None then numbered_tag i else auto_tag_from ns (Suc i))"
  by auto
termination
proof (relation "measure (\<lambda>(ns, i). card {k. i \<le> k \<and> numbered_tag k \<in> vn_tag ` set ns})")
  fix ns :: "vm_node list" and i :: nat
  assume "find (\<lambda>n. vn_tag n = numbered_tag i) ns \<noteq> None"
  then obtain b where "find (\<lambda>n. vn_tag n = numbered_tag i) ns = Some b" by blast
  from find_tag [OF this] have used: "numbered_tag i \<in> vn_tag ` set ns" by force
  have "finite {k. i \<le> k \<and> numbered_tag k \<in> vn_tag ` set ns}"
    by (rule finite_subset [OF _ finite_numbered]) auto
  moreover have "{k. Suc i \<le> k \<and> numbered_tag k \<in> vn_tag ` set ns}
      \<subset> {k. i \<le> k \<and> numbered_tag k \<in> vn_tag ` set ns}"
  proof (rule psubsetI)
    have "i \<in> {k. i \<le> k \<and> numbered_tag k \<in> vn_tag ` set ns}" using used by simp
    moreover have "i \<notin> {k. Suc i \<le> k \<and> numbered_tag k \<in> vn_tag ` set ns}" by simp
    ultimately show "{k. Suc i \<le> k \<and> numbered_tag k \<in> vn_tag ` set ns}
        \<noteq> {k. i \<le> k \<and> numbered_tag k \<in> vn_tag ` set ns}" by metis
  qed auto
  ultimately show "((ns, Suc i), ns, i)
      \<in> measure (\<lambda>(ns, i). card {k. i \<le> k \<and> numbered_tag k \<in> vn_tag ` set ns})"
    by (simp add: psubset_card_mono)
qed simp

declare auto_tag_from.simps [simp del]

definition generate_auto_tag :: "vm_system \<Rightarrow> string" where
  "generate_auto_tag s = auto_tag_from (vm_nodes s) 1"

definition import_from_link ::
    "link_lib \<Rightarrow> vm_env \<Rightarrow> string \<Rightarrow> vm_system \<Rightarrow> (vm_result \<times> vm_node option) \<times> vm_system" where
  "import_from_link lib env link s =
     (case decode_link lib link of
        Inl Throws \<Rightarrow> ((Threw, None), s)
      | Inl e \<Rightarrow> ((Refused (Bad_link e), None), s)
      | Inr n0 \<Rightarrow>
          let n = n0\<lparr>vn_tag := generate_auto_tag s\<rparr>
          in case validate_node n True of
               Some e \<Rightarrow> ((Refused (Invalid e), None), s)
             | None \<Rightarrow>
                 case save_to_config env (s\<lparr>vm_nodes := vm_nodes s @ [n]\<rparr>) of
                   (Done, s1) \<Rightarrow> ((Done, Some n), s1)
                 | (Refused e, s1) \<Rightarrow>
                     ((Refused e, None),
                      if vm_nodes s1 \<noteq> [] \<and> vn_tag (last (vm_nodes s1)) = vn_tag n
                      then s1\<lparr>vm_nodes := butlast (vm_nodes s1)\<rparr> else s1)
                 | (Threw, s1) \<Rightarrow> ((Threw, None), s1))"

definition export_to_link :: "link_lib \<Rightarrow> vm_node \<Rightarrow> string" where
  "export_to_link lib n = encode_link lib n"

section \<open>Saving and the table\<close>

lemma save_cases:
  obtains (saved) s1 where "save_to_config env s = (Done, s1)" "vm_nodes s1 = vm_nodes s" "vm_active s1 = vm_active s"
  | (refused) e where "save_to_config env s = (Refused e, s)"
  | (threw) "save_to_config env s = (Threw, s)"
proof -
  have frame: "case save_to_config env s of (Done, s1) \<Rightarrow> vm_nodes s1 = vm_nodes s \<and> vm_active s1 = vm_active s
      | (_, s1) \<Rightarrow> s1 = s"
    by (auto simp: save_to_config_def split: option.split)
  obtain r s1 where "save_to_config env s = (r, s1)" by fastforce
  with frame that show thesis by (cases r) auto
qed

lemma save_Done:
  assumes "save_to_config env s = (Done, s1)"
  obtains c where "build_full_config (vm_nodes s) (vm_config_file s) (vm_active s) = Some c"
    "s1 = s\<lparr>vm_config_file := Some c,
            vm_remarks_file := (if ve_remarks_writable env then Some (remarks_of (vm_nodes s)) else vm_remarks_file s)\<rparr>"
  using assms by (auto simp: save_to_config_def split: option.splits if_splits)

definition managed :: "vm_node list \<Rightarrow> bool" where
  "managed ns \<longleftrightarrow> (\<forall>n \<in> set ns. validate_node n True = None) \<and> distinct (map vn_tag ns)"

lemma managed_append:
  "managed ns \<Longrightarrow> validate_node n True = None \<Longrightarrow> vn_tag n \<notin> vn_tag ` set ns \<Longrightarrow> managed (ns @ [n])"
  by (auto simp: managed_def)

lemma unique_tag: "is_tag_unique tag '''' ns \<Longrightarrow> tag \<noteq> '''' \<Longrightarrow> tag \<notin> vn_tag ` set ns"
  by (auto simp: is_tag_unique_def)

lemma set_put_first: "set (put_first tag n ns) \<subseteq> insert n (set ns)"
  by (induction tag n ns rule: put_first.induct) auto

lemma put_first_Nil [simp]: "put_first tag n ns = [] \<longleftrightarrow> ns = []"
  by (cases ns) auto

lemma managed_put_first:
  assumes "managed ns" "validate_node n True = None" "is_tag_unique (vn_tag n) tag ns"
  shows "managed (put_first tag n ns)"
  using assms
proof (induction tag n ns rule: put_first.induct)
  case (2 tag n x xs)
  have rest: "managed xs" "is_tag_unique (vn_tag n) tag xs" "vn_tag x \<notin> vn_tag ` set xs"
    using 2 by (auto simp: managed_def is_tag_unique_def)
  show ?case
  proof (cases "vn_tag x = tag")
    case True
    then have "vn_tag n \<notin> vn_tag ` set xs" using rest by (auto simp: is_tag_unique_def)
    with True 2 show ?thesis by (auto simp: managed_def)
  next
    case False
    then have "vn_tag x \<noteq> vn_tag n" using 2 by (auto simp: is_tag_unique_def)
    then have "vn_tag x \<notin> vn_tag ` set (put_first tag n xs)"
      using rest(3) set_put_first [of tag n xs] by auto
    with 2 False rest show ?thesis by (auto simp: managed_def)
  qed
qed simp

lemma put_first_back:
  assumes "distinct (map vn_tag ns)" "find (\<lambda>x. vn_tag x = tag) ns = Some b" "is_tag_unique (vn_tag n) tag ns"
  shows "put_first (vn_tag n) b (put_first tag n ns) = ns"
  using assms
  by (induction tag n ns rule: put_first.induct) (auto simp: is_tag_unique_def split: if_splits)

lemma mset_erase_first:
  "find (\<lambda>x. vn_tag x = tag) ns = Some b \<Longrightarrow> mset ns = add_mset b (mset (erase_first tag ns))"
  by (induction tag ns rule: erase_first.induct) (auto split: if_splits)

lemma erase_first_subseq: "set (erase_first tag ns) \<subseteq> set ns"
  by (induction tag ns rule: erase_first.induct) auto

lemma managed_erase_first: "managed ns \<Longrightarrow> managed (erase_first tag ns)"
proof (induction tag ns rule: erase_first.induct)
  case (2 tag x xs)
  then show ?case using erase_first_subseq [of tag xs] by (auto simp: managed_def)
qed simp

lemma erase_first_gone: "managed ns \<Longrightarrow> tag \<notin> vn_tag ` set (erase_first tag ns)"
  by (induction tag ns rule: erase_first.induct) (auto simp: managed_def)

lemma managed_mset: "managed ns \<Longrightarrow> mset ms = mset ns \<Longrightarrow> managed ms"
  by (metis managed_def mset_map set_mset_mset mset_eq_imp_distinct_iff)

lemma auto_tag_least:
  "\<exists>k \<ge> i. auto_tag_from ns i = numbered_tag k \<and> numbered_tag k \<notin> vn_tag ` set ns
     \<and> (\<forall>j. i \<le> j \<and> j < k \<longrightarrow> numbered_tag j \<in> vn_tag ` set ns)"
proof (induction ns i rule: auto_tag_from.induct)
  case (1 ns i)
  show ?case
  proof (cases "find (\<lambda>n. vn_tag n = numbered_tag i) ns")
    case None
    then have "numbered_tag i \<notin> vn_tag ` set ns" by (auto simp: find_None_iff)
    moreover have "auto_tag_from ns i = numbered_tag i" using None by (subst auto_tag_from.simps) simp
    ultimately show ?thesis by (intro exI [of _ i]) auto
  next
    case (Some b)
    then have "numbered_tag i \<in> vn_tag ` set ns" using find_tag [OF Some] by force
    moreover from Some 1 obtain k where k: "Suc i \<le> k" "auto_tag_from ns (Suc i) = numbered_tag k"
        "numbered_tag k \<notin> vn_tag ` set ns"
        "\<forall>j. Suc i \<le> j \<and> j < k \<longrightarrow> numbered_tag j \<in> vn_tag ` set ns"
      by auto
    moreover have "auto_tag_from ns i = auto_tag_from ns (Suc i)"
      using Some by (subst auto_tag_from.simps) simp
    moreover have "numbered_tag j \<in> vn_tag ` set ns" if "i \<le> j" "j < k" for j
      using that \<open>numbered_tag i \<in> vn_tag ` set ns\<close> k(4) by (cases "j = i") simp_all
    ultimately show ?thesis by (intro exI [of _ k]) simp
  qed
qed

lemma auto_tag_free: "generate_auto_tag s \<notin> vn_tag ` set (vm_nodes s)"
  using auto_tag_least [of 1 "vm_nodes s"] unfolding generate_auto_tag_def by metis

lemma remove_Done:
  assumes "remove_node env tag s = (Done, s1)"
  obtains s2 where "save_to_config env (s\<lparr>vm_nodes := erase_first tag (vm_nodes s)\<rparr>) = (Done, s2)"
    "vm_active s1 = vm_active s2" "vm_config_file s1 = vm_config_file s2"
proof (cases rule: save_cases [of env "s\<lparr>vm_nodes := erase_first tag (vm_nodes s)\<rparr>"])
  case (saved s2)
  with assms that [of s2] show thesis
    by (simp add: remove_node_def split: if_splits option.splits) (metis vm_system.ext_inject vm_system.surjective vm_system.update_convs)
qed (use assms in \<open>auto simp: remove_node_def split: if_splits option.splits\<close>)

section \<open>Sequences of operations\<close>

datatype vm_event =
  Add vm_env vm_node | Update vm_env string vm_node | Remove vm_env string | Set_active string
| Apply vm_env | Import link_lib vm_env string

fun vm_op :: "vm_event \<Rightarrow> vm_system \<Rightarrow> vm_result \<times> vm_system" where
  "vm_op (Add env n) s = add_node env n s"
| "vm_op (Update env tag n) s = update_node env tag n s"
| "vm_op (Remove env tag) s = remove_node env tag s"
| "vm_op (Set_active tag) s = set_active_node tag s"
| "vm_op (Apply env) s = apply_config env s"
| "vm_op (Import lib env link) s = (case import_from_link lib env link s of ((r, _), s1) \<Rightarrow> (r, s1))"

definition vm_step :: "vm_event \<Rightarrow> vm_system \<Rightarrow> vm_system" where
  "vm_step e s = snd (vm_op e s)"

definition vm_inv :: "vm_system \<Rightarrow> bool" where
  "vm_inv s \<longleftrightarrow> managed (vm_nodes s) \<and> vm_nodes s \<noteq> []"

lemma valid_tag: "validate_node n True = None \<Longrightarrow> vn_tag n \<noteq> ''''"
  by (rule valid_fields(10))

text \<open>
  What an operation leaves behind: the table it had, up to order, and nothing else changed, where it
  refuses; a table that is well formed again in every case.
\<close>

definition kept :: "vm_system \<Rightarrow> vm_system \<Rightarrow> bool" where
  "kept s s1 \<longleftrightarrow> (\<exists>ns. s1 = s\<lparr>vm_nodes := ns\<rparr> \<and> mset ns = mset (vm_nodes s))"

lemma kept_refl [simp]: "kept s s"
  unfolding kept_def by (intro exI [of _ "vm_nodes s"]) simp

lemma kept_nodes: "mset ns = mset (vm_nodes s) \<Longrightarrow> kept s (s\<lparr>vm_nodes := ns\<rparr>)"
  unfolding kept_def by blast

lemma kept_inv: "kept s s1 \<Longrightarrow> vm_inv s \<Longrightarrow> vm_inv s1"
  by (auto simp: kept_def vm_inv_def dest: managed_mset)

definition ends_well :: "vm_system \<Rightarrow> vm_result \<times> vm_system \<Rightarrow> bool" where
  "ends_well s r \<longleftrightarrow> (case r of (Refused e, s1) \<Rightarrow> kept s s1 | (_, s1) \<Rightarrow> vm_inv s1)"

lemma ends_wellI [intro]:
  "kept s s1 \<Longrightarrow> ends_well s (Refused e, s1)"
  "vm_inv s1 \<Longrightarrow> ends_well s (Done, s1)"
  "vm_inv s1 \<Longrightarrow> ends_well s (Threw, s1)"
  by (simp_all add: ends_well_def)

lemma add_ends_well: "vm_inv s \<Longrightarrow> ends_well s (add_node env n s)"
proof (cases "validate_node n True")
  case None
  assume inv: "vm_inv s"
  let ?s0 = "s\<lparr>vm_nodes := vm_nodes s @ [n]\<rparr>"
  show ?thesis
  proof (cases "is_tag_unique (vn_tag n) '''' (vm_nodes s)")
    case True
    with None inv have inv1: "vm_inv ?s0"
      using unique_tag [OF True valid_tag [OF None]] by (simp add: vm_inv_def managed_append)
    show ?thesis
    proof (cases rule: save_cases [of env ?s0])
      case (saved s1)
      with inv1 None True show ?thesis by (auto simp: add_node_def vm_inv_def)
    qed (use inv1 None True in \<open>auto simp: add_node_def\<close>)
  qed (use None in \<open>auto simp: add_node_def\<close>)
qed (auto simp: add_node_def)

lemma update_ends_well: "vm_inv s \<Longrightarrow> ends_well s (update_node env tag n s)"
proof (cases "validate_node n True")
  case None
  assume inv: "vm_inv s"
  let ?s0 = "s\<lparr>vm_nodes := put_first tag n (vm_nodes s)\<rparr>"
  show ?thesis
  proof (cases "is_tag_unique (vn_tag n) tag (vm_nodes s)")
    case True
    with None inv have inv1: "vm_inv ?s0" by (simp add: vm_inv_def managed_put_first)
    show ?thesis
    proof (cases "get_node tag s")
      case (Some b)
      then have undo: "put_first (vn_tag n) b (put_first tag n (vm_nodes s)) = vm_nodes s"
        using inv True by (intro put_first_back) (simp_all add: vm_inv_def managed_def get_node_def)
      show ?thesis
      proof (cases rule: save_cases [of env ?s0])
        case (saved s1)
        with inv1 None True Some show ?thesis by (auto simp: update_node_def vm_inv_def)
      qed (use inv1 None True Some undo in \<open>auto simp: update_node_def\<close>)
    qed (use None True in \<open>auto simp: update_node_def\<close>)
  qed (use None in \<open>auto simp: update_node_def\<close>)
qed (auto simp: update_node_def)

lemma remove_ends_well: "vm_inv s \<Longrightarrow> ends_well s (remove_node env tag s)"
proof (cases "length (vm_nodes s) \<le> 1")
  case False
  assume inv: "vm_inv s"
  let ?s0 = "s\<lparr>vm_nodes := erase_first tag (vm_nodes s)\<rparr>"
  show ?thesis
  proof (cases "get_node tag s")
    case (Some b)
    then have ms: "mset (vm_nodes s) = add_mset b (mset (erase_first tag (vm_nodes s)))"
      by (intro mset_erase_first) (simp add: get_node_def)
    then have "size (mset (vm_nodes s)) = Suc (size (mset (erase_first tag (vm_nodes s))))" by simp
    with False have "erase_first tag (vm_nodes s) \<noteq> []" by auto
    with inv have inv1: "vm_inv ?s0" by (simp add: vm_inv_def managed_erase_first)
    show ?thesis
    proof (cases rule: save_cases [of env ?s0])
      case (saved s1)
      with inv1 False Some show ?thesis by (auto simp: remove_node_def vm_inv_def)
    next
      case (refused e)
      with False Some have "remove_node env tag s
          = (Refused e, s\<lparr>vm_nodes := erase_first tag (vm_nodes s) @ [b]\<rparr>)"
        by (simp add: remove_node_def)
      then show ?thesis using ms by (simp add: ends_well_def kept_nodes)
    qed (use inv1 False Some in \<open>auto simp: remove_node_def\<close>)
  qed (use False in \<open>auto simp: remove_node_def\<close>)
qed (auto simp: remove_node_def)

lemma import_ends_well: "vm_inv s \<Longrightarrow> ends_well s (vm_op (Import lib env link) s)"
proof (cases "decode_link lib link")
  case (Inl e)
  assume "vm_inv s"
  with Inl show ?thesis by (cases e) (auto simp: import_from_link_def)
next
  case (Inr n0)
  assume inv: "vm_inv s"
  define n where "n = n0\<lparr>vn_tag := generate_auto_tag s\<rparr>"
  let ?s0 = "s\<lparr>vm_nodes := vm_nodes s @ [n]\<rparr>"
  show ?thesis
  proof (cases "validate_node n True")
    case None
    have "vn_tag n \<notin> vn_tag ` set (vm_nodes s)" using auto_tag_free by (simp add: n_def)
    with None inv have inv1: "vm_inv ?s0" by (simp add: vm_inv_def managed_append)
    show ?thesis
    proof (cases rule: save_cases [of env ?s0])
      case (saved s1)
      with inv1 None Inr show ?thesis by (auto simp: import_from_link_def n_def Let_def vm_inv_def)
    qed (use inv1 None Inr in \<open>auto simp: import_from_link_def n_def Let_def\<close>)
  qed (use Inr in \<open>auto simp: import_from_link_def n_def Let_def\<close>)
qed

lemma vm_op_ends_well: "vm_inv s \<Longrightarrow> ends_well s (vm_op e s)"
proof (cases e)
  case (Apply env)
  assume "vm_inv s"
  with Apply show ?thesis
    by (cases rule: save_cases [of env s]) (auto simp: apply_config_def vm_inv_def)
qed (use add_ends_well update_ends_well remove_ends_well import_ends_well in
    \<open>auto simp: set_active_node_def vm_inv_def simp del: vm_op.simps(6)\<close>)

lemma vm_step_inv: "vm_inv s \<Longrightarrow> vm_inv (vm_step e s)"
  using vm_op_ends_well [of s e] kept_inv
  by (auto simp: ends_well_def vm_step_def split: prod.splits vm_result.splits)

interpretation vm_run: stepper vm_step vm_inv "\<lambda>e. True"
  by unfold_locales (rule vm_step_inv)

section \<open>Loading what was saved\<close>

lemma vmess_outbound_protocol [simp]: "ob_protocol (build_vmess_outbound n) = Some ''vmess''"
  by (simp add: build_vmess_outbound_def)

lemma loaded_built:
  assumes "\<forall>n \<in> set ns. validate_node n True = None"
  shows "loaded_nodes (map build_vmess_outbound ns
           @ [plain_outbound ''freedom'' ''direct'', plain_outbound ''blackhole'' ''block'']) = map stored_part ns"
proof -
  have "List.map_filter parse_outbound (filter (\<lambda>ob. member_or '''' (ob_protocol ob) = ''vmess'')
          (map build_vmess_outbound ns)) = map stored_part ns"
    using assms
  proof (induction ns)
    case (Cons n ns)
    then have "validate_node n True = None" by simp
    from valid_fields(8-10) [OF this] have "parse_outbound (build_vmess_outbound n) = Some (stored_part n)"
      by (intro parse_build_outbound)
    with Cons show ?case by (simp add: map_filter_simps)
  qed (simp add: map_filter_simps)
  then show ?thesis by (simp add: loaded_nodes_def plain_outbound_def)
qed

lemma remarks_fold:
  "distinct (map vn_tag ns) \<Longrightarrow> n \<in> set ns
   \<Longrightarrow> fold (\<lambda>n m. if vn_remark n \<noteq> '''' then m(vn_tag n \<mapsto> vn_remark n) else m) ns m0 (vn_tag n)
     = (if vn_remark n = '''' then m0 (vn_tag n) else Some (vn_remark n))"
proof (induction ns arbitrary: m0)
  case (Cons x ns)
  have other: "fold (\<lambda>n m. if vn_remark n \<noteq> '''' then m(vn_tag n \<mapsto> vn_remark n) else m) ns m1 t = m1 t"
    if "t \<notin> vn_tag ` set ns" for m1 t
    using that by (induction ns arbitrary: m1) auto
  show ?case
  proof (cases "n = x")
    case True
    with Cons.prems(1) show ?thesis by (simp add: other)
  next
    case False
    with Cons.prems have "n \<in> set ns" "vn_tag x \<noteq> vn_tag n" by auto
    with Cons show ?thesis by simp
  qed
qed simp

lemma stored_part_simps [simp]: "vn_tag (stored_part n) = vn_tag n" "vn_remark (stored_part n) = ''''"
  by (simp_all add: stored_part_def default_node_def)

lemma remark_restored:
  assumes "distinct (map vn_tag ns)" "n \<in> set ns"
  shows "with_remark (Some (remarks_of ns)) (stored_part n) = (stored_part n)\<lparr>vn_remark := vn_remark n\<rparr>"
  using remarks_fold [OF assms, of Map.empty]
  by (simp add: with_remark_def remarks_of_def stored_part_def default_node_def)

text \<open>What a restart makes of a node.\<close>

definition reloaded :: "vm_node \<Rightarrow> vm_node" where
  "reloaded n = (stored_part n)\<lparr>vn_remark := vn_remark n\<rparr>"

lemma load_built_nodes:
  assumes "managed ns" "build_full_config ns existing active = Some c"
    "vm_config_file s = Some c" "vm_remarks_file s = Some (remarks_of ns)"
  shows "map (with_remark (vm_remarks_file s))
           (case cf_outbounds c of None \<Rightarrow> [] | Some obs \<Rightarrow> loaded_nodes obs) = map reloaded ns"
proof -
  have "\<forall>n \<in> set ns. validate_node n True = None" "distinct (map vn_tag ns)"
    using assms(1) by (simp_all add: managed_def)
  then show ?thesis
    using built_outbounds [OF assms(2)] loaded_built remark_restored assms(4) by (simp add: reloaded_def)
qed

lemma active_of_retagged:
  assumes "vmess_prefixed active" "list_all is_rule rs" "\<exists>r \<in> set rs. is_default_rule r"
  shows "active_of_rules (map (retag active) rs) old = Some active"
  using assms(2,3)
proof (induction rs)
  case (Cons r rs)
  then show ?case using assms(1) by (cases r) (auto simp: is_rule_def)
qed simp

lemma rules_loaded:
  "vm_config_file s = Some c
   \<Longrightarrow> (case cf_routing c of None \<Rightarrow> Some a | Some r \<Rightarrow> (case rt_rules r of None \<Rightarrow> Some a | Some rs \<Rightarrow> active_of_rules rs a))
     = active_of_rules (rules_of (vm_config_file s)) a"
  by (simp add: rules_of_def split: option.split)

lemma load_Done:
  assumes "vm_config_file s = Some c"
    and "map (with_remark (vm_remarks_file s)) (case cf_outbounds c of None \<Rightarrow> [] | Some obs \<Rightarrow> loaded_nodes obs) = ns"
    and "active_of_rules (rules_of (vm_config_file s)) (vm_active s) = Some active" "active \<noteq> ''''"
  shows "load_from_config s = (Done, s\<lparr>vm_nodes := ns, vm_active := active\<rparr>)"
  unfolding load_from_config_def assms(1) option.case Let_def assms(2) rules_loaded [OF assms(1)]
  using assms(3,4) by (simp add: assms(1))

section \<open>Rules the builder damages\<close>

lemma inserted_not_rules: "inserted_rules active \<noteq> []" "\<not> list_all is_rule (inserted_rules active @ rs)"
  "active_of_rules (inserted_rules active @ rs) a = None"
  by (simp_all add: inserted_rules_def is_rule_def)

lemma retag_custom:
  assumes "\<not> vmess_prefixed active"
  shows "\<not> is_default_rule (retag active r)"
  using assms by (cases r) auto

text \<open>The states in which the file has rules the program itself cannot read.\<close>

definition broken_rules :: "vm_system \<Rightarrow> bool" where
  "broken_rules s \<longleftrightarrow> (\<exists>active rs. rules_of (vm_config_file s) = inserted_rules active @ rs)"

lemma broken_save: "broken_rules s \<Longrightarrow> vm_active s \<noteq> '''' \<Longrightarrow> save_to_config env s = (Threw, s)"
  using build_throws [of "vm_active s" "vm_config_file s" "vm_nodes s"] inserted_not_rules(2)
  by (auto simp: broken_rules_def save_to_config_def)

lemma broken_load: "broken_rules s \<Longrightarrow> fst (load_from_config s) = Threw"
proof -
  assume "broken_rules s"
  then obtain active rs where rs: "rules_of (vm_config_file s) = inserted_rules active @ rs"
    by (auto simp: broken_rules_def)
  then obtain c where c: "vm_config_file s = Some c"
    by (cases "vm_config_file s") (auto simp: rules_of_def inserted_rules_def)
  then show ?thesis
    using rules_loaded [OF c, of "vm_active s"] rs inserted_not_rules(3)
    by (simp add: load_from_config_def Let_def)
qed

lemma save_writes:
  assumes "vm_active s \<noteq> ''''" "list_all is_rule (rules_of (vm_config_file s))" "ve_config_writable env"
  obtains s1 where "save_to_config env s = (Done, s1)" "vm_nodes s1 = vm_nodes s" "vm_active s1 = vm_active s"
    "rules_of (vm_config_file s1) =
       (if \<exists>r \<in> set (rules_of (vm_config_file s)). is_default_rule r then [] else inserted_rules (vm_active s))
       @ map (retag (vm_active s)) (rules_of (vm_config_file s))"
proof -
  obtain c where c: "build_full_config (vm_nodes s) (vm_config_file s) (vm_active s) = Some c"
    "rules_of (Some c) =
       (if \<exists>r \<in> set (rules_of (vm_config_file s)). is_default_rule r then [] else inserted_rules (vm_active s))
       @ map (retag (vm_active s)) (rules_of (vm_config_file s))"
    by (rule build_retags [OF assms(1,2)])
  have "save_to_config env s = (Done, s\<lparr>vm_config_file := Some c,
      vm_remarks_file := (if ve_remarks_writable env then Some (remarks_of (vm_nodes s)) else vm_remarks_file s)\<rparr>)"
    using c(1) built_config_valid [OF c(1)] assms(3) by (simp add: save_to_config_def)
  with c(2) that show thesis by simp
qed

lemma save_retags:
  assumes "vm_active s \<noteq> ''''" "list_all is_rule (rules_of (vm_config_file s))" "ve_config_writable env"
    "\<exists>r \<in> set (rules_of (vm_config_file s)). is_default_rule r"
  obtains s1 where "save_to_config env s = (Done, s1)" "vm_nodes s1 = vm_nodes s" "vm_active s1 = vm_active s"
    "rules_of (vm_config_file s1) = map (retag (vm_active s)) (rules_of (vm_config_file s))"
proof (rule save_writes [OF assms(1-3)])
  fix s1
  assume "save_to_config env s = (Done, s1)" "vm_nodes s1 = vm_nodes s" "vm_active s1 = vm_active s"
    "rules_of (vm_config_file s1) =
       (if \<exists>r \<in> set (rules_of (vm_config_file s)). is_default_rule r then [] else inserted_rules (vm_active s))
       @ map (retag (vm_active s)) (rules_of (vm_config_file s))"
  then show thesis using that assms(4) by simp
qed

lemma first_rule_broken:
  assumes "vm_active s \<noteq> ''''" "list_all is_rule (rules_of (vm_config_file s))" "ve_config_writable env"
    "\<not> (\<exists>r \<in> set (rules_of (vm_config_file s)). is_default_rule r)"
  shows "fst (save_to_config env s) = Done \<and> broken_rules (snd (save_to_config env s))"
proof (rule save_writes [OF assms(1-3)])
  fix s1
  assume "save_to_config env s = (Done, s1)"
    "rules_of (vm_config_file s1) =
       (if \<exists>r \<in> set (rules_of (vm_config_file s)). is_default_rule r then [] else inserted_rules (vm_active s))
       @ map (retag (vm_active s)) (rules_of (vm_config_file s))"
  then show ?thesis using assms(4) by (auto simp: broken_rules_def)
qed

section \<open>Reordering\<close>

definition named :: "vm_node \<Rightarrow> bool" where
  "named n \<longleftrightarrow> vn_tag n \<noteq> ''''"

lemma moved_from_tag [simp]: "vn_tag (moved_from n) = ''''"
  by (simp add: moved_from_def)

lemma filter_put_first:
  "tag \<noteq> '''' \<Longrightarrow> find (\<lambda>n. vn_tag n = tag) ns = Some b
   \<Longrightarrow> mset (filter named ns) = add_mset b (mset (filter named (put_first tag (moved_from b) ns)))"
  by (induction ns) (auto simp: named_def split: if_splits)

lemma put_first_ghost:
  "find (\<lambda>n. vn_tag n = tag) ns = Some b \<Longrightarrow> '''' \<in> vn_tag ` set (put_first tag (moved_from b) ns)"
  by (induction ns) (auto split: if_splits)

lemma put_first_keeps_ghost:
  "tag \<noteq> '''' \<Longrightarrow> '''' \<in> vn_tag ` set ns \<Longrightarrow> '''' \<in> vn_tag ` set (put_first tag n ns)"
  by (induction tag n ns rule: put_first.induct) auto

lemma take_ordered_named:
  "'''' \<notin> set tags \<Longrightarrow> take_ordered tags ns re = (ns1, re1)
   \<Longrightarrow> mset (filter named ns1) + mset (filter named re1) = mset (filter named ns) + mset (filter named re)"
proof (induction tags ns re rule: take_ordered.induct)
  case (2 tag tags ns re)
  show ?case
  proof (cases "find (\<lambda>n. vn_tag n = tag) ns")
    case (Some b)
    have "named b" using find_tag [OF Some] 2(3) by (auto simp: named_def)
    moreover have "mset (filter named ns) = add_mset b (mset (filter named (put_first tag (moved_from b) ns)))"
      using 2(3) by (intro filter_put_first [OF _ Some]) auto
    ultimately show ?thesis using 2(2) [OF Some] 2(3,4) Some by simp
  qed (use 2 in simp)
qed simp

lemma take_ordered_all_named:
  "'''' \<notin> set tags \<Longrightarrow> list_all named re \<Longrightarrow> take_ordered tags ns re = (ns1, re1) \<Longrightarrow> list_all named re1"
proof (induction tags ns re rule: take_ordered.induct)
  case (2 tag tags ns re)
  then show ?case
    by (cases "find (\<lambda>n. vn_tag n = tag) ns") (auto simp: named_def dest: find_tag)
qed simp

lemma take_ordered_ghost:
  "'''' \<notin> set tags \<Longrightarrow> take_ordered tags ns re = (ns1, re1)
   \<Longrightarrow> '''' \<in> vn_tag ` set ns \<or> (\<exists>t \<in> set tags. t \<in> vn_tag ` set ns) \<Longrightarrow> '''' \<in> vn_tag ` set ns1"
proof (induction tags ns re rule: take_ordered.induct)
  case (2 tag tags ns re)
  show ?case
  proof (cases "find (\<lambda>n. vn_tag n = tag) ns")
    case None
    then have "tag \<notin> vn_tag ` set ns" by (auto simp: find_None_iff)
    with 2 None show ?thesis by auto
  next
    case (Some b)
    with 2 put_first_ghost [OF Some] show ?thesis by simp
  qed
qed auto

lemma ex_tag: "(\<exists>r \<in> set re. vn_tag r = t) \<longleftrightarrow> t \<in> vn_tag ` set re"
  by (metis imageE imageI)

lemma take_rest_Cons:
  "vn_tag n \<in> vn_tag ` set re \<Longrightarrow> take_rest (n # ns) re = take_rest ns re"
  "vn_tag n \<notin> vn_tag ` set re \<Longrightarrow> take_rest (n # ns) re = take_rest ns (re @ [n])"
  by (simp_all only: take_rest.simps ex_tag if_True if_False not_True_eq_False)

lemma take_rest_tags: "vn_tag ` set (take_rest ns re) = vn_tag ` set ns \<union> vn_tag ` set re"
proof (induction ns arbitrary: re)
  case (Cons n ns)
  show ?case
  proof (cases "vn_tag n \<in> vn_tag ` set re")
    case True
    show ?thesis unfolding take_rest_Cons(1) [OF True] Cons using True by auto
  next
    case False
    show ?thesis unfolding take_rest_Cons(2) [OF False] Cons by simp
  qed
qed simp

lemma take_rest_distinct: "distinct (map vn_tag re) \<Longrightarrow> distinct (map vn_tag (take_rest ns re))"
proof (induction ns arbitrary: re)
  case (Cons n ns)
  show ?case
  proof (cases "vn_tag n \<in> vn_tag ` set re")
    case True
    show ?thesis unfolding take_rest_Cons(1) [OF True] by (rule Cons(1) [OF Cons(2)])
  next
    case False
    show ?thesis unfolding take_rest_Cons(2) [OF False] using Cons(2) False by (intro Cons(1)) simp
  qed
qed simp

lemma take_rest_named:
  "distinct (map vn_tag (filter named (ns @ re)))
   \<Longrightarrow> mset (filter named (take_rest ns re)) = mset (filter named ns) + mset (filter named re)"
proof (induction ns arbitrary: re)
  case (Cons n ns)
  show ?case
  proof (cases "vn_tag n \<in> vn_tag ` set re")
    case True
    then obtain r where r: "r \<in> set re" "vn_tag r = vn_tag n" by force
    have "\<not> named n"
    proof
      assume "named n"
      then have "r \<in> set (filter named re)" using r by (simp add: named_def)
      from imageI [OF this, of vn_tag] have "vn_tag n \<in> vn_tag ` set (filter named re)" by (simp only: r(2))
      with Cons(2) \<open>named n\<close> show False by auto
    qed
    with Cons show ?thesis unfolding take_rest_Cons(1) [OF True] by simp
  next
    case False
    have "mset (map vn_tag (filter named (ns @ re @ [n]))) = mset (map vn_tag (filter named ((n # ns) @ re)))"
      by simp
    from mset_eq_imp_distinct_iff [OF this] Cons(2)
    have "distinct (map vn_tag (filter named (ns @ re @ [n])))" by simp
    from Cons(1) [OF this] show ?thesis unfolding take_rest_Cons(2) [OF False] by simp
  qed
qed simp

lemma one_ghost:
  assumes "distinct (map vn_tag ns)" "'''' \<in> vn_tag ` set ns"
  obtains g where "vn_tag g = ''''" "mset ns = add_mset g (mset (filter named ns))"
proof -
  from assms have "\<exists>g. vn_tag g = '''' \<and> mset ns = add_mset g (mset (filter named ns))"
  proof (induction ns)
    case (Cons n ns)
    show ?case
    proof (cases "vn_tag n = ''''")
      case True
      then have "'''' \<notin> vn_tag ` set ns" using Cons(2) True by simp
      then have "\<forall>x \<in> set ns. vn_tag x \<noteq> ''''" by (metis imageI)
      then have same: "filter named ns = ns" by (simp add: named_def filter_id_conv)
      have "\<not> named n" using True by (simp add: named_def)
      then have "filter named (n # ns) = ns" by (simp add: same)
      then show ?thesis using True by (intro exI [of _ n]) simp
    next
      case False
      with Cons obtain g where "vn_tag g = ''''" "mset ns = add_mset g (mset (filter named ns))" by auto
      with False show ?thesis by (intro exI [of _ g]) (simp add: named_def)
    qed
  qed simp
  with that show thesis by blast
qed

lemma filter_named_managed: "managed ns \<Longrightarrow> filter named ns = ns"
  by (auto simp: managed_def named_def filter_id_conv dest: valid_tag)

section \<open>A concrete system\<close>

definition sample_system :: vm_system where
  "sample_system = \<lparr>vm_nodes = [sample_node, sample_node\<lparr>vn_tag := ''tokyo''\<rparr>], vm_active = ''vmess-1'',
     vm_config_file = Some (empty_config\<lparr>cf_routing :=
       Some \<lparr>rt_rules = Some [Rule (Some ''vmess-1'') ''network=tcp,udp''], rt_rest = ''''\<rparr>\<rparr>),
     vm_remarks_file = None, vm_health = new_health_checker, vm_balancer = new_load_balancer,
     vm_process = new_v2rayn_process\<rparr>"

definition sample_env :: vm_env where
  "sample_env = \<lparr>ve_config_writable = True, ve_remarks_writable = True, ve_connect = (\<lambda>a p. (True, 20)),
     ve_now = 0, ve_gone_at = Some 1, ve_forked = 77\<rparr>"

lemma sample_tokyo_valid: "validate_node (sample_node\<lparr>vn_tag := ''tokyo''\<rparr>) True = None"
  by code_simp

lemma sample_managed: "managed (vm_nodes sample_system)"
  using sample_node_valid sample_tokyo_valid by (simp add: managed_def sample_system_def sample_node_def)

lemma sample_inv: "vm_inv sample_system"
  using sample_managed by (simp add: vm_inv_def sample_system_def)

lemma sample_rules:
  "rules_of (vm_config_file sample_system) = [Rule (Some ''vmess-1'') ''network=tcp,udp'']"
  "list_all is_rule (rules_of (vm_config_file sample_system))"
  "\<exists>r \<in> set (rules_of (vm_config_file sample_system)). is_default_rule r"
  by (simp_all add: sample_system_def rules_of_def is_rule_def vmess_prefixed_def)

section \<open>Properties\<close>

text \<open>
  C7: The table of nodes stays well formed: whatever nodes are added, changed, removed, imported,
  activated and applied, whatever is refused or throws in between, every node in it is valid, no two
  have the same tag, and there is at least one.
\<close>

theorem node_table_well_formed:
  assumes "vm_inv s"
  shows "managed (vm_nodes (fold vm_step es s)) \<and> vm_nodes (fold vm_step es s) \<noteq> []"
  using vm_run.run_inv [OF assms, of es] by (simp add: vm_inv_def)

theorem node_table_well_formed_witness:
  "managed (vm_nodes (fold vm_step [Remove sample_env ''tokyo'', Add sample_env sample_node,
     Update sample_env ''vmess-1'' (sample_node\<lparr>vn_port := 0\<rparr>), Set_active ''tokyo''] sample_system))"
  using node_table_well_formed [OF sample_inv] by blast

text \<open>
  C24: An operation that refuses has changed nothing: the table holds the same nodes, and the files, the
  active node and the components it calls are as they were.
\<close>

theorem refused_changes_nothing:
  assumes "vm_inv s" "fst (vm_op e s) = Refused err"
  shows "\<exists>ns. snd (vm_op e s) = s\<lparr>vm_nodes := ns\<rparr> \<and> mset ns = mset (vm_nodes s)"
  using vm_op_ends_well [OF assms(1), of e] assms(2)
  by (cases "vm_op e s") (auto simp: ends_well_def kept_def)

theorem refused_changes_nothing_witness:
  "\<exists>ns. snd (vm_op (Remove (sample_env\<lparr>ve_config_writable := False\<rparr>) ''vmess-1'') sample_system)
     = sample_system\<lparr>vm_nodes := ns\<rparr> \<and> mset ns = mset (vm_nodes sample_system)"
proof (rule refused_changes_nothing [OF sample_inv, where err = Config_unwritten])
  show "fst (vm_op (Remove (sample_env\<lparr>ve_config_writable := False\<rparr>) ''vmess-1'') sample_system) = Refused Config_unwritten"
    by code_simp
qed

lemma active_of_custom:
  assumes "\<not> vmess_prefixed active" "list_all is_rule rs"
  shows "active_of_rules (map (retag active) rs) old = Some old"
  using assms(2)
proof (induction rs)
  case (Cons r rs)
  then show ?case using assms(1) by (cases r) (auto simp: is_rule_def)
qed simp

text \<open>The remark a restart finds for a node: the table's, or what an older file has for its tag.\<close>

definition restarted :: "bool \<Rightarrow> (string \<rightharpoonup> string) option \<Rightarrow> vm_node \<Rightarrow> vm_node" where
  "restarted remarks_written older n = (if remarks_written then reloaded n else with_remark older (stored_part n))"

text \<open>The active tag a restart finds: only tags that begin with vmess- are read back from the rules.\<close>

definition restarted_active :: "vm_system \<Rightarrow> string" where
  "restarted_active s =
     (if vmess_prefixed (vm_active s) then vm_active s
      else if vm_nodes s = [] then '''' else vn_tag (hd (vm_nodes s)))"

lemma restarted_tag: "vn_tag (restarted w older n) = vn_tag n"
  by (simp add: restarted_def reloaded_def with_remark_def stored_part_def default_node_def split: option.split)

lemma load_built:
  assumes "managed (vm_nodes s)" "save_to_config env s = (Done, s1)"
  shows "\<exists>c. vm_config_file s1 = Some c
    \<and> map (with_remark (vm_remarks_file s1)) (case cf_outbounds c of None \<Rightarrow> [] | Some obs \<Rightarrow> loaded_nodes obs)
      = map (restarted (ve_remarks_writable env) (vm_remarks_file s)) (vm_nodes s)"
proof -
  from assms(2) obtain c where c: "build_full_config (vm_nodes s) (vm_config_file s) (vm_active s) = Some c"
    "s1 = s\<lparr>vm_config_file := Some c, vm_remarks_file :=
      (if ve_remarks_writable env then Some (remarks_of (vm_nodes s)) else vm_remarks_file s)\<rparr>"
    by (rule save_Done)
  have valid: "\<forall>n \<in> set (vm_nodes s). validate_node n True = None" using assms(1) by (simp add: managed_def)
  show ?thesis
  proof (cases "ve_remarks_writable env")
    case True
    with load_built_nodes [OF assms(1) c(1), of s1] c(2) show ?thesis by (simp add: restarted_def)
  next
    case False
    with built_outbounds [OF c(1)] loaded_built [OF valid] c(2) show ?thesis by (simp add: restarted_def)
  qed
qed

text \<open>
  C13: What is saved is what is loaded. For a table with an active node, where the file on disk has only
  proper rules, one of them with a tag that begins with vmess-, and can be written: the save succeeds and
  the next start loads every node, in order, with the settings its transport uses. If the file of the
  remarks was written too, every node has its remark; if not, which the save does not report, the remark
  is what that file had before. If the tag of the active node begins with vmess- the same node is active;
  if not, the save overwrites it in the rules and the start activates the first node instead.
\<close>

theorem saved_nodes_reload:
  assumes "managed (vm_nodes s)" "vm_active s \<noteq> ''''"
    and "list_all is_rule (rules_of (vm_config_file s))"
    and "\<exists>r \<in> set (rules_of (vm_config_file s)). is_default_rule r"
    and "ve_config_writable env"
  shows "fst (save_to_config env s) = Done
    \<and> (let s1 = (snd (save_to_config env s))\<lparr>vm_nodes := [], vm_active := ''''\<rparr>
       in load_from_config s1 = (Done, s1\<lparr>
            vm_nodes := map (restarted (ve_remarks_writable env) (vm_remarks_file s)) (vm_nodes s),
            vm_active := restarted_active s\<rparr>))"
proof -
  obtain s1 where s1: "save_to_config env s = (Done, s1)"
    "rules_of (vm_config_file s1) = map (retag (vm_active s)) (rules_of (vm_config_file s))"
    by (rule save_retags [OF assms(2,3,5,4)])
  let ?ns = "map (restarted (ve_remarks_writable env) (vm_remarks_file s)) (vm_nodes s)"
  obtain c where c: "vm_config_file s1 = Some c"
    "map (with_remark (vm_remarks_file s1)) (case cf_outbounds c of None \<Rightarrow> [] | Some obs \<Rightarrow> loaded_nodes obs) = ?ns"
    using load_built [OF assms(1) s1(1)] by blast
  define s2 where "s2 = s1\<lparr>vm_nodes := [], vm_active := ''''\<rparr>"
  have s2: "vm_config_file s2 = Some c" "vm_remarks_file s2 = vm_remarks_file s1" "vm_active s2 = ''''"
    by (simp_all add: s2_def c(1))
  have rules: "rules_of (vm_config_file s2) = map (retag (vm_active s)) (rules_of (vm_config_file s))"
    using s1(2) by (simp add: s2_def)
  have "load_from_config s2 = (Done, s2\<lparr>vm_nodes := ?ns, vm_active := restarted_active s\<rparr>)"
  proof (cases "vmess_prefixed (vm_active s)")
    case True
    then have "active_of_rules (rules_of (vm_config_file s2)) (vm_active s2) = Some (vm_active s)"
      using active_of_retagged [OF _ assms(3,4)] by (simp add: rules)
    from load_Done [OF s2(1) c(2) [folded s2(2)] this assms(2)] True show ?thesis
      by (simp add: restarted_active_def)
  next
    case False
    then have "active_of_rules (rules_of (vm_config_file s2)) '''' = Some ''''"
      using active_of_custom [OF _ assms(3)] by (simp add: rules)
    with False show ?thesis
      unfolding load_from_config_def s2(1) option.case Let_def c(2) [folded s2(2)] rules_loaded [OF s2(1)]
      by (simp add: s2 restarted_active_def hd_map restarted_tag)
  qed
  then show ?thesis by (simp add: s1(1) s2_def)
qed

theorem saved_nodes_reload_witness:
  "load_from_config ((snd (save_to_config sample_env sample_system))\<lparr>vm_nodes := [], vm_active := ''''\<rparr>)
     = (Done, (snd (save_to_config sample_env sample_system))\<lparr>vm_nodes := map reloaded (vm_nodes sample_system),
          vm_active := ''vmess-1''\<rparr>)"
proof -
  have env: "ve_config_writable sample_env" "ve_remarks_writable sample_env" by (simp_all add: sample_env_def)
  have active: "vm_active sample_system = ''vmess-1''" by (simp add: sample_system_def)
  have nodes: "map (restarted True older) ns = map reloaded ns" for older ns by (simp add: restarted_def)
  have "vmess_prefixed ''vmess-1''" by (simp add: vmess_prefixed_def)
  then have act: "restarted_active sample_system = ''vmess-1''" by (simp add: restarted_active_def active)
  have "vm_active sample_system \<noteq> ''''" by (simp add: active)
  from saved_nodes_reload [OF sample_managed this sample_rules(2,3) env(1)] env(2) act
  show ?thesis by (simp add: Let_def nodes)
qed



text \<open>
  An active node whose tag does not begin with vmess- disables the program: after two saves the file
  holds rules that neither the next save nor the next start can read, both end in an exception.
\<close>

theorem custom_tag_breaks_file:
  assumes "vm_active s \<noteq> ''''" "\<not> vmess_prefixed (vm_active s)"
    and "list_all is_rule (rules_of (vm_config_file s))"
    and "ve_config_writable env1" "ve_config_writable env2"
  shows "fst (save_to_config env1 s) = Done
    \<and> (let s1 = snd (save_to_config env1 s); s2 = snd (save_to_config env2 s1)
       in fst (save_to_config env3 s2) = Threw \<and> fst (load_from_config s2) = Threw)"
proof (cases "\<exists>r \<in> set (rules_of (vm_config_file s)). is_default_rule r")
  case False
  then have "fst (save_to_config env1 s) = Done" and broken: "broken_rules (snd (save_to_config env1 s))"
    using first_rule_broken [OF assms(1,3,4)] by blast+
  then obtain s1 where s1: "save_to_config env1 s = (Done, s1)" "vm_active s1 = vm_active s"
    by (cases rule: save_cases [of env1 s]) auto
  then have "broken_rules s1" "vm_active s1 \<noteq> ''''" using broken assms(1) by simp_all
  then show ?thesis using broken_save broken_load by (simp add: s1(1))
next
  case True
  then obtain s1 where s1: "save_to_config env1 s = (Done, s1)" "vm_active s1 = vm_active s"
    "rules_of (vm_config_file s1) = map (retag (vm_active s)) (rules_of (vm_config_file s))"
    by (metis save_retags assms(1,3,4))
  have "list_all is_rule (rules_of (vm_config_file s1))"
    using assms(3) by (simp add: s1(3) list_all_iff)
  moreover have "\<not> (\<exists>r \<in> set (rules_of (vm_config_file s1)). is_default_rule r)"
    using retag_custom [OF assms(2)] by (auto simp: s1(3))
  ultimately have step: "fst (save_to_config env2 s1) = Done" "broken_rules (snd (save_to_config env2 s1))"
    using first_rule_broken [of s1 env2] assms(1,5) s1(2) by simp_all
  then obtain s2 where s2: "save_to_config env2 s1 = (Done, s2)" "vm_active s2 = vm_active s"
    using s1(2) by (cases rule: save_cases [of env2 s1]) auto
  with step have "broken_rules s2" "vm_active s2 \<noteq> ''''" using assms(1) by simp_all
  then show ?thesis using broken_save broken_load by (simp add: s1(1) s2(1))
qed

theorem custom_tag_breaks_file_witness:
  "fst (save_to_config sample_env (sample_system\<lparr>vm_active := ''tokyo''\<rparr>)) = Done"
  using custom_tag_breaks_file [of "sample_system\<lparr>vm_active := ''tokyo''\<rparr>" sample_env sample_env] sample_rules(2)
  by (simp add: sample_env_def vmess_prefixed_def)

text \<open>
  C26: A removed node can stay the active one: where the active node is removed, the state still names it
  and the default rules in the written file send all traffic to an outbound that is no longer there.
\<close>

theorem removed_node_stays_active:
  assumes "managed (vm_nodes s)" "vmess_prefixed (vm_active s)"
    and "\<exists>r \<in> set (rules_of (vm_config_file s)). is_default_rule r"
    and "remove_node env (vm_active s) s = (Done, s1)"
  shows "vm_active s1 = vm_active s
    \<and> (\<exists>x. Rule (Some (vm_active s)) x \<in> set (rules_of (vm_config_file s1)))
    \<and> (\<forall>ob \<in> set (member_or [] (cf_outbounds (the (vm_config_file s1)))). ob_tag ob \<noteq> Some (vm_active s))"
proof -
  let ?s0 = "s\<lparr>vm_nodes := erase_first (vm_active s) (vm_nodes s)\<rparr>"
  have active: "vm_active s \<noteq> ''''" using assms(2) by (auto simp: vmess_prefixed_def)
  obtain s2 where s2: "save_to_config env ?s0 = (Done, s2)"
    "vm_active s1 = vm_active s2" "vm_config_file s1 = vm_config_file s2"
    by (rule remove_Done [OF assms(4)])
  obtain c where c0: "build_full_config (vm_nodes ?s0) (vm_config_file ?s0) (vm_active ?s0) = Some c"
    "s2 = ?s0\<lparr>vm_config_file := Some c,
       vm_remarks_file := (if ve_remarks_writable env then Some (remarks_of (vm_nodes ?s0)) else vm_remarks_file ?s0)\<rparr>"
    by (rule save_Done [OF s2(1)])
  have c: "build_full_config (erase_first (vm_active s) (vm_nodes s)) (vm_config_file s) (vm_active s) = Some c"
    "vm_config_file s2 = Some c" "vm_active s2 = vm_active s"
    using c0 by simp_all
  have rules: "rules_of (Some c) = map (retag (vm_active s)) (rules_of (vm_config_file s))"
    by (rule built_rules [OF c(1) active assms(3)])
  obtain r where r: "r \<in> set (rules_of (vm_config_file s))" "is_default_rule r" using assms(3) by blast
  obtain tag x where x: "r = Rule tag x" using r(2) by (cases r rule: rule_doc.exhaust) auto
  have "retag (vm_active s) r \<in> set (rules_of (Some c))" unfolding rules using r(1) by simp
  then have "Rule (Some (vm_active s)) x \<in> set (rules_of (Some c))" using r(2) by (simp add: x)
  moreover have "ob_tag ob \<noteq> Some (vm_active s)" if "ob \<in> set (member_or [] (cf_outbounds c))" for ob
  proof -
    have "\<forall>n \<in> set (erase_first (vm_active s) (vm_nodes s)). vn_tag n \<noteq> vm_active s"
      using erase_first_gone [OF assms(1), of "vm_active s"] by (metis imageI)
    moreover have "vm_active s \<noteq> ''direct''" "vm_active s \<noteq> ''block''"
      using assms(2) by (auto simp: vmess_prefixed_def)
    ultimately show ?thesis
      using that by (auto simp: built_outbounds [OF c(1)] build_vmess_outbound_def plain_outbound_def)
  qed
  ultimately show ?thesis using s2(2,3) c(2,3) by auto
qed

theorem removed_node_stays_active_witness:
  "vm_active (snd (remove_node sample_env ''vmess-1'' sample_system)) = ''vmess-1''"
proof -
  have "fst (remove_node sample_env (vm_active sample_system) sample_system) = Done" by code_simp
  then have "remove_node sample_env (vm_active sample_system) sample_system
      = (Done, snd (remove_node sample_env (vm_active sample_system) sample_system))"
    by (metis prod.collapse)
  from removed_node_stays_active [OF sample_managed _ sample_rules(3) this]
  show ?thesis by (simp add: sample_system_def vmess_prefixed_def)
qed

text \<open>
  C34: The search for a free tag ends: it finds the least number whose tag no node has, after at most one
  more attempt than there are nodes.
\<close>

theorem auto_tag_least_free:
  "\<exists>k \<ge> 1. k \<le> length (vm_nodes s) + 1 \<and> generate_auto_tag s = ''vmess-'' @ to_string (int k)
     \<and> (\<forall>n \<in> set (vm_nodes s). vn_tag n \<noteq> ''vmess-'' @ to_string (int k))
     \<and> (\<forall>j. 1 \<le> j \<and> j < k \<longrightarrow> (\<exists>n \<in> set (vm_nodes s). vn_tag n = ''vmess-'' @ to_string (int j)))"
proof -
  obtain k where k: "1 \<le> k" "generate_auto_tag s = numbered_tag k" "numbered_tag k \<notin> vn_tag ` set (vm_nodes s)"
    "\<forall>j. 1 \<le> j \<and> j < k \<longrightarrow> numbered_tag j \<in> vn_tag ` set (vm_nodes s)"
    using auto_tag_least [of 1 "vm_nodes s"] unfolding generate_auto_tag_def by metis
  have "numbered_tag ` {1..<k} \<subseteq> vn_tag ` set (vm_nodes s)" using k(4) by auto
  then have "card (numbered_tag ` {1..<k}) \<le> card (vn_tag ` set (vm_nodes s))" by (intro card_mono) auto
  also have "\<dots> \<le> length (vm_nodes s)" by (meson card_image_le card_length finite_set le_trans)
  finally have "k - 1 \<le> length (vm_nodes s)"
    by (simp add: card_image inj_on_def numbered_tag_inj)
  then have "k \<le> length (vm_nodes s) + 1" by linarith
  moreover have "\<forall>n \<in> set (vm_nodes s). vn_tag n \<noteq> numbered_tag k" using k(3) by (metis imageI)
  moreover have "\<forall>j. 1 \<le> j \<and> j < k \<longrightarrow> (\<exists>n \<in> set (vm_nodes s). vn_tag n = numbered_tag j)"
    using k(4) by (metis imageE)
  ultimately show ?thesis using k(1,2) unfolding numbered_tag_def by metis
qed

theorem auto_tag_least_free_witness:
  "\<exists>k \<ge> 1. k \<le> 3 \<and> generate_auto_tag sample_system = ''vmess-'' @ to_string (int k)"
  using auto_tag_least_free [of sample_system] by (auto simp: sample_system_def)

end
