(* ===== verification/Json.thy ===== *)
theory Json
  imports Complex_Main Prelude
begin

text \<open>
  Parsed JSON documents, for the parts of the program that read and write documents of any shape: the
  configuration of the gateway and the management interface. Only the accessors the code uses are
  here, with what they do at a member that is missing or has another type: \<open>None\<close> is the exception
  they throw. An object is the list of its members, each name once.
\<close>

datatype json =
  JNull | JBool bool | JInt int | JReal rat | JStr string | JArr "json list" | JObj "(string \<times> json) list"

section \<open>Members\<close>

text \<open>\<^verbatim>\<open>contains(key)\<close> with \<^verbatim>\<open>operator[]\<close>: \<open>None\<close> where there is no object or no such member.\<close>

fun jmember :: "string \<Rightarrow> json \<Rightarrow> json option" where
  "jmember key (JObj ms) = map_of ms key"
| "jmember key _ = None"

fun is_object :: "json \<Rightarrow> bool" where
  "is_object (JObj ms) = True"
| "is_object _ = False"

text \<open>The values a range-based \<^verbatim>\<open>for\<close> visits: of an array, of an object, and a scalar as itself.\<close>

fun jelems :: "json \<Rightarrow> json list" where
  "jelems (JArr xs) = xs"
| "jelems (JObj ms) = map snd ms"
| "jelems JNull = []"
| "jelems j = [j]"

section \<open>Conversions\<close>

fun get_string :: "json \<Rightarrow> string option" where
  "get_string (JStr s) = Some s"
| "get_string _ = None"

fun get_bool :: "json \<Rightarrow> bool option" where
  "get_bool (JBool b) = Some b"
| "get_bool _ = None"

text \<open>\<^verbatim>\<open>get<int>\<close> takes every number, its fraction cut off, and a truth value; 64-bit numbers are reduced.\<close>

definition truncate_rat :: "rat \<Rightarrow> int" where
  "truncate_rat r = (if r < 0 then - \<lfloor>- r\<rfloor> else \<lfloor>r\<rfloor>)"

fun get_int :: "json \<Rightarrow> int option" where
  "get_int (JInt i) = Some (to_int32 i)"
| "get_int (JBool b) = Some (if b then 1 else 0)"
| "get_int (JReal r) = Some (to_int32 (truncate_rat r))"
| "get_int _ = None"

text \<open>\<^verbatim>\<open>get<double>\<close>: the rational is the value of the double.\<close>

fun get_real :: "json \<Rightarrow> rat option" where
  "get_real (JInt i) = Some (of_int i)"
| "get_real (JReal r) = Some r"
| "get_real _ = None"

text \<open>\<^verbatim>\<open>value(key, default)\<close>: it throws on anything but an object, and at a member of the wrong type.\<close>

definition jvalue :: "(json \<Rightarrow> 'a option) \<Rightarrow> string \<Rightarrow> 'a \<Rightarrow> json \<Rightarrow> 'a option" where
  "jvalue get key d j =
     (if is_object j then (case jmember key j of None \<Rightarrow> Some d | Some v \<Rightarrow> get v) else None)"

text \<open>
  \<^verbatim>\<open>j["key"]\<close> on a document that may change: a missing member is null, the null document becomes an
  object, and everything else but an object throws.
\<close>

definition jindex :: "string \<Rightarrow> json \<Rightarrow> json option" where
  "jindex key j =
     (case j of JObj ms \<Rightarrow> Some (case map_of ms key of None \<Rightarrow> JNull | Some v \<Rightarrow> v) | JNull \<Rightarrow> Some JNull | _ \<Rightarrow> None)"

text \<open>All elements converted, or \<open>None\<close> where one throws.\<close>

fun get_all :: "(json \<Rightarrow> 'a option) \<Rightarrow> json list \<Rightarrow> 'a list option" where
  "get_all get [] = Some []"
| "get_all get (j # js) =
     (case get j of None \<Rightarrow> None | Some x \<Rightarrow> map_option (\<lambda>xs. x # xs) (get_all get js))"

section \<open>Laws\<close>

lemma get_int_id: "-2147483648 \<le> i \<Longrightarrow> i < 2147483648 \<Longrightarrow> get_int (JInt i) = Some i"
  by (simp add: to_int32_id)

lemma get_int_bounds: "get_int j = Some i \<Longrightarrow> -2147483648 \<le> i \<and> i < 2147483648"
  using to_int32_bounds by (cases j) auto

lemma get_all_map: "(\<And>x. get (f x) = Some x) \<Longrightarrow> get_all get (map f xs) = Some xs"
  by (induction xs) simp_all

end
