(* ===== verification/Config_Loader.thy ===== *)
theory Config_Loader
  imports Json Web_Auth
begin

text \<open>
  \<^verbatim>\<open>src/src/config_manager/config_loader.cpp\<close>: the settings of the gateway, read from a JSON file and
  the command line, checked and written back; and the beginning of \<^verbatim>\<open>main\<close>, which puts them to use. A
  file is missing, does not parse, or holds a document; the random numbers are an argument.
\<close>

section \<open>Settings\<close>

record system_config =
  sc_proxy_port :: int
  sc_web_ui_port :: int
  sc_web_ui_https_enabled :: bool
  sc_default_route_action :: string
  sc_proxy_thread_count :: int
  sc_v2rayn_executable_path :: string
  sc_v2rayn_config_path :: string
  sc_v2rayn_local_socks_port :: int
  sc_v2rayn_local_http_port :: int
  sc_admin_username :: string
  sc_admin_password_hash :: string
  sc_jwt_secret :: string
  sc_log_file_path :: string
  sc_user_data_path :: string
  sc_geoip_db_path :: string
  sc_builtin_rules_path :: string
  sc_custom_rules_path :: string
  sc_cert_path :: string
  sc_key_path :: string
  sc_fd_threshold_pct :: rat
  sc_mem_threshold_pct :: rat
  sc_max_total_connections :: int
  sc_max_per_user :: int
  sc_max_conn_per_ip_per_sec :: int
  sc_max_auth_fails_per_min :: int
  sc_ban_duration_sec :: int
  sc_schedule_strategy :: string
  sc_ip_affinity_enabled :: bool
  sc_ip_affinity_timeout_sec :: int
  sc_ip_affinity_max_records :: int
  sc_node_capacity_threshold :: int
  sc_health_check_interval_sec :: int
  sc_health_probe_timeout_sec :: int
  sc_health_failure_threshold :: int
  sc_idle_timeout_sec :: int

definition default_config :: system_config where
  "default_config = \<lparr>
     sc_proxy_port = 10800,
     sc_web_ui_port = 8080,
     sc_web_ui_https_enabled = True,
     sc_default_route_action = ''proxy'',
     sc_proxy_thread_count = 4,
     sc_v2rayn_executable_path = ''/home/debian/LanProxySerCli/v2rayn/v2ray'',
     sc_v2rayn_config_path = ''/home/debian/LanProxySerCli/v2rayn/config.json'',
     sc_v2rayn_local_socks_port = 10808,
     sc_v2rayn_local_http_port = 10809,
     sc_admin_username = ''admin'',
     sc_admin_password_hash = '''',
     sc_jwt_secret = '''',
     sc_log_file_path = ''/home/debian/LanProxySerCli/logs/'',
     sc_user_data_path = ''/home/debian/LanProxySerCli/data/users.json'',
     sc_geoip_db_path = ''/home/debian/LanProxySerCli/data/GeoLite2-Country.mmdb'',
     sc_builtin_rules_path = ''/home/debian/LanProxySerCli/data/builtin_rules.json'',
     sc_custom_rules_path = ''/home/debian/LanProxySerCli/data/custom_rules.json'',
     sc_cert_path = ''/home/debian/LanProxySerCli/config/cert.pem'',
     sc_key_path = ''/home/debian/LanProxySerCli/config/key.pem'',
     sc_fd_threshold_pct = 9 / 10,
     sc_mem_threshold_pct = 85 / 100,
     sc_max_total_connections = 4000,
     sc_max_per_user = 50,
     sc_max_conn_per_ip_per_sec = 10,
     sc_max_auth_fails_per_min = 5,
     sc_ban_duration_sec = 60,
     sc_schedule_strategy = ''round_robin'',
     sc_ip_affinity_enabled = True,
     sc_ip_affinity_timeout_sec = 300,
     sc_ip_affinity_max_records = 10000,
     sc_node_capacity_threshold = 1000,
     sc_health_check_interval_sec = 10,
     sc_health_probe_timeout_sec = 5,
     sc_health_failure_threshold = 3,
     sc_idle_timeout_sec = 300\<rparr>"

text \<open>
  A member of the file: its name, how \<^verbatim>\<open>m_config.x = j["x"]\<close> converts and assigns it (\<open>None\<close> where the
  conversion throws), and what \<^verbatim>\<open>j["x"] = m_config.x\<close> writes.
\<close>

type_synonym config_field = "string \<times> (json \<Rightarrow> system_config \<Rightarrow> system_config option) \<times> (system_config \<Rightarrow> json)"

definition typed_field ::
    "(json \<Rightarrow> 'a option) \<Rightarrow> ('a \<Rightarrow> json) \<Rightarrow> string \<Rightarrow> (system_config \<Rightarrow> 'a)
     \<Rightarrow> (('a \<Rightarrow> 'a) \<Rightarrow> system_config \<Rightarrow> system_config) \<Rightarrow> config_field" where
  "typed_field get put key sel upd = (key, \<lambda>j c. map_option (\<lambda>x. upd (\<lambda>_. x) c) (get j), \<lambda>c. put (sel c))"

abbreviation int_field where "int_field \<equiv> typed_field get_int JInt"
abbreviation bool_field where "bool_field \<equiv> typed_field get_bool JBool"
abbreviation real_field where "real_field \<equiv> typed_field get_real JReal"
abbreviation string_field where "string_field \<equiv> typed_field get_string JStr"

definition config_fields :: "config_field list" where
  "config_fields =
    [int_field ''proxy_port'' sc_proxy_port sc_proxy_port_update,
     int_field ''web_ui_port'' sc_web_ui_port sc_web_ui_port_update,
     bool_field ''web_ui_https_enabled'' sc_web_ui_https_enabled sc_web_ui_https_enabled_update,
     string_field ''default_route_action'' sc_default_route_action sc_default_route_action_update,
     int_field ''proxy_thread_count'' sc_proxy_thread_count sc_proxy_thread_count_update,
     string_field ''v2rayn_executable_path'' sc_v2rayn_executable_path sc_v2rayn_executable_path_update,
     string_field ''v2rayn_config_path'' sc_v2rayn_config_path sc_v2rayn_config_path_update,
     int_field ''v2rayn_local_socks_port'' sc_v2rayn_local_socks_port sc_v2rayn_local_socks_port_update,
     int_field ''v2rayn_local_http_port'' sc_v2rayn_local_http_port sc_v2rayn_local_http_port_update,
     string_field ''admin_username'' sc_admin_username sc_admin_username_update,
     string_field ''admin_password_hash'' sc_admin_password_hash sc_admin_password_hash_update,
     string_field ''jwt_secret'' sc_jwt_secret sc_jwt_secret_update,
     string_field ''log_file_path'' sc_log_file_path sc_log_file_path_update,
     string_field ''user_data_path'' sc_user_data_path sc_user_data_path_update,
     string_field ''geoip_db_path'' sc_geoip_db_path sc_geoip_db_path_update,
     string_field ''builtin_rules_path'' sc_builtin_rules_path sc_builtin_rules_path_update,
     string_field ''custom_rules_path'' sc_custom_rules_path sc_custom_rules_path_update,
     string_field ''cert_path'' sc_cert_path sc_cert_path_update,
     string_field ''key_path'' sc_key_path sc_key_path_update,
     real_field ''fd_threshold_pct'' sc_fd_threshold_pct sc_fd_threshold_pct_update,
     real_field ''mem_threshold_pct'' sc_mem_threshold_pct sc_mem_threshold_pct_update,
     int_field ''max_total_connections'' sc_max_total_connections sc_max_total_connections_update,
     int_field ''max_per_user'' sc_max_per_user sc_max_per_user_update,
     int_field ''max_conn_per_ip_per_sec'' sc_max_conn_per_ip_per_sec sc_max_conn_per_ip_per_sec_update,
     int_field ''max_auth_fails_per_min'' sc_max_auth_fails_per_min sc_max_auth_fails_per_min_update,
     int_field ''ban_duration_sec'' sc_ban_duration_sec sc_ban_duration_sec_update,
     string_field ''schedule_strategy'' sc_schedule_strategy sc_schedule_strategy_update,
     bool_field ''ip_affinity_enabled'' sc_ip_affinity_enabled sc_ip_affinity_enabled_update,
     int_field ''ip_affinity_timeout_sec'' sc_ip_affinity_timeout_sec sc_ip_affinity_timeout_sec_update,
     int_field ''ip_affinity_max_records'' sc_ip_affinity_max_records sc_ip_affinity_max_records_update,
     int_field ''node_capacity_threshold'' sc_node_capacity_threshold sc_node_capacity_threshold_update,
     int_field ''health_check_interval_sec'' sc_health_check_interval_sec sc_health_check_interval_sec_update,
     int_field ''health_probe_timeout_sec'' sc_health_probe_timeout_sec sc_health_probe_timeout_sec_update,
     int_field ''health_failure_threshold'' sc_health_failure_threshold sc_health_failure_threshold_update,
     int_field ''idle_timeout_sec'' sc_idle_timeout_sec sc_idle_timeout_sec_update]"

section \<open>Loading\<close>

datatype config_file = Missing_file | Malformed | Document json

text \<open>\<open>cl_draws\<close> counts the random numbers that were drawn.\<close>

record config_loader =
  cl_config :: system_config
  cl_path :: string
  cl_draws :: nat

definition new_config_loader :: config_loader where
  "new_config_loader = \<lparr>cl_config = default_config, cl_path = '''', cl_draws = 0\<rparr>"

text \<open>The assignments in order; the first conversion that throws ends them, what was assigned stays.\<close>

fun read_fields :: "config_field list \<Rightarrow> json \<Rightarrow> system_config \<Rightarrow> bool \<times> system_config" where
  "read_fields [] j c = (True, c)"
| "read_fields ((key, put, get) # fs) j c =
     (case jmember key j of
        None \<Rightarrow> read_fields fs j c
      | Some v \<Rightarrow> (case put v c of None \<Rightarrow> (False, c) | Some c1 \<Rightarrow> read_fields fs j c1))"

text \<open>\<^verbatim>\<open>%08x\<close> of a 32-bit number.\<close>

definition hex8 :: "nat \<Rightarrow> string" where
  "hex8 n = map (\<lambda>i. hex_digit (n div 16 ^ (7 - i) mod 16)) [0..<8]"

definition generate_secret :: "(nat \<Rightarrow> nat) \<Rightarrow> config_loader \<Rightarrow> config_loader" where
  "generate_secret rnd cl =
     (if sc_jwt_secret (cl_config cl) = ''''
      then cl\<lparr>cl_config := (cl_config cl)\<lparr>sc_jwt_secret :=
                concat (map (\<lambda>i. hex8 (rnd (cl_draws cl + i))) [0..<8])\<rparr>,
              cl_draws := cl_draws cl + 8\<rparr>
      else cl)"

definition contains_placeholder :: "string \<Rightarrow> bool" where
  "contains_placeholder s \<longleftrightarrow> find_sub ''placeholder'' 0 s \<noteq> None"

definition config_load ::
    "(string \<Rightarrow> config_file) \<Rightarrow> (nat \<Rightarrow> nat) \<Rightarrow> crypto \<Rightarrow> string \<Rightarrow> config_loader \<Rightarrow> bool \<times> config_loader" where
  "config_load fs rnd cx filepath cl0 =
     (let cl = cl0\<lparr>cl_path := filepath\<rparr>
      in case fs filepath of
           Missing_file \<Rightarrow>
             let cl1 = generate_secret rnd cl; h = sc_admin_password_hash (cl_config cl1)
             in (False,
                 if h = '''' \<or> contains_placeholder h
                 then cl1\<lparr>cl_config := (cl_config cl1)\<lparr>sc_admin_password_hash := password_hash cx ''changeme''\<rparr>\<rparr>
                 else cl1)
         | Malformed \<Rightarrow> (False, cl)
         | Document j \<Rightarrow>
             (case read_fields config_fields j (cl_config cl) of
                (False, c) \<Rightarrow> (False, cl\<lparr>cl_config := c\<rparr>)
              | (True, c) \<Rightarrow> (True, generate_secret rnd (cl\<lparr>cl_config := c\<rparr>))))"

section \<open>Saving and validating\<close>

definition config_document :: "system_config \<Rightarrow> json" where
  "config_document c = JObj (map (\<lambda>f. (fst f, snd (snd f) c)) config_fields)"

text \<open>The two outcomes: whether the temporary file can be written, and whether it can be renamed.\<close>

definition config_save ::
    "bool \<Rightarrow> bool \<Rightarrow> config_loader \<Rightarrow> (string \<Rightarrow> config_file) \<Rightarrow> bool \<times> (string \<Rightarrow> config_file)" where
  "config_save opens renames cl fs =
     (if cl_path cl = '''' then (False, fs)
      else if \<not> opens then (False, fs)
      else if \<not> renames then (False, fs(cl_path cl @ ''.tmp'' := Document (config_document (cl_config cl))))
      else (True, fs(cl_path cl := Document (config_document (cl_config cl)), cl_path cl @ ''.tmp'' := Missing_file)))"

definition port_ok :: "int \<Rightarrow> bool" where
  "port_ok p \<longleftrightarrow> \<not> (p < 1 \<or> p > 65535)"

definition config_validate :: "system_config \<Rightarrow> bool" where
  "config_validate c \<longleftrightarrow>
     port_ok (sc_proxy_port c) \<and> port_ok (sc_web_ui_port c) \<and> port_ok (sc_v2rayn_local_socks_port c)
     \<and> port_ok (sc_v2rayn_local_http_port c) \<and> \<not> sc_proxy_thread_count c < 1
     \<and> sc_admin_username c \<noteq> '''' \<and> sc_jwt_secret c \<noteq> '''' \<and> sc_admin_password_hash c \<noteq> ''''
     \<and> \<not> contains_placeholder (sc_admin_password_hash c)
     \<and> (sc_default_route_action c = ''direct'' \<or> sc_default_route_action c = ''proxy'')"

section \<open>The command line\<close>

datatype cli_end = Cli_exit | Cli_throws

text \<open>The arguments behind the program's name; \<open>Inl\<close> where the program ends.\<close>

function apply_cli_overrides ::
    "(string \<Rightarrow> config_file) \<Rightarrow> (nat \<Rightarrow> nat) \<Rightarrow> crypto \<Rightarrow> string list \<Rightarrow> config_loader
     \<Rightarrow> cli_end + config_loader" where
  "apply_cli_overrides fs rnd cx [] cl = Inr cl"
| "apply_cli_overrides fs rnd cx (arg # args) cl =
     (if arg = ''--config'' \<and> args \<noteq> [] then
        apply_cli_overrides fs rnd cx (tl args) (snd (config_load fs rnd cx (hd args) cl))
      else if arg = ''--proxy-port'' \<and> args \<noteq> [] then
        (case stoi (hd args) of
           None \<Rightarrow> Inl Cli_throws
         | Some p \<Rightarrow> apply_cli_overrides fs rnd cx (tl args)
                      (cl\<lparr>cl_config := (cl_config cl)\<lparr>sc_proxy_port := p\<rparr>\<rparr>))
      else if arg = ''--web-port'' \<and> args \<noteq> [] then
        (case stoi (hd args) of
           None \<Rightarrow> Inl Cli_throws
         | Some p \<Rightarrow> apply_cli_overrides fs rnd cx (tl args)
                      (cl\<lparr>cl_config := (cl_config cl)\<lparr>sc_web_ui_port := p\<rparr>\<rparr>))
      else if arg = ''--help'' then Inl Cli_exit
      else apply_cli_overrides fs rnd cx args cl)"
  by pat_completeness auto
termination by (relation "measure (\<lambda>(fs, rnd, cx, args, cl). length args)") auto

fun config_path_of :: "string list \<Rightarrow> string \<Rightarrow> string" where
  "config_path_of [] path = path"
| "config_path_of [arg] path = path"
| "config_path_of (arg # arg' # args) path =
     (if arg = ''--config'' then config_path_of args arg' else config_path_of (arg' # args) path)"

text \<open>
  How \<^verbatim>\<open>main\<close> begins: the command line, then the file once more. What it goes on with is the settings,
  whether or not they validate.
\<close>

definition startup_config ::
    "(string \<Rightarrow> config_file) \<Rightarrow> (nat \<Rightarrow> nat) \<Rightarrow> crypto \<Rightarrow> string list \<Rightarrow> cli_end + (bool \<times> config_loader)" where
  "startup_config fs rnd cx args =
     (case apply_cli_overrides fs rnd cx args new_config_loader of
        Inl e \<Rightarrow> Inl e
      | Inr cl \<Rightarrow>
          let cl1 = snd (config_load fs rnd cx (config_path_of args ''config/default_system.json'') cl)
          in Inr (config_validate (cl_config cl1), cl1))"

section \<open>Types of the settings\<close>

definition int32 :: "int \<Rightarrow> bool" where
  "int32 i \<longleftrightarrow> -2147483648 \<le> i \<and> i < 2147483648"

definition config_wf :: "system_config \<Rightarrow> bool" where
  "config_wf c \<longleftrightarrow> list_all int32
       [sc_proxy_port c,
        sc_web_ui_port c,
        sc_proxy_thread_count c,
        sc_v2rayn_local_socks_port c,
        sc_v2rayn_local_http_port c,
        sc_max_total_connections c,
        sc_max_per_user c,
        sc_max_conn_per_ip_per_sec c,
        sc_max_auth_fails_per_min c,
        sc_ban_duration_sec c,
        sc_ip_affinity_timeout_sec c,
        sc_ip_affinity_max_records c,
        sc_node_capacity_threshold c,
        sc_health_check_interval_sec c,
        sc_health_probe_timeout_sec c,
        sc_health_failure_threshold c,
        sc_idle_timeout_sec c]"

text \<open>A field keeps the types where assigning a value that was read does.\<close>

definition keeps_wf :: "config_field \<Rightarrow> bool" where
  "keeps_wf f \<longleftrightarrow> (\<forall>j c c'. fst (snd f) j c = Some c' \<longrightarrow> config_wf c \<longrightarrow> config_wf c')"

lemma get_int_int32: "get_int j = Some i \<Longrightarrow> int32 i"
  unfolding int32_def by (rule get_int_bounds)

lemma int_field_wf:
  "(\<And>x c. int32 x \<Longrightarrow> config_wf c \<Longrightarrow> config_wf (upd (\<lambda>_. x) c)) \<Longrightarrow> keeps_wf (int_field key sel upd)"
  by (auto simp: keeps_wf_def typed_field_def dest: get_int_int32)

lemma other_field_wf:
  "(\<And>x c. config_wf c \<Longrightarrow> config_wf (upd (\<lambda>_. x) c)) \<Longrightarrow> keeps_wf (typed_field get put key sel upd)"
  by (auto simp: keeps_wf_def typed_field_def)

lemma config_fields_wf: "list_all keeps_wf config_fields"
  unfolding config_fields_def list.pred_inject
  by (intro conjI TrueI)
    ((rule int_field_wf, simp add: config_wf_def | rule other_field_wf, simp add: config_wf_def | simp)+)

lemma read_fields_wf: "list_all keeps_wf fs \<Longrightarrow> config_wf c \<Longrightarrow> config_wf (snd (read_fields fs j c))"
proof (induction fs j c rule: read_fields.induct)
  case (2 key put get fs j c)
  show ?case
  proof (cases "jmember key j")
    case None
    with 2 show ?thesis by simp
  next
    case (Some v)
    show ?thesis
    proof (cases "put v c")
      case None
      with Some 2 show ?thesis by simp
    next
      case (Some c1)
      with 2(3,4) have "config_wf c1" by (simp add: keeps_wf_def)
      with 2 Some \<open>jmember key j = Some v\<close> show ?thesis by simp
    qed
  qed
qed simp

lemma config_wf_strings [simp]:
  "config_wf (c\<lparr>sc_jwt_secret := s\<rparr>) = config_wf c" "config_wf (c\<lparr>sc_admin_password_hash := s\<rparr>) = config_wf c"
  by (simp_all add: config_wf_def)

lemma generate_secret_wf: "config_wf (cl_config cl) \<Longrightarrow> config_wf (cl_config (generate_secret rnd cl))"
  by (simp add: generate_secret_def)

lemma config_load_wf:
  assumes "config_wf (cl_config cl)"
  shows "config_wf (cl_config (snd (config_load fs rnd cx path cl)))"
proof (cases "fs path")
  case (Document j)
  then show ?thesis
    using read_fields_wf [OF config_fields_wf assms, of j]
    by (cases "read_fields config_fields j (cl_config cl)")
      (auto simp: config_load_def Let_def generate_secret_wf split: bool.splits)
qed (use assms in \<open>simp_all add: config_load_def Let_def generate_secret_wf\<close>)

section \<open>Reading what was written\<close>

lemma read_fields_written:
  assumes "distinct (map fst all)" "set fs \<subseteq> set all"
    and "\<forall>f \<in> set fs. \<forall>c'. fst (snd f) (snd (snd f) c) c' \<noteq> None"
  shows "read_fields fs (JObj (map (\<lambda>f. (fst f, snd (snd f) c)) all)) c0
    = (True, fold (\<lambda>f c'. the (fst (snd f) (snd (snd f) c) c')) fs c0)"
  using assms(2,3)
proof (induction fs arbitrary: c0)
  case (Cons f fs)
  obtain key put get where f: "f = (key, put, get)" by (cases f) auto
  have member: "map_of (map (\<lambda>f. (fst f, snd (snd f) c)) all) key = Some (get c)"
  proof (rule map_of_is_SomeI)
    show "distinct (map fst (map (\<lambda>f. (fst f, snd (snd f) c)) all))" using assms(1) by (simp add: comp_def)
    show "(key, get c) \<in> set (map (\<lambda>f. (fst f, snd (snd f) c)) all)" using Cons(2) f by force
  qed
  have "\<forall>c'. put (get c) c' \<noteq> None" using Cons(3) by (simp add: f)
  then obtain c1 where c1: "put (get c) c0 = Some c1" by blast
  have "read_fields fs (JObj (map (\<lambda>f. (fst f, snd (snd f) c)) all)) c1
      = (True, fold (\<lambda>f c'. the (fst (snd f) (snd (snd f) c) c')) fs c1)"
    using Cons(2,3) by (intro Cons(1)) simp_all
  then show ?case by (simp add: f member c1)
qed simp

lemma distinct_config_fields: "distinct (map fst config_fields)"
  by (simp add: config_fields_def typed_field_def)

lemma int_field_sound: "int32 (sel c) \<Longrightarrow> fst (snd (int_field key sel upd)) (snd (snd (int_field key sel upd)) c) c' = Some (upd (\<lambda>_. sel c) c')"
  by (simp add: typed_field_def int32_def to_int32_id)

lemma other_field_sound:
  "fst (snd (bool_field key sel1 upd1)) (snd (snd (bool_field key sel1 upd1)) c) c' = Some (upd1 (\<lambda>_. sel1 c) c')"
  "fst (snd (real_field key sel2 upd2)) (snd (snd (real_field key sel2 upd2)) c) c' = Some (upd2 (\<lambda>_. sel2 c) c')"
  "fst (snd (string_field key sel3 upd3)) (snd (snd (string_field key sel3 upd3)) c) c' = Some (upd3 (\<lambda>_. sel3 c) c')"
  by (simp_all add: typed_field_def)

lemma config_fields_total:
  assumes "config_wf c"
  shows "\<forall>f \<in> set config_fields. \<forall>c'. fst (snd f) (snd (snd f) c) c' \<noteq> None"
  using assms unfolding config_wf_def config_fields_def
  by (simp add: int_field_sound other_field_sound)

lemma config_fields_restore:
  assumes "config_wf c"
  shows "fold (\<lambda>f c'. the (fst (snd f) (snd (snd f) c) c')) config_fields c0 = c"
proof -
  show ?thesis
    using assms unfolding config_wf_def config_fields_def
    by (simp only: fold_simps list.pred_inject int_field_sound other_field_sound option.sel)
      (rule system_config.equality; simp)
qed

section \<open>Starting\<close>

text \<open>Fields that leave a part of the settings alone.\<close>

definition spares :: "(system_config \<Rightarrow> 'a) \<Rightarrow> config_field \<Rightarrow> bool" where
  "spares sel f \<longleftrightarrow> (\<forall>j c c'. fst (snd f) j c = Some c' \<longrightarrow> sel c' = sel c)"

lemma read_fields_spares: "list_all (spares sel) fs \<Longrightarrow> sel (snd (read_fields fs j c)) = sel c"
  by (induction fs j c rule: read_fields.induct) (auto simp: spares_def split: option.splits)

lemma spares_field:
  "(\<And>x c. sel' (upd (\<lambda>_. x) c) = sel' c) \<Longrightarrow> spares sel' (typed_field get put key sel upd)"
  by (auto simp: spares_def typed_field_def)

lemma other_fields_spare_port: "list_all (spares sc_proxy_port) (tl config_fields)"
  unfolding config_fields_def list.sel list.pred_inject
  by (intro conjI TrueI) ((rule spares_field, simp | simp)+)

lemma read_port_field:
  assumes "jmember ''proxy_port'' j = Some (JInt q)"
  shows "sc_proxy_port (snd (read_fields config_fields j c)) = to_int32 q"
proof -
  have first: "config_fields = int_field ''proxy_port'' sc_proxy_port sc_proxy_port_update # tl config_fields"
    unfolding config_fields_def list.sel by (rule refl)
  have "read_fields config_fields j c = read_fields (tl config_fields) j (c\<lparr>sc_proxy_port := to_int32 q\<rparr>)"
    by (subst first) (simp add: assms typed_field_def)
  then show ?thesis using read_fields_spares [OF other_fields_spare_port] by simp
qed

lemma generate_secret_frame [simp]: "sc_proxy_port (cl_config (generate_secret rnd cl)) = sc_proxy_port (cl_config cl)"
  by (simp add: generate_secret_def)

lemma length_hex8: "length (hex8 n) = 8"
  by (simp add: hex8_def)

lemma generated_secret: "sc_jwt_secret (cl_config (generate_secret rnd cl)) \<noteq> ''''"
proof -
  have "hex8 n \<noteq> []" for n using length_hex8 [of n] by auto
  then show ?thesis by (auto simp: generate_secret_def upt_rec)
qed

lemma load_Document:
  "fs path = Document j
   \<Longrightarrow> sc_proxy_port (cl_config (snd (config_load fs rnd cx path cl))) = sc_proxy_port (snd (read_fields config_fields j (cl_config cl)))"
  by (cases "read_fields config_fields j (cl_config cl)") (auto simp: config_load_def Let_def split: bool.split)

section \<open>Properties\<close>

text \<open>
  C35: The settings survive a restart: what is saved, with a secret set, is what is loaded, member by member,
  whatever the settings were before the load.
\<close>

theorem config_roundtrip:
  assumes "config_wf (cl_config cl)" "sc_jwt_secret (cl_config cl) \<noteq> ''''" "cl_path cl \<noteq> ''''"
  shows "fst (config_save True True cl fs)
    \<and> config_load (snd (config_save True True cl fs)) rnd cx (cl_path cl) cl0
      = (True, cl0\<lparr>cl_config := cl_config cl, cl_path := cl_path cl\<rparr>)"
proof -
  have "read_fields config_fields (config_document (cl_config cl)) c0 = (True, cl_config cl)" for c0
    unfolding config_document_def
    by (simp only: read_fields_written [OF distinct_config_fields subset_refl config_fields_total [OF assms(1)]]
        config_fields_restore [OF assms(1)])
  then show ?thesis using assms(2,3) by (simp add: config_save_def config_load_def Let_def generate_secret_def)
qed

lemma default_config_wf: "config_wf default_config"
  by (simp add: config_wf_def default_config_def int32_def)

theorem config_roundtrip_witness:
  "fst (config_save True True
      \<lparr>cl_config = default_config\<lparr>sc_jwt_secret := ''k''\<rparr>, cl_path = ''c.json'', cl_draws = 0\<rparr> (\<lambda>p. Missing_file))"
  using config_roundtrip [of "\<lparr>cl_config = default_config\<lparr>sc_jwt_secret := ''k''\<rparr>, cl_path = ''c.json'', cl_draws = 0\<rparr>"]
    default_config_wf by simp

text \<open>
  A configuration file that does not parse opens the management interface: the program goes on with
  an empty secret, under which anybody can sign a token that passes the administrator's guard.
\<close>

theorem malformed_config_opens_admin:
  assumes "fs ''config/default_system.json'' = Malformed"
    and "\<And>u r e. jw_parse jw (jw_dump jw u r e) = Some \<lparr>pl_username = Claim u, pl_role = Claim r, pl_exp = Claim e\<rparr>"
    and "rq_authorization rq = Some (''Bearer '' @ jwt_sign jw '''' now user ''admin'' 30)" "t < now + 1800"
  shows "\<exists>cl. startup_config fs rnd cx [] = Inr (False, cl)
    \<and> require_admin jw (sc_jwt_secret (cl_config cl)) t rq = Pass"
proof -
  have start: "startup_config fs rnd cx [] = Inr (False, new_config_loader\<lparr>cl_path := ''config/default_system.json''\<rparr>)"
    using assms(1)
    by (simp add: startup_config_def config_load_def Let_def config_validate_def new_config_loader_def default_config_def)
  have nonempty: "jwt_sign jw '''' now user ''admin'' 30 \<noteq> ''''" by (simp add: jwt_sign_def Let_def)
  then have "extract_token rq = jwt_sign jw '''' now user ''admin'' 30"
    using assms(3) by (simp add: extract_token_def Let_def)
  moreover have "jwt_verify jw '''' t (jwt_sign jw '''' now user ''admin'' 30)"
    "jwt_get_role jw '''' t (jwt_sign jw '''' now user ''admin'' 30) = ''admin''"
    using signed_token [OF assms(2), of 30 "''''" t now user "''admin''"] assms(4) by simp_all
  ultimately have "require_admin jw '''' t rq = Pass"
    using nonempty
    by (simp add: require_admin_def require_auth_def)
  then show ?thesis unfolding start by (simp add: new_config_loader_def default_config_def)
qed

theorem malformed_config_opens_admin_witness:
  "\<exists>cl. startup_config (\<lambda>p. Malformed) (\<lambda>i. 7) plain_crypto [] = Inr (False, cl)
    \<and> require_admin sample_jwt (sc_jwt_secret (cl_config cl)) 100
        \<lparr>rq_url = ''/api/users'', rq_authorization = Some (''Bearer '' @ jwt_sign sample_jwt '''' 0 ''m'' ''admin'' 30),
         rq_cookie = None\<rparr> = Pass"
  by (rule malformed_config_opens_admin [OF _ sample_jwt_parses, where now = 0 and t = 100 and user = "''m''"]) simp_all

text \<open>
  The port given on the command line is lost: the file is loaded once more afterwards, and its port
  is the one the program starts with.
\<close>

theorem cli_port_is_overwritten:
  assumes "fs ''config/default_system.json'' = Document j" "jmember ''proxy_port'' j = Some (JInt q)"
    and "startup_config fs rnd cx [''--proxy-port'', arg] = Inr (valid, cl)"
  shows "sc_proxy_port (cl_config cl) = to_int32 q"
  using assms load_Document [of fs "''config/default_system.json''", OF assms(1)] read_port_field [OF assms(2)]
  by (auto simp: startup_config_def Let_def split: option.splits)

theorem cli_port_is_overwritten_witness:
  "sc_proxy_port (cl_config (snd (projr (startup_config (\<lambda>p. Document (JObj [(''proxy_port'', JInt 1080)]))
      (\<lambda>i. 7) plain_crypto [''--proxy-port'', ''9000''])))) = 1080"
proof -
  have "stoi ''9000'' = Some 9000" by code_simp
  then obtain valid cl where start: "startup_config (\<lambda>p. Document (JObj [(''proxy_port'', JInt 1080)])) (\<lambda>i. 7) plain_crypto
      [''--proxy-port'', ''9000''] = Inr (valid, cl)"
    by (simp add: startup_config_def Let_def)
  have "sc_proxy_port (cl_config cl) = to_int32 1080"
    by (rule cli_port_is_overwritten [OF refl _ start]) simp
  then show ?thesis by (simp add: start to_int32_def)
qed

end
