(* ===== verification/Log_Buffer.thy ===== *)
theory Log_Buffer
  imports Prelude
begin

text \<open>
  \<^verbatim>\<open>src/src/log_monitor/structured_logger.cpp\<close> and \<^verbatim>\<open>audit_logger.cpp\<close>: the entries that are kept in
  memory for the management interface, and the lines of the audit file. The sinks of the logging
  library are not modelled. The lemmas show what a query returns after any sequence of entries.
\<close>

section \<open>State and operations\<close>

text \<open>\<open>le_session\<close> is empty where the entry has no such member.\<close>

record log_entry =
  le_ts :: int
  le_level :: string
  le_module :: string
  le_msg :: string
  le_session :: string

text \<open>\<open>sl_broadcast\<close>: whether a callback is set; \<open>sl_sent\<close>: what it was called with.\<close>

record structured_logger =
  sl_memory_buffer :: "log_entry list"
  sl_broadcast :: bool
  sl_sent :: "log_entry list"

definition new_logger :: structured_logger where
  "new_logger = \<lparr>sl_memory_buffer = [], sl_broadcast = False, sl_sent = []\<rparr>"

definition MAX_MEMORY_ENTRIES :: nat where
  "MAX_MEMORY_ENTRIES = 2000"

definition add_memory_entry :: "log_entry \<Rightarrow> structured_logger \<Rightarrow> structured_logger" where
  "add_memory_entry e sl =
     (let buf = sl_memory_buffer sl @ [e]
      in sl\<lparr>sl_memory_buffer :=
              (if length buf > MAX_MEMORY_ENTRIES then drop (length buf - MAX_MEMORY_ENTRIES) buf else buf)\<rparr>)"

definition log_entry_at :: "string \<Rightarrow> int \<Rightarrow> string \<Rightarrow> string \<Rightarrow> string \<Rightarrow> structured_logger \<Rightarrow> structured_logger" where
  "log_entry_at level now module msg session sl =
     (let e = \<lparr>le_ts = now, le_level = level, le_module = module, le_msg = msg, le_session = session\<rparr>;
          sl1 = add_memory_entry e sl
      in if sl_broadcast sl1 then sl1\<lparr>sl_sent := sl_sent sl1 @ [e]\<rparr> else sl1)"

definition log_info :: "int \<Rightarrow> string \<Rightarrow> string \<Rightarrow> string \<Rightarrow> structured_logger \<Rightarrow> structured_logger" where
  "log_info = log_entry_at ''info''"

definition log_warn :: "int \<Rightarrow> string \<Rightarrow> string \<Rightarrow> string \<Rightarrow> structured_logger \<Rightarrow> structured_logger" where
  "log_warn = log_entry_at ''warn''"

definition log_error :: "int \<Rightarrow> string \<Rightarrow> string \<Rightarrow> string \<Rightarrow> structured_logger \<Rightarrow> structured_logger" where
  "log_error = log_entry_at ''error''"

definition broadcast_callback :: "bool \<Rightarrow> structured_logger \<Rightarrow> structured_logger" where
  "broadcast_callback is_set sl = sl\<lparr>sl_broadcast := is_set\<rparr>"

text \<open>The two loops from the end of the buffer, as long as fewer than \<open>n\<close> entries were added.\<close>

fun collect :: "nat \<Rightarrow> (log_entry \<Rightarrow> bool) \<Rightarrow> log_entry list \<Rightarrow> log_entry list" where
  "collect n p [] = []"
| "collect n p (e # es) =
     (if n = 0 then []
      else if p e then e # collect (n - 1) p es else collect n p es)"

definition level_matches :: "string \<Rightarrow> log_entry \<Rightarrow> bool" where
  "level_matches filter_level e \<longleftrightarrow> filter_level = '''' \<or> le_level e = filter_level"

definition get_recent_logs :: "nat \<Rightarrow> string \<Rightarrow> structured_logger \<Rightarrow> log_entry list" where
  "get_recent_logs n filter_level sl =
     collect n (level_matches filter_level) (rev (sl_memory_buffer sl))"

definition get_recent_logs_between ::
    "nat \<Rightarrow> string \<Rightarrow> int \<Rightarrow> int \<Rightarrow> structured_logger \<Rightarrow> log_entry list" where
  "get_recent_logs_between n filter_level start_ts end_ts sl =
     collect n (\<lambda>e. \<not> (le_ts e < start_ts \<or> le_ts e > end_ts) \<and> level_matches filter_level e)
       (rev (sl_memory_buffer sl))"

section \<open>The audit file\<close>

record audit_entry =
  au_ts :: int
  au_operator :: string
  au_action :: string
  au_target :: string

text \<open>A line is appended where the file opens; the callers give no detail.\<close>

definition audit_log :: "bool \<Rightarrow> int \<Rightarrow> string \<Rightarrow> string \<Rightarrow> string \<Rightarrow> audit_entry list \<Rightarrow> audit_entry list" where
  "audit_log opens now operator action target lines =
     (if opens then lines @ [\<lparr>au_ts = now, au_operator = operator, au_action = action, au_target = target\<rparr>] else lines)"

section \<open>What is kept\<close>

definition last_entries :: "nat \<Rightarrow> 'a list \<Rightarrow> 'a list" where
  "last_entries n xs = drop (length xs - n) xs"

lemma collect_take: "collect n p es = take n (filter p es)"
  by (induction n p es rule: collect.induct) (auto simp: take_Cons')

lemma last_entries_snoc: "last_entries k (last_entries k xs @ [e]) = last_entries k (xs @ [e])"
  by (cases "length xs < k") (auto simp: last_entries_def Suc_diff_le)

lemma add_memory_entry_last:
  assumes "sl_memory_buffer sl = last_entries MAX_MEMORY_ENTRIES es"
  shows "sl_memory_buffer (add_memory_entry e sl) = last_entries MAX_MEMORY_ENTRIES (es @ [e])"
proof -
  have "sl_memory_buffer (add_memory_entry e sl) = last_entries MAX_MEMORY_ENTRIES (sl_memory_buffer sl @ [e])"
    by (auto simp: add_memory_entry_def Let_def last_entries_def)
  then show ?thesis by (simp only: assms last_entries_snoc)
qed

fun log_step :: "string \<times> int \<times> string \<times> string \<times> string \<Rightarrow> structured_logger \<Rightarrow> structured_logger" where
  "log_step (level, now, module, msg, session) = log_entry_at level now module msg session"

fun entry_of :: "string \<times> int \<times> string \<times> string \<times> string \<Rightarrow> log_entry" where
  "entry_of (level, now, module, msg, session) =
     \<lparr>le_ts = now, le_level = level, le_module = module, le_msg = msg, le_session = session\<rparr>"

lemma log_step_buffer: "sl_memory_buffer (log_step e sl) = sl_memory_buffer (add_memory_entry (entry_of e) sl)"
  by (cases e) (simp add: log_entry_at_def Let_def)

lemma log_run_buffer:
  "sl_memory_buffer sl = last_entries MAX_MEMORY_ENTRIES es0
   \<Longrightarrow> sl_memory_buffer (fold log_step es sl) = last_entries MAX_MEMORY_ENTRIES (es0 @ map entry_of es)"
proof (induction es arbitrary: sl es0)
  case (Cons e es)
  have "sl_memory_buffer (log_step e sl) = last_entries MAX_MEMORY_ENTRIES (es0 @ [entry_of e])"
    by (simp add: log_step_buffer add_memory_entry_last [OF Cons(2)])
  from Cons(1) [OF this] show ?case by simp
qed simp

section \<open>Properties\<close>

text \<open>
  A log query answers from the last two thousand entries, newest first: the first of those with the
  wanted level, as many as were asked for, whatever was logged before.
\<close>

theorem recent_logs_exact:
  "get_recent_logs n level (fold log_step es new_logger)
     = take n (filter (\<lambda>e. level = '''' \<or> le_level e = level) (rev (last_entries 2000 (map entry_of es))))
   \<and> length (sl_memory_buffer (fold log_step es new_logger)) \<le> 2000"
proof -
  have "sl_memory_buffer (fold log_step es new_logger) = last_entries 2000 (map entry_of es)"
    using log_run_buffer [of new_logger "[]" es] by (simp add: new_logger_def last_entries_def MAX_MEMORY_ENTRIES_def)
  moreover have "level_matches level = (\<lambda>e. level = '''' \<or> le_level e = level)"
    by (intro ext) (simp add: level_matches_def)
  ultimately show ?thesis
    by (simp add: get_recent_logs_def collect_take) (simp add: last_entries_def)
qed

end
