(* ===== verification/System_Tuner.thy ===== *)
theory System_Tuner
  imports Overload_Protector Cpp_Strings
begin

text \<open>
  \<^verbatim>\<open>src/src/concurrency/system_tuner.cpp\<close>: the checks of the kernel's limits at the start and of the load
  at run time, with the advice they give. What the system answers and the text of a percentage are
  arguments; the count of the open files is not used by the code.
\<close>

record sys_check_result =
  ck_item :: string
  ck_current_value :: string
  ck_recommend_value :: string
  ck_is_ok :: bool
  ck_suggestion :: string

type_synonym system_tuner = "sys_check_result list"

text \<open>The first line of a file without its trailing blanks; \<open>None\<close>: the file does not open.\<close>

definition read_sysctl :: "(string \<Rightarrow> string option) \<Rightarrow> string \<Rightarrow> string" where
  "read_sysctl first_line path =
     (case first_line path of
        None \<Rightarrow> ''N/A''
      | Some val \<Rightarrow> rev (dropWhile (\<lambda>c. c = CHR 0x0A \<or> c = CHR 0x0D \<or> c = CHR '' '') (rev val)))"

definition checked :: "string \<Rightarrow> string \<Rightarrow> string \<Rightarrow> bool \<Rightarrow> string \<Rightarrow> sys_check_result" where
  "checked item current recommend ok suggestion =
     \<lparr>ck_item = item, ck_current_value = current, ck_recommend_value = recommend, ck_is_ok = ok,
      ck_suggestion = (if ok then '''' else suggestion)\<rparr>"

definition at_least :: "int \<Rightarrow> string \<Rightarrow> bool" where
  "at_least n s \<longleftrightarrow> (case stoi s of None \<Rightarrow> False | Some v \<Rightarrow> v \<ge> n)"

definition run_startup_check ::
    "int option \<Rightarrow> (string \<Rightarrow> string option) \<Rightarrow> sys_check_result list \<times> system_tuner" where
  "run_startup_check nofile first_line =
     (let somaxconn = read_sysctl first_line ''/proc/sys/net/core/somaxconn'';
          tw_reuse = read_sysctl first_line ''/proc/sys/net/ipv4/tcp_tw_reuse'';
          backlog = read_sysctl first_line ''/proc/sys/net/ipv4/tcp_max_syn_backlog'';
          results =
            [case nofile of
               Some n \<Rightarrow> checked ''fs.file-max (ulimit -n)'' (to_string n) ''65535'' (n \<ge> 65535)
                           ''Add 'ulimit -n 65535' or set LimitNOFILE=65535 in systemd unit''
             | None \<Rightarrow> checked ''fs.file-max (ulimit -n)'' ''unknown'' ''65535'' False '''',
             checked ''net.core.somaxconn'' somaxconn ''65535'' (at_least 65535 somaxconn)
               ''sysctl -w net.core.somaxconn=65535'',
             checked ''net.ipv4.tcp_tw_reuse'' tw_reuse ''1'' (tw_reuse = ''1'') ''sysctl -w net.ipv4.tcp_tw_reuse=1'',
             checked ''net.ipv4.tcp_max_syn_backlog'' backlog ''65535'' (at_least 65535 backlog)
               ''sysctl -w net.ipv4.tcp_max_syn_backlog=65535'']
      in (results, results))"

definition run_runtime_check :: "(rat \<Rightarrow> string) \<Rightarrow> overload_status \<Rightarrow> sys_check_result list \<times> system_tuner" where
  "run_runtime_check percent st =
     (let results =
            [checked ''fd_usage'' (percent (fd_usage_pct st * 100)) ''<90%'' (fd_usage_pct st < 9 / 10)
               ''Increase ulimit -n or reduce connections'',
             checked ''mem_usage'' (percent (mem_usage_pct st * 100)) ''<85%'' (mem_usage_pct st < 85 / 100)
               ''Reduce max_total_connections or add memory'',
             checked ''total_connections'' (to_string (total_connections st)) ''<4000'' (\<not> is_overloaded st)
               ''System overloaded, reduce load'']
      in (results, results))"

definition newline :: string where
  "newline = [CHR 0x0A]"

definition report_line :: "sys_check_result \<Rightarrow> string" where
  "report_line r =
     ck_item r @ '': '' @ ck_current_value r @ '' (recommended: '' @ ck_recommend_value r @ '')''
     @ '' ['' @ (if ck_is_ok r then ''OK'' else ''WARN'') @ '']''
     @ (if \<not> ck_is_ok r \<and> ck_suggestion r \<noteq> '''' then '' -> '' @ ck_suggestion r else '''') @ newline"

definition generate_report :: "system_tuner \<Rightarrow> string" where
  "generate_report rs = ''=== System Tuning Report ==='' @ newline @ concat (map report_line rs)"

definition get_results :: "system_tuner \<Rightarrow> sys_check_result list" where
  "get_results rs = rs"

definition generate_tune_script :: string where
  "generate_tune_script = concat (map (\<lambda>l. l @ newline)
     [''#!/bin/bash'', ''# LAN Proxy Gateway - System Tuning Script'', ''# Run as root: sudo bash tune.sh'', '''',
      ''sysctl -w net.core.somaxconn=65535'', ''sysctl -w net.ipv4.tcp_tw_reuse=1'',
      ''sysctl -w net.ipv4.tcp_max_syn_backlog=65535'',
      ''sysctl -w net.ipv4.ip_local_port_range=\"1024 65535\"'', ''sysctl -w net.ipv4.tcp_fin_timeout=15'',
      '''', ''echo 'System tuning applied successfully'' @ [CHR 0x27]])"

text \<open>A check that passes gives no advice; the results that are kept are those of the last run.\<close>

lemma passed_without_advice:
  "r \<in> set (fst (run_startup_check n f)) \<Longrightarrow> ck_is_ok r \<Longrightarrow> ck_suggestion r = ''''"
  "r \<in> set (fst (run_runtime_check p st)) \<Longrightarrow> ck_is_ok r \<Longrightarrow> ck_suggestion r = ''''"
  by (auto simp: run_startup_check_def run_runtime_check_def checked_def Let_def split: option.splits)

lemma results_of_last_run:
  "get_results (snd (run_startup_check n f)) = fst (run_startup_check n f)"
  "get_results (snd (run_runtime_check p st)) = fst (run_runtime_check p st)"
  by (simp_all add: get_results_def run_startup_check_def run_runtime_check_def Let_def)

end
