(* ===== verification/Servers.thy ===== *)
theory Servers
  imports Log_Buffer "HOL-Library.Word"
begin

text \<open>
  \<^verbatim>\<open>proxy_server\<close> and \<^verbatim>\<open>server_app\<close> of \<^verbatim>\<open>src/src/proxy_core/session.cpp\<close>, \<^verbatim>\<open>src/src/web_server/crow_server.cpp\<close>
  and \<^verbatim>\<open>src/src/web_server/ws_handler.cpp\<close>: starting and stopping, the acceptor's loop and the open
  websocket connections the log is broadcast to. Sockets and threads are reduced to whether they are
  there; the sessions that are started are modelled in \<open>Session\<close>.
\<close>

section \<open>The proxy server\<close>

text \<open>
  \<open>sa_server\<close> is the acceptor, with its flag and the port it listens on; \<open>sa_threads\<close> counts the threads
  that run the handlers.
\<close>

record proxy_server =
  px_running :: bool
  px_listen_port :: "16 word"

record server_app =
  sa_running :: bool
  sa_port :: int
  sa_server :: "proxy_server option"
  sa_threads :: nat

definition new_server_app :: server_app where
  "new_server_app = \<lparr>sa_running = False, sa_port = 10800, sa_server = None, sa_threads = 0\<rparr>"

text \<open>The port is an \<^verbatim>\<open>int\<close> that becomes a \<^verbatim>\<open>short\<close>, of which the endpoint takes the sixteen bits.\<close>

definition new_proxy_server :: "int \<Rightarrow> proxy_server" where
  "new_proxy_server port = \<lparr>px_running = True, px_listen_port = word_of_int port\<rparr>"

text \<open>\<open>binds\<close>: whether the port can be opened; where it cannot, the constructor throws.\<close>

definition server_start :: "(16 word \<Rightarrow> bool) \<Rightarrow> int \<Rightarrow> int \<Rightarrow> server_app \<Rightarrow> server_app option" where
  "server_start binds port thread_count sa =
     (if sa_running sa then Some sa
      else
        let px = new_proxy_server port
        in if \<not> binds (px_listen_port px) then None
           else Some \<lparr>sa_running = True, sa_port = port, sa_server = Some px,
                      sa_threads = sa_threads sa + nat thread_count\<rparr>)"

definition proxy_stop :: "proxy_server \<Rightarrow> proxy_server" where
  "proxy_stop px = px\<lparr>px_running := False\<rparr>"

definition server_stop :: "server_app \<Rightarrow> server_app" where
  "server_stop sa =
     (if \<not> sa_running sa then sa
      else sa\<lparr>sa_running := False, sa_server := None, sa_threads := 0\<rparr>)"

text \<open>The handler of one accept: whether a session is started, and whether the next accept is.\<close>

definition accepted :: "bool \<Rightarrow> proxy_server \<Rightarrow> bool \<times> bool" where
  "accepted ok px = (ok \<and> px_running px, px_running px)"

lemma listens_on_configured_port:
  assumes "0 \<le> port" "port < 65536" "server_start binds port n sa = Some sa'" "\<not> sa_running sa"
  shows "sa_running sa' \<and> (\<exists>px. sa_server sa' = Some px \<and> px_running px \<and> uint (px_listen_port px) = port)"
proof -
  have "uint (word_of_int port :: 16 word) = port"
    using assms(1,2) by (simp add: uint_word_of_int)
  with assms(3,4) show ?thesis
    by (auto simp: server_start_def Let_def new_proxy_server_def split: if_splits)
qed

lemma port_wraps: "px_listen_port (new_proxy_server (port mod 65536)) = px_listen_port (new_proxy_server port)"
  by (simp add: new_proxy_server_def word_uint_eq_iff uint_word_of_int)

text \<open>Without a thread nothing runs the handlers, and the server still says it runs.\<close>

lemma no_threads_still_running:
  "thread_count \<le> 0 \<Longrightarrow> binds (word_of_int port) \<Longrightarrow>
   \<exists>sa. server_start binds port thread_count new_server_app = Some sa \<and> sa_running sa \<and> sa_threads sa = 0"
  by (simp add: server_start_def new_server_app_def new_proxy_server_def)

lemma stop_start: "sa_running (server_stop sa) = False"
  by (simp add: server_stop_def)

section \<open>The web server\<close>

record crow_server =
  ws_bind_addr :: string
  ws_port :: int
  ws_up :: bool

definition crow_init :: "string \<Rightarrow> int \<Rightarrow> bool \<Rightarrow> string \<Rightarrow> string \<Rightarrow> crow_server \<Rightarrow> crow_server" where
  "crow_init bind_addr port https_enabled cert_path key_path cs = cs\<lparr>ws_bind_addr := bind_addr, ws_port := port\<rparr>"

definition crow_run :: "crow_server \<Rightarrow> crow_server" where
  "crow_run cs = cs\<lparr>ws_up := True\<rparr>"

definition crow_stop :: "crow_server \<Rightarrow> crow_server" where
  "crow_stop cs = cs\<lparr>ws_up := False\<rparr>"

text \<open>The switch for HTTPS and the two files are not looked at: the server speaks plain HTTP.\<close>

lemma https_is_ignored: "crow_init addr port True cert key cs = crow_init addr port False cert' key' cs"
  by (simp add: crow_init_def)

section \<open>Websockets\<close>

text \<open>The open connections by a number, and what each was sent.\<close>

record ws_handler =
  wh_connections :: "nat set"
  wh_inbox :: "nat \<Rightarrow> log_entry list"

definition new_ws_handler :: ws_handler where
  "new_ws_handler = \<lparr>wh_connections = {}, wh_inbox = \<lambda>_. []\<rparr>"

definition ws_on_open :: "nat \<Rightarrow> ws_handler \<Rightarrow> ws_handler" where
  "ws_on_open c wh = wh\<lparr>wh_connections := insert c (wh_connections wh)\<rparr>"

definition ws_on_close :: "nat \<Rightarrow> ws_handler \<Rightarrow> ws_handler" where
  "ws_on_close c wh = wh\<lparr>wh_connections := wh_connections wh - {c}\<rparr>"

definition ws_on_message :: "nat \<Rightarrow> string \<Rightarrow> ws_handler \<Rightarrow> ws_handler" where
  "ws_on_message c text wh = wh"

definition ws_broadcast :: "log_entry \<Rightarrow> ws_handler \<Rightarrow> ws_handler" where
  "ws_broadcast e wh =
     wh\<lparr>wh_inbox := (\<lambda>c. if c \<in> wh_connections wh then wh_inbox wh c @ [e] else wh_inbox wh c)\<rparr>"

datatype ws_event = Ws_open nat | Ws_close nat | Ws_message nat string | Ws_log log_entry

fun ws_step :: "ws_event \<Rightarrow> ws_handler \<Rightarrow> ws_handler" where
  "ws_step (Ws_open c) = ws_on_open c"
| "ws_step (Ws_close c) = ws_on_close c"
| "ws_step (Ws_message c text) = ws_on_message c text"
| "ws_step (Ws_log e) = ws_broadcast e"

text \<open>The entries that are logged while a connection is open, in order.\<close>

fun heard :: "nat \<Rightarrow> bool \<Rightarrow> ws_event list \<Rightarrow> log_entry list" where
  "heard c is_open [] = []"
| "heard c is_open (Ws_open c' # es) = heard c (c = c' \<or> is_open) es"
| "heard c is_open (Ws_close c' # es) = heard c (is_open \<and> c \<noteq> c') es"
| "heard c is_open (Ws_message c' text # es) = heard c is_open es"
| "heard c is_open (Ws_log e # es) = (if is_open then [e] else []) @ heard c is_open es"

lemma ws_run_inbox:
  "wh_inbox (fold ws_step es wh) c = wh_inbox wh c @ heard c (c \<in> wh_connections wh) es"
proof (induction es arbitrary: wh)
  case (Cons e es)
  then show ?case
    by (cases e) (auto simp: ws_on_open_def ws_on_close_def ws_on_message_def ws_broadcast_def)
qed simp

section \<open>Properties\<close>

text \<open>
  C40: Every open websocket connection receives exactly the entries that are logged while it is open, in
  order, and opening one asks for nothing: no token, no address, no limit on their number.
\<close>

theorem log_stream_is_public:
  "wh_inbox (fold ws_step (es @ [Ws_open c] @ map Ws_log logged) new_ws_handler) c
     = wh_inbox (fold ws_step es new_ws_handler) c @ logged
   \<and> wh_inbox (fold ws_step es new_ws_handler) c = heard c False es"
proof -
  have "heard c True (map Ws_log logged) = logged" by (induction logged) simp_all
  then show ?thesis
    by (simp add: ws_run_inbox ws_on_open_def) (simp add: new_ws_handler_def)
qed

end
