(* ===== verification/Api_Views.thy ===== *)
theory Api_Views
  imports "HOL-Library.Monad_Syntax" Json Config_Loader Log_Buffer System_Tuner Web_Auth Route_Engine Metrics
    Connection_Registry Vm_Config Node_Health
begin

text \<open>
  What \<^verbatim>\<open>src/src/web_server/api_router.cpp\<close> puts into its answers and reads from the bodies of requests:
  the JSON form of every record, the reading of a node (\<^verbatim>\<open>vm_node_manager::json_to_node\<close> with its
  accessors that may throw) and the masking of the upstream configuration in
  \<^verbatim>\<open>src/src/v2rayn_manager/v2rayn_config.cpp\<close>.
\<close>

section \<open>Nodes\<close>

text \<open>A member that may be missing; \<open>None\<close> where \<^verbatim>\<open>value\<close> throws.\<close>

definition opt_member :: "(json \<Rightarrow> 'a option) \<Rightarrow> string \<Rightarrow> json \<Rightarrow> 'a option option" where
  "opt_member get key j =
     (if is_object j then (case jmember key j of None \<Rightarrow> Some None | Some v \<Rightarrow> map_option Some (get v)) else None)"

text \<open>\<^verbatim>\<open>if (j.contains(key)) ...\<close>\<close>

definition opt_part :: "(json \<Rightarrow> 'a option) \<Rightarrow> string \<Rightarrow> json \<Rightarrow> 'a option option" where
  "opt_part f key j = (case jmember key j of None \<Rightarrow> Some None | Some v \<Rightarrow> map_option Some (f v))"

definition read_tcp :: "json \<Rightarrow> string option option" where
  "read_tcp = opt_member get_string ''header_type''"

definition read_ws :: "json \<Rightarrow> ws_doc option" where
  "read_ws j = do {
     path \<leftarrow> opt_member get_string ''path'' j;
     host \<leftarrow> opt_member get_string ''host'' j;
     Some \<lparr>wd_path = path, wd_host = host\<rparr> }"

definition read_hosts :: "json \<Rightarrow> string list option option" where
  "read_hosts j =
     (case jmember ''host'' j of Some (JArr hs) \<Rightarrow> map_option Some (get_all get_string hs) | _ \<Rightarrow> Some None)"

definition read_h2 :: "json \<Rightarrow> h2_doc option" where
  "read_h2 j = do {
     path \<leftarrow> opt_member get_string ''path'' j;
     hosts \<leftarrow> read_hosts j;
     Some \<lparr>hd_path = path, hd_host = hosts\<rparr> }"

definition read_quic :: "json \<Rightarrow> quic_doc option" where
  "read_quic j = do {
     security \<leftarrow> opt_member get_string ''security'' j;
     key \<leftarrow> opt_member get_string ''key'' j;
     header_type \<leftarrow> opt_member get_string ''header_type'' j;
     Some \<lparr>qd_security = security, qd_key = key, qd_header_type = header_type\<rparr> }"

definition read_kcp :: "json \<Rightarrow> kcp_doc option" where
  "read_kcp j = do {
     mtu \<leftarrow> opt_member get_int ''mtu'' j;
     tti \<leftarrow> opt_member get_int ''tti'' j;
     uplink \<leftarrow> opt_member get_int ''uplink_capacity'' j;
     downlink \<leftarrow> opt_member get_int ''downlink_capacity'' j;
     congestion \<leftarrow> opt_member get_bool ''congestion'' j;
     header_type \<leftarrow> opt_member get_string ''header_type'' j;
     Some \<lparr>kd_mtu = mtu, kd_tti = tti, kd_uplink = uplink, kd_downlink = downlink,
           kd_congestion = congestion, kd_header_type = header_type\<rparr> }"

definition read_tls :: "json \<Rightarrow> tls_doc option" where
  "read_tls j = do {
     insecure \<leftarrow> opt_member get_bool ''allow_insecure'' j;
     server \<leftarrow> opt_member get_string ''server_name'' j;
     Some \<lparr>td_allow_insecure = insecure, td_server_name = server\<rparr> }"

definition node_doc_of_json :: "json \<Rightarrow> node_doc option" where
  "node_doc_of_json j = do {
     tag \<leftarrow> opt_member get_string ''tag'' j;
     address \<leftarrow> opt_member get_string ''address'' j;
     port \<leftarrow> opt_member get_int ''port'' j;
     user_id \<leftarrow> opt_member get_string ''user_id'' j;
     alter_id \<leftarrow> opt_member get_int ''alter_id'' j;
     security \<leftarrow> opt_member get_string ''security'' j;
     network \<leftarrow> opt_member get_string ''network'' j;
     tls \<leftarrow> opt_member get_string ''tls'' j;
     remark \<leftarrow> opt_member get_string ''remark'' j;
     tcp \<leftarrow> opt_part read_tcp ''tcp_config'' j;
     ws \<leftarrow> opt_part read_ws ''ws_config'' j;
     h2 \<leftarrow> opt_part read_h2 ''h2_config'' j;
     quic \<leftarrow> opt_part read_quic ''quic_config'' j;
     kcp \<leftarrow> opt_part read_kcp ''kcp_config'' j;
     tlsc \<leftarrow> opt_part read_tls ''tls_config'' j;
     Some \<lparr>nd_tag = tag, nd_address = address, nd_port = port, nd_user_id = user_id, nd_alter_id = alter_id,
           nd_security = security, nd_network = network, nd_tls = tls, nd_remark = remark, nd_tcp = tcp,
           nd_ws = ws, nd_h2 = h2, nd_quic = quic, nd_kcp = kcp, nd_tlsc = tlsc\<rparr> }"

definition node_of_json :: "json \<Rightarrow> vm_node option" where
  "node_of_json j = map_option json_to_node (node_doc_of_json j)"

text \<open>The object of the members that are there.\<close>

definition jobj_of :: "(string \<times> json option) list \<Rightarrow> json" where
  "jobj_of ms = JObj (List.map_filter (\<lambda>(k, v). map_option (Pair k) v) ms)"

definition json_of_node_doc :: "node_doc \<Rightarrow> json" where
  "json_of_node_doc d =
     jobj_of
       [(''tag'', map_option JStr (nd_tag d)), (''address'', map_option JStr (nd_address d)),
        (''port'', map_option JInt (nd_port d)), (''user_id'', map_option JStr (nd_user_id d)),
        (''alter_id'', map_option JInt (nd_alter_id d)), (''security'', map_option JStr (nd_security d)),
        (''network'', map_option JStr (nd_network d)), (''tls'', map_option JStr (nd_tls d)),
        (''remark'', map_option JStr (nd_remark d)),
        (''tcp_config'', map_option (\<lambda>t. jobj_of [(''header_type'', map_option JStr t)]) (nd_tcp d)),
        (''ws_config'', map_option
           (\<lambda>c. jobj_of [(''path'', map_option JStr (wd_path c)), (''host'', map_option JStr (wd_host c))])
           (nd_ws d)),
        (''h2_config'', map_option
           (\<lambda>c. jobj_of [(''path'', map_option JStr (hd_path c)),
                         (''host'', map_option (\<lambda>hs. JArr (map JStr hs)) (hd_host c))])
           (nd_h2 d)),
        (''quic_config'', map_option
           (\<lambda>c. jobj_of [(''security'', map_option JStr (qd_security c)), (''key'', map_option JStr (qd_key c)),
                         (''header_type'', map_option JStr (qd_header_type c))])
           (nd_quic d)),
        (''kcp_config'', map_option
           (\<lambda>c. jobj_of [(''mtu'', map_option JInt (kd_mtu c)), (''tti'', map_option JInt (kd_tti c)),
                         (''uplink_capacity'', map_option JInt (kd_uplink c)),
                         (''downlink_capacity'', map_option JInt (kd_downlink c)),
                         (''congestion'', map_option JBool (kd_congestion c)),
                         (''header_type'', map_option JStr (kd_header_type c))])
           (nd_kcp d)),
        (''tls_config'', map_option
           (\<lambda>c. jobj_of [(''allow_insecure'', map_option JBool (td_allow_insecure c)),
                         (''server_name'', map_option JStr (td_server_name c))])
           (nd_tlsc d))]"

definition json_of_node :: "vm_node \<Rightarrow> json" where
  "json_of_node n = json_of_node_doc (node_to_json False n)"

text \<open>The numbers of a node that are stored in an \<^verbatim>\<open>int\<close>.\<close>

definition node_ints :: "vm_node \<Rightarrow> bool" where
  "node_ints n \<longleftrightarrow> list_all int32
     [vn_alter_id n, kcp_mtu (vn_kcp n), kcp_tti (vn_kcp n), kcp_uplink (vn_kcp n), kcp_downlink (vn_kcp n)]"

lemma get_int_int32_id: "int32 i \<Longrightarrow> get_int (JInt i) = Some i"
  unfolding int32_def by (rule get_int_id) simp_all

lemma get_all_strings: "get_all get_string (map JStr ss) = Some ss"
  by (rule get_all_map) simp

lemma get_int_port: "get_int (JInt (uint (p :: 16 word))) = Some (uint p)"
proof -
  have "uint p < 65536" using uint_lt2p [of p] by simp
  moreover have "0 \<le> uint p" by simp
  ultimately show ?thesis by (intro get_int_id) linarith+
qed

lemmas view_defs = opt_member_def opt_part_def read_tcp_def read_ws_def read_hosts_def read_h2_def
  read_quic_def read_kcp_def read_tls_def jobj_of_def map_filter_simps

lemma node_json_roundtrip: "node_ints n \<Longrightarrow> node_of_json (json_of_node n) = Some n"
proof -
  assume "node_ints n"
  then have "get_int (JInt (vn_alter_id n)) = Some (vn_alter_id n)"
    "get_int (JInt (kcp_mtu (vn_kcp n))) = Some (kcp_mtu (vn_kcp n))"
    "get_int (JInt (kcp_tti (vn_kcp n))) = Some (kcp_tti (vn_kcp n))"
    "get_int (JInt (kcp_uplink (vn_kcp n))) = Some (kcp_uplink (vn_kcp n))"
    "get_int (JInt (kcp_downlink (vn_kcp n))) = Some (kcp_downlink (vn_kcp n))"
    unfolding node_ints_def by (simp_all add: get_int_int32_id del: get_int.simps)
  then have "node_doc_of_json (json_of_node n) = Some (node_to_json False n)"
    by (simp add: json_of_node_def json_of_node_doc_def node_doc_of_json_def node_to_json_def view_defs
        get_int_port get_all_strings del: get_int.simps)
  then show ?thesis by (simp add: node_of_json_def json_roundtrip)
qed

section \<open>The upstream configuration\<close>

fun map_member :: "string \<Rightarrow> (json \<Rightarrow> json) \<Rightarrow> json \<Rightarrow> json" where
  "map_member key f (JObj ms) = JObj (map (\<lambda>(k, v). (k, if k = key then f v else v)) ms)"
| "map_member key f j = j"

fun map_array :: "(json \<Rightarrow> json) \<Rightarrow> json \<Rightarrow> json" where
  "map_array f (JArr js) = JArr (map f js)"
| "map_array f j = j"

definition masked_value :: json where
  "masked_value = JStr ''********''"

definition mask_user :: "json \<Rightarrow> json" where
  "mask_user = map_member ''id'' (\<lambda>_. masked_value)"

definition mask_vnext :: "json \<Rightarrow> json" where
  "mask_vnext = map_member ''users'' (map_array mask_user)"

definition mask_server :: "json \<Rightarrow> json" where
  "mask_server = map_member ''password'' (\<lambda>_. masked_value)"

definition mask_outbound :: "json \<Rightarrow> json" where
  "mask_outbound =
     map_member ''settings''
       (map_member ''servers'' (map_array mask_server) \<circ> map_member ''vnext'' (map_array mask_vnext))"

definition desensitize :: "json \<Rightarrow> json" where
  "desensitize = map_member ''outbounds'' (map_array mask_outbound)"

definition generate_default_inbound :: "int \<Rightarrow> int \<Rightarrow> json" where
  "generate_default_inbound socks_port http_port =
     JObj [(''log'', JObj [(''loglevel'', JStr ''warning'')]),
           (''inbounds'', JArr
              [JObj [(''tag'', JStr ''socks-in''), (''protocol'', JStr ''socks''), (''listen'', JStr ''127.0.0.1''),
                     (''port'', JInt socks_port),
                     (''settings'', JObj [(''auth'', JStr ''noauth''), (''udp'', JBool False)])],
               JObj [(''tag'', JStr ''http-in''), (''protocol'', JStr ''http''), (''listen'', JStr ''127.0.0.1''),
                     (''port'', JInt http_port)]]),
           (''outbounds'', JArr [JObj [(''protocol'', JStr ''freedom''), (''tag'', JStr ''direct'')]])]"

definition is_array :: "json \<Rightarrow> bool" where
  "is_array j \<longleftrightarrow> (case j of JArr xs \<Rightarrow> True | _ \<Rightarrow> False)"

text \<open>\<^verbatim>\<open>v2rayn_config::validate\<close> on a document of any shape.\<close>

definition validate_json :: "json \<Rightarrow> bool" where
  "validate_json j \<longleftrightarrow>
     is_object j
     \<and> (case jmember ''inbounds'' j of None \<Rightarrow> False | Some v \<Rightarrow> is_array v)
     \<and> (case jmember ''outbounds'' j of None \<Rightarrow> False | Some v \<Rightarrow> is_array v)"

lemma map_of_map_member:
  "map_of (map (\<lambda>(k, v). (k, if k = key then f v else v)) ms) key' = (if key' = key then map_option f (map_of ms key) else map_of ms key')"
  by (induction ms) auto

lemma jmember_map_member:
  "jmember key' (map_member key f j) = (if key' = key then map_option f (jmember key j) else jmember key' j)"
  by (cases j) (simp_all add: map_of_map_member)

text \<open>Every array at one place of a document satisfies a predicate on its elements.\<close>

definition each_at :: "string \<Rightarrow> (json \<Rightarrow> bool) \<Rightarrow> json \<Rightarrow> bool" where
  "each_at key p j \<longleftrightarrow> (case jmember key j of Some (JArr js) \<Rightarrow> list_all p js | _ \<Rightarrow> True)"

definition hides :: "string \<Rightarrow> json \<Rightarrow> bool" where
  "hides key j \<longleftrightarrow> (case jmember key j of None \<Rightarrow> True | Some v \<Rightarrow> v = masked_value)"

definition hides_settings :: "json \<Rightarrow> bool" where
  "hides_settings s \<longleftrightarrow> each_at ''vnext'' (each_at ''users'' (hides ''id'')) s \<and> each_at ''servers'' (hides ''password'') s"

definition hides_credentials :: "json \<Rightarrow> bool" where
  "hides_credentials =
     each_at ''outbounds'' (\<lambda>ob. case jmember ''settings'' ob of None \<Rightarrow> True | Some s \<Rightarrow> hides_settings s)"

lemma each_at_map:
  assumes "\<And>j. p (f j)"
  shows "each_at key p (map_member key (map_array f) j)"
proof (cases "jmember key j")
  case (Some v)
  with assms show ?thesis by (cases v) (simp_all add: each_at_def jmember_map_member list_all_iff)
qed (simp add: each_at_def jmember_map_member)

lemma each_at_other: "key' \<noteq> key \<Longrightarrow> each_at key' p (map_member key f j) = each_at key' p j"
  by (simp add: each_at_def jmember_map_member)

lemma hides_masked: "hides key (map_member key (\<lambda>_. masked_value) j)"
  by (cases "jmember key j") (simp_all add: hides_def jmember_map_member)

lemma desensitize_hides: "hides_credentials (desensitize j)"
proof -
  have "each_at ''users'' (hides ''id'') (mask_vnext v)" for v
    unfolding mask_vnext_def by (rule each_at_map) (simp add: mask_user_def hides_masked)
  then have vnext: "each_at ''vnext'' (each_at ''users'' (hides ''id'')) (map_member ''vnext'' (map_array mask_vnext) s)" for s
    by (rule each_at_map)
  have servers: "each_at ''servers'' (hides ''password'') (map_member ''servers'' (map_array mask_server) s)" for s
    by (rule each_at_map) (simp add: mask_server_def hides_masked)
  show ?thesis
    unfolding hides_credentials_def desensitize_def
  proof (rule each_at_map)
    fix ob
    show "case jmember ''settings'' (mask_outbound ob) of None \<Rightarrow> True | Some s \<Rightarrow> hides_settings s"
      by (cases "jmember ''settings'' ob")
        (simp_all add: mask_outbound_def jmember_map_member hides_settings_def vnext servers each_at_other)
  qed
qed

lemma desensitize_keeps:
  "key \<noteq> ''outbounds'' \<Longrightarrow> jmember key (desensitize j) = jmember key j"
  "validate_json (desensitize j) = validate_json j"
proof -
  show "key \<noteq> ''outbounds'' \<Longrightarrow> jmember key (desensitize j) = jmember key j"
    by (simp add: desensitize_def jmember_map_member)
  have "is_array (map_array f v) = is_array v" for f v by (cases v) (simp_all add: is_array_def)
  moreover have "is_object (map_member k f j) = is_object j" for k f by (cases j) simp_all
  ultimately show "validate_json (desensitize j) = validate_json j"
    by (simp add: validate_json_def desensitize_def jmember_map_member split: option.split)
qed

section \<open>Records\<close>

definition user_view :: "user_info \<Rightarrow> json" where
  "user_view u = JObj [(''username'', JStr (ui_username u)), (''expire_time'', JInt (ui_expire_time u)),
     (''active'', JBool (ui_active u))]"

definition action_text :: "route_action \<Rightarrow> string" where
  "action_text a = (if a = Direct then ''direct'' else ''proxy'')"

definition rule_view :: "route_rule \<Rightarrow> json" where
  "rule_view r = JObj [(''rule_id'', JStr (ru_rule_id r)), (''rule_type'', JStr (ru_rule_type r)),
     (''pattern'', JStr (ru_pattern r)), (''action'', JStr (action_text (ru_action r))),
     (''priority'', JInt (ru_priority r)), (''enabled'', JBool (ru_enabled r)),
     (''is_builtin'', JBool (ru_is_builtin r))]"

text \<open>The rule a body describes; \<open>None\<close> where an accessor throws.\<close>

definition rule_of_json :: "json \<Rightarrow> route_rule option" where
  "rule_of_json j = do {
     rule_id \<leftarrow> jvalue get_string ''rule_id'' '''' j;
     rule_type \<leftarrow> jvalue get_string ''rule_type'' '''' j;
     pattern \<leftarrow> jvalue get_string ''pattern'' '''' j;
     action \<leftarrow> jvalue get_string ''action'' ''direct'' j;
     priority \<leftarrow> jvalue get_int ''priority'' 0 j;
     enabled \<leftarrow> jvalue get_bool ''enabled'' True j;
     Some \<lparr>ru_rule_id = rule_id, ru_rule_type = rule_type, ru_pattern = pattern,
           ru_action = (if action = ''direct'' then Direct else Proxy), ru_priority = priority,
           ru_enabled = enabled, ru_is_builtin = False\<rparr> }"

definition log_view :: "log_entry \<Rightarrow> json" where
  "log_view e = JObj ([(''ts'', JInt (le_ts e)), (''level'', JStr (le_level e)), (''module'', JStr (le_module e)),
     (''msg'', JStr (le_msg e))] @ (if le_session e \<noteq> '''' then [(''session_id'', JStr (le_session e))] else []))"

definition traffic_view :: "metrics_collector \<Rightarrow> (string \<times> json) list" where
  "traffic_view mc =
     [(''active_connections'', JInt (mc_active_connections mc)), (''total_connections'', JInt (mc_total_connections mc)),
      (''direct_bytes_up'', JInt (uint (mc_direct_bytes_up mc))), (''direct_bytes_down'', JInt (uint (mc_direct_bytes_down mc))),
      (''proxy_bytes_up'', JInt (uint (mc_proxy_bytes_up mc))), (''proxy_bytes_down'', JInt (uint (mc_proxy_bytes_down mc)))]"

definition global_view :: "global_stats \<Rightarrow> json" where
  "global_view g = JObj [(''active_connections'', JInt (gs_active_connections g)),
     (''total_connections'', JInt (gs_total_connections g)), (''queued_connections'', JInt (gs_queued_connections g)),
     (''max_connections'', JInt (gs_max_connections g)), (''is_overloaded'', JBool (gs_is_overloaded g))]"

definition node_metrics_view :: "node_metrics \<Rightarrow> json" where
  "node_metrics_view m = JObj [(''tag'', JStr (nm_tag m)), (''active_connections'', JInt (nm_active_connections m)),
     (''total_connections'', JInt (nm_total_connections m)), (''bytes_up'', JInt (uint (nm_bytes_up m))),
     (''bytes_down'', JInt (uint (nm_bytes_down m))), (''latency_ms'', JInt (nm_latency_ms m)),
     (''health'', JStr (nm_health m))]"

definition user_metrics_view :: "user_metrics \<Rightarrow> json" where
  "user_metrics_view m = JObj [(''username'', JStr (um_username m)),
     (''active_connections'', JInt (um_active_connections m)), (''total_connections'', JInt (um_total_connections m)),
     (''bytes_up'', JInt (uint (um_bytes_up m))), (''bytes_down'', JInt (uint (um_bytes_down m)))]"

definition connection_view :: "connection_record \<Rightarrow> json" where
  "connection_view c = JObj [(''session_id'', JStr (cr_session_id c)), (''client_ip'', JStr (cr_client_ip c)),
     (''username'', JStr (cr_username c)), (''node_tag'', JStr (cr_assigned_node_tag c)),
     (''state'', JInt (int (state_code (cr_state c))))]"

text \<open>The connections of the nodes in the order of their table; without one the member stays null.\<close>

definition history_view :: "string list \<Rightarrow> history_snapshot \<Rightarrow> json" where
  "history_view tags h =
     (let nodes = List.map_filter (\<lambda>t. map_option (\<lambda>n. (t, JInt n)) (hs_node_connections h t)) tags
      in JObj [(''active_connections'', JInt (hs_active_connections h)),
               (''queued_connections'', JInt (hs_queued_connections h)),
               (''node_connections'', if nodes = [] then JNull else JObj nodes)])"

fun health_code :: "node_health_status \<Rightarrow> int" where
  "health_code Available = 0"
| "health_code Unavailable = 1"
| "health_code Unstable = 2"

definition health_view :: "node_health_info \<Rightarrow> json" where
  "health_view h = JObj [(''tag'', JStr (nh_tag h)), (''status'', JInt (health_code (nh_status h))),
     (''latency_ms'', JInt (nh_latency_ms h)), (''consecutive_failures'', JInt (nh_consecutive_failures h)),
     (''total_checks'', JInt (nh_total_checks h)), (''failed_checks'', JInt (nh_failed_checks h))]"

definition overload_view :: "overload_status \<Rightarrow> json" where
  "overload_view st = JObj [(''is_overloaded'', JBool (is_overloaded st)), (''fd_usage_pct'', JReal (fd_usage_pct st)),
     (''mem_usage_pct'', JReal (mem_usage_pct st)), (''total_connections'', JInt (total_connections st)),
     (''reason'', JStr (reason st))]"

definition check_view :: "sys_check_result \<Rightarrow> json" where
  "check_view r = JObj [(''item'', JStr (ck_item r)), (''current_value'', JStr (ck_current_value r)),
     (''recommend_value'', JStr (ck_recommend_value r)), (''is_ok'', JBool (ck_is_ok r)),
     (''suggestion'', JStr (ck_suggestion r))]"

definition settings_view :: "system_config \<Rightarrow> json" where
  "settings_view c = JObj
     [(''proxy_port'', JInt (sc_proxy_port c)), (''web_ui_port'', JInt (sc_web_ui_port c)),
      (''web_ui_https_enabled'', JBool (sc_web_ui_https_enabled c)),
      (''default_route_action'', JStr (sc_default_route_action c)),
      (''proxy_thread_count'', JInt (sc_proxy_thread_count c)),
      (''v2rayn_executable_path'', JStr (sc_v2rayn_executable_path c)),
      (''v2rayn_config_path'', JStr (sc_v2rayn_config_path c)),
      (''v2rayn_local_socks_port'', JInt (sc_v2rayn_local_socks_port c)),
      (''v2rayn_local_http_port'', JInt (sc_v2rayn_local_http_port c)),
      (''admin_username'', JStr (sc_admin_username c)), (''geoip_db_path'', JStr (sc_geoip_db_path c)),
      (''log_file_path'', JStr (sc_log_file_path c)), (''user_data_path'', JStr (sc_user_data_path c))]"

definition limits_view :: "system_config \<Rightarrow> json" where
  "limits_view c = JObj [(''max_conn_per_ip_per_sec'', JInt (sc_max_conn_per_ip_per_sec c)),
     (''max_auth_fails_per_min'', JInt (sc_max_auth_fails_per_min c)), (''ban_duration_sec'', JInt (sc_ban_duration_sec c))]"

definition ends_with :: "string \<Rightarrow> string \<Rightarrow> bool" where
  "ends_with path suff \<longleftrightarrow> length path \<ge> length suff \<and> drop (length path - length suff) path = suff"

definition get_mime_type :: "string \<Rightarrow> string" where
  "get_mime_type path =
     (if ends_with path ''.css'' then ''text/css''
      else if ends_with path ''.js'' then ''application/javascript''
      else if ends_with path ''.json'' then ''application/json''
      else if ends_with path ''.png'' then ''image/png''
      else if ends_with path ''.svg'' then ''image/svg+xml''
      else if ends_with path ''.ico'' then ''image/x-icon''
      else if ends_with path ''.woff'' then ''font/woff''
      else if ends_with path ''.woff2'' then ''font/woff2''
      else if ends_with path ''.map'' then ''application/json''
      else ''text/html'')"

end
