(* ===== verification/Web_Api.thy ===== *)
theory Web_Api
  imports Api_Views Servers Vm_Node_Manager
begin

text \<open>
  The handlers of \<^verbatim>\<open>src/src/web_server/api_router.cpp\<close>: each is a function of the environment, the request
  and the state of all components it calls, to the answer and the state it leaves. Which handler a
  request reaches is decided by the web framework, so the route is an argument. This theory has the
  state, the guards and the handlers of accounts, rules, settings, logs and files.
\<close>

section \<open>State, environment, requests and answers\<close>

text \<open>\<open>as_secret\<close> is the secret the tokens are signed with, set at the start.\<close>

record api_state =
  as_config :: config_loader
  as_config_files :: "string \<Rightarrow> config_file"
  as_secret :: string
  as_login :: login_state
  as_users :: user_manager
  as_user_files :: "string \<Rightarrow> users_doc"
  as_routes :: route_engine
  as_rule_files :: "string \<Rightarrow> rules_doc"
  as_vm :: vm_system
  as_log :: structured_logger
  as_audit :: "audit_entry list"
  as_traffic :: metrics_collector
  as_metrics :: concurrency_metrics
  as_admitter :: "unit connection_admitter"
  as_overload :: overload_protector
  as_registry :: connection_registry
  as_tuner :: system_tuner
  as_server :: server_app

text \<open>
  What the environment answers while one request is handled: the libraries, the clocks, whether files
  can be written, the orders in which hash tables are iterated, the two directions between the
  upstream configuration as a document and its parts, the static files and the readings of the system.
\<close>

record api_env =
  ae_jw :: jwt_lib
  ae_cx :: crypto
  ae_lib :: link_lib
  ae_vm :: vm_env
  ae_now_sec :: int
  ae_now_ms :: int
  ae_config_opens :: bool
  ae_config_renames :: bool
  ae_users_opens :: bool
  ae_users_renames :: bool
  ae_rules_opens :: bool
  ae_rules_renames :: bool
  ae_audit_opens :: bool
  ae_sort :: "route_rule list \<Rightarrow> route_rule list"
  ae_user_order :: "string list"
  ae_user_metric_order :: "string list"
  ae_node_metric_order :: "string list"
  ae_connection_order :: "string list"
  ae_health_order :: "string list"
  ae_doc_of_json :: "json \<Rightarrow> config_doc"
  ae_json_of_doc :: "config_doc \<Rightarrow> json"
  ae_static :: "string \<Rightarrow> string option"
  ae_os :: os_view
  ae_round :: "rat \<Rightarrow> rat"
  ae_first_line :: "string \<Rightarrow> string option"
  ae_percent :: "rat \<Rightarrow> string"

text \<open>\<open>aq_body\<close> is \<open>None\<close> where the body does not parse.\<close>

record api_request =
  aq_http :: http_req
  aq_body :: "json option"
  aq_param :: "string \<Rightarrow> string option"

text \<open>
  \<open>Failed\<close> carries the message of a node operation; \<open>Text\<close> has a content type. \<open>Unhandled\<close>: an
  exception leaves the handler, which the framework answers with 500; \<open>Undefined\<close>: the code runs
  into undefined behaviour.
\<close>

datatype api_response =
  Reply nat json | Failed nat vm_error | Text nat string string | Unhandled | Undefined

definition ok_members :: "(string \<times> json) list \<Rightarrow> api_response" where
  "ok_members ms = Reply 200 (JObj ms)"

definition ok_reply :: api_response where
  "ok_reply = ok_members [(''ok'', JBool True)]"

definition error_reply :: "nat \<Rightarrow> string \<Rightarrow> api_response" where
  "error_reply code msg = Reply code (JObj [(''error'', JStr msg)])"

definition bad_request :: api_response where
  "bad_request = error_reply 400 ''bad_request''"

type_synonym handler = "api_env \<Rightarrow> api_request \<Rightarrow> api_state \<Rightarrow> api_response \<times> api_state"

section \<open>Guards and bodies\<close>

text \<open>The two macros at the head of a handler.\<close>

definition deny :: "nat \<Rightarrow> api_response" where
  "deny code = error_reply code (if code = 403 then ''admin_required'' else ''unauthorized'')"

definition auth_guard :: "handler \<Rightarrow> handler" where
  "auth_guard h env rq s =
     (case require_auth (ae_jw env) (as_secret s) (ae_now_sec env) (aq_http rq) of
        Deny code \<Rightarrow> (deny code, s) | Pass \<Rightarrow> h env rq s)"

definition admin_guard :: "handler \<Rightarrow> handler" where
  "admin_guard h env rq s =
     (case require_admin (ae_jw env) (as_secret s) (ae_now_sec env) (aq_http rq) of
        Deny code \<Rightarrow> (deny code, s) | Pass \<Rightarrow> h env rq s)"

definition with_body :: "(json \<Rightarrow> handler) \<Rightarrow> handler" where
  "with_body h env rq s = (case aq_body rq of None \<Rightarrow> (bad_request, s) | Some body \<Rightarrow> h body env rq s)"

text \<open>An integer parameter of the URL, with its default; \<open>None\<close>: \<^verbatim>\<open>stoi\<close> throws.\<close>

definition int_param :: "string \<Rightarrow> int \<Rightarrow> api_request \<Rightarrow> int option" where
  "int_param name d rq = (case aq_param rq name of None \<Rightarrow> Some d | Some t \<Rightarrow> stoi t)"

definition string_param :: "string \<Rightarrow> api_request \<Rightarrow> string" where
  "string_param name rq = member_or '''' (aq_param rq name)"

text \<open>An \<^verbatim>\<open>int\<close> that becomes a \<^verbatim>\<open>size_t\<close>.\<close>

definition size_t_of :: "int \<Rightarrow> nat" where
  "size_t_of i = nat (i mod 2 ^ 64)"

text \<open>
  \<^verbatim>\<open>if (body.contains(key)) ...\<close> with the member converted: \<open>Inl\<close> carries the state that is left where
  the conversion throws. A sequence of them stops at the first that does.
\<close>

type_synonym change = "json \<Rightarrow> api_state \<Rightarrow> api_state + api_state"

definition change_member :: "string \<Rightarrow> (json \<Rightarrow> 'v option) \<Rightarrow> ('v \<Rightarrow> api_state \<Rightarrow> api_state) \<Rightarrow> change" where
  "change_member key get f body s =
     (case jmember key body of
        None \<Rightarrow> Inr s
      | Some v \<Rightarrow> (case get v of None \<Rightarrow> Inl s | Some x \<Rightarrow> Inr (f x s)))"

fun run_changes :: "change list \<Rightarrow> json \<Rightarrow> api_state \<Rightarrow> api_state + api_state" where
  "run_changes [] body s = Inr s"
| "run_changes (c # cs) body s = (case c body s of Inl s1 \<Rightarrow> Inl s1 | Inr s1 \<Rightarrow> run_changes cs body s1)"

section \<open>Parts of the state\<close>

abbreviation cfg_of :: "api_state \<Rightarrow> system_config" where
  "cfg_of s \<equiv> cl_config (as_config s)"

definition set_cfg :: "(system_config \<Rightarrow> system_config) \<Rightarrow> api_state \<Rightarrow> api_state" where
  "set_cfg f s = s\<lparr>as_config := (as_config s)\<lparr>cl_config := f (cfg_of s)\<rparr>\<rparr>"

definition audit :: "api_env \<Rightarrow> string \<Rightarrow> string \<Rightarrow> string \<Rightarrow> api_state \<Rightarrow> api_state" where
  "audit env operator action target s =
     s\<lparr>as_audit := audit_log (ae_audit_opens env) (ae_now_ms env) operator action target (as_audit s)\<rparr>"

definition save_accounts :: "api_env \<Rightarrow> api_state \<Rightarrow> api_state" where
  "save_accounts env s =
     s\<lparr>as_user_files := snd (save_users (ae_users_opens env) (ae_users_renames env) (ae_user_order env)
                              (as_users s) (as_user_files s))\<rparr>"

definition admin_account :: "api_state \<Rightarrow> string \<times> string" where
  "admin_account s = (sc_admin_username (cfg_of s), sc_admin_password_hash (cfg_of s))"

section \<open>Logging in and out\<close>

definition login_body :: "json option \<Rightarrow> (string option \<times> string option) option" where
  "login_body body = do {
     j \<leftarrow> body;
     username \<leftarrow> opt_member get_string ''username'' j;
     password \<leftarrow> opt_member get_string ''password'' j;
     Some (username, password) }"

fun login_reply :: "login_response \<Rightarrow> api_response" where
  "login_reply (Logged_in token username role) =
     ok_members [(''token'', JStr token), (''username'', JStr username), (''role'', JStr role)]"
| "login_reply (Locked remaining) =
     Reply 429 (JObj [(''error'', JStr ''locked''), (''remaining'', JInt remaining)])"
| "login_reply Account_disabled = error_reply 403 ''account_disabled''"
| "login_reply Account_expired = error_reply 403 ''account_expired''"
| "login_reply Invalid_credentials = error_reply 401 ''invalid_credentials''"
| "login_reply Bad_login_request = bad_request"

definition post_login :: handler where
  "post_login env rq s =
     (let (r, lg) = api_login (ae_jw env) (as_secret s) (ae_cx env) (admin_account s) (as_users s)
                      (ae_now_sec env) (login_body (aq_body rq)) (as_login s);
          s1 = s\<lparr>as_login := lg\<rparr>
      in (login_reply r,
          case r of
            Logged_in token username role \<Rightarrow>
              audit env username ''login'' (if role = ''admin'' then ''system'' else ''user'') s1
          | _ \<Rightarrow> s1))"

definition logout_token :: "http_req \<Rightarrow> string" where
  "logout_token rq =
     (case rq_authorization rq of None \<Rightarrow> ''''
      | Some t \<Rightarrow> if take 7 t = ''Bearer '' then drop 7 t else t)"

definition post_logout :: handler where
  "post_logout = auth_guard (\<lambda>env rq s.
     (ok_reply,
      audit env (jwt_get_username (ae_jw env) (as_secret s) (ae_now_sec env) (logout_token (aq_http rq)))
        ''logout'' ''system'' s))"

section \<open>Dashboard and logs\<close>

definition get_stats :: handler where
  "get_stats = auth_guard (\<lambda>env rq s.
     (ok_members (traffic_view (mc_snapshot (as_traffic s))
        @ [(''proxy_running'', JBool (sa_running (as_server s))), (''proxy_port'', JInt (sa_port (as_server s))),
           (''v2rayn_status'',
            JStr (if vp_status (vm_process (as_vm s)) = Running then ''running'' else ''stopped''))]), s))"

definition get_dashboard_logs :: handler where
  "get_dashboard_logs = auth_guard (\<lambda>env rq s.
     (case int_param ''count'' 50 rq of
        None \<Rightarrow> (Unhandled, s)
      | Some n \<Rightarrow> (Reply 200 (JArr (map log_view (get_recent_logs (size_t_of n) '''' (as_log s)))), s)))"

definition get_logs :: handler where
  "get_logs = auth_guard (\<lambda>env rq s.
     (case int_param ''count'' 100 rq of
        None \<Rightarrow> (Unhandled, s)
      | Some n \<Rightarrow>
          (Reply 200 (JArr (map log_view (get_recent_logs (size_t_of n) (string_param ''level'' rq) (as_log s)))), s)))"

definition get_health :: handler where
  "get_health env rq s =
     (ok_members [(''status'', JStr ''ok''), (''proxy_running'', JBool (sa_running (as_server s))),
        (''v2rayn_running'', JBool (vp_status (vm_process (as_vm s)) = Running))], s)"

section \<open>Accounts\<close>

definition get_users :: handler where
  "get_users = auth_guard (\<lambda>env rq s.
     (case (int_param ''page'' 1 rq, int_param ''page_size'' 20 rq) of
        (Some page, Some page_size) \<Rightarrow>
          (case list_users_paginated (ae_user_order env) page page_size (as_users s) of
             None \<Rightarrow> (Undefined, s)
           | Some us \<Rightarrow>
               (ok_members [(''users'', JArr (map user_view us)), (''page'', JInt page), (''page_size'', JInt page_size)], s))
      | _ \<Rightarrow> (Unhandled, s)))"

definition post_user :: handler where
  "post_user = admin_guard (with_body (\<lambda>body env rq s.
     (case (jvalue get_string ''username'' '''' body, jvalue get_string ''password'' '''' body,
            jvalue get_int ''days'' 0 body) of
        (Some username, Some password, Some days) \<Rightarrow>
          (case add_user (ae_cx env) (ae_now_sec env) username password days (as_users s) of
             (True, um) \<Rightarrow> (ok_reply, audit env ''admin'' ''add_user'' username (save_accounts env (s\<lparr>as_users := um\<rparr>)))
           | (False, um) \<Rightarrow> (error_reply 409 ''username_exists'', s\<lparr>as_users := um\<rparr>))
      | _ \<Rightarrow> (bad_request, s))))"

definition user_changes :: "api_env \<Rightarrow> string \<Rightarrow> change list" where
  "user_changes env username =
     [change_member ''active'' get_bool (\<lambda>b s. s\<lparr>as_users := snd (set_status username b (as_users s))\<rparr>),
      change_member ''password'' get_string
        (\<lambda>p s. s\<lparr>as_users := snd (update_password (ae_cx env) username p (as_users s))\<rparr>)]"

definition put_user :: "string \<Rightarrow> handler" where
  "put_user username = admin_guard (with_body (\<lambda>body env rq s.
     (case run_changes (user_changes env username) body s of
        Inl s1 \<Rightarrow> (bad_request, s1)
      | Inr s1 \<Rightarrow> (ok_reply, audit env ''admin'' ''update_user'' username (save_accounts env s1)))))"

definition delete_user :: "string \<Rightarrow> handler" where
  "delete_user username = admin_guard (\<lambda>env rq s.
     (case remove_user username (as_users s) of
        (True, um) \<Rightarrow> (ok_reply, audit env ''admin'' ''delete_user'' username (save_accounts env (s\<lparr>as_users := um\<rparr>)))
      | (False, um) \<Rightarrow> (error_reply 404 ''not_found'', s\<lparr>as_users := um\<rparr>)))"

section \<open>Routing rules\<close>

definition get_rules :: handler where
  "get_rules = auth_guard (\<lambda>env rq s. (Reply 200 (JArr (map rule_view (manager_get_rules (as_routes s)))), s))"

definition post_rule :: handler where
  "post_rule = admin_guard (with_body (\<lambda>body env rq s.
     (case rule_of_json body of
        None \<Rightarrow> (bad_request, s)
      | Some rule \<Rightarrow>
          (case manager_add_rule (ae_sort env) (ae_rules_opens env) (ae_rules_renames env) rule
                  (sc_custom_rules_path (cfg_of s)) (as_routes s) (as_rule_files s) of
             (saved, re, fs) \<Rightarrow> (ok_reply, s\<lparr>as_routes := re, as_rule_files := fs\<rparr>)))))"

definition post_rules_reload :: handler where
  "post_rules_reload = admin_guard (\<lambda>env rq s.
     (ok_reply, s\<lparr>as_routes := reload_rules (as_rule_files s) (as_routes s)\<rparr>))"

section \<open>Settings\<close>

definition get_settings :: handler where
  "get_settings = auth_guard (\<lambda>env rq s. (Reply 200 (settings_view (cfg_of s)), s))"

text \<open>\<^verbatim>\<open>body[key] != n\<close> for a member that is there.\<close>

fun json_is_int :: "json \<Rightarrow> int \<Rightarrow> bool" where
  "json_is_int (JInt i) n \<longleftrightarrow> i = n"
| "json_is_int (JReal r) n \<longleftrightarrow> r = of_int n"
| "json_is_int _ n \<longleftrightarrow> False"

definition member_differs :: "string \<Rightarrow> int \<Rightarrow> json \<Rightarrow> bool" where
  "member_differs key n body \<longleftrightarrow> (case jmember key body of None \<Rightarrow> False | Some v \<Rightarrow> \<not> json_is_int v n)"

definition settings_changes :: "change list" where
  "settings_changes =
     [change_member ''proxy_port'' get_int (\<lambda>x. set_cfg (sc_proxy_port_update (\<lambda>_. x))),
      change_member ''web_ui_port'' get_int (\<lambda>x. set_cfg (sc_web_ui_port_update (\<lambda>_. x))),
      change_member ''default_route_action'' get_string
        (\<lambda>a s. (set_cfg (sc_default_route_action_update (\<lambda>_. a)) s)
                 \<lparr>as_routes := set_default_action a (as_routes s)\<rparr>),
      change_member ''proxy_thread_count'' get_int (\<lambda>x. set_cfg (sc_proxy_thread_count_update (\<lambda>_. x))),
      change_member ''v2rayn_executable_path'' get_string (\<lambda>x. set_cfg (sc_v2rayn_executable_path_update (\<lambda>_. x))),
      change_member ''v2rayn_local_socks_port'' get_int (\<lambda>x. set_cfg (sc_v2rayn_local_socks_port_update (\<lambda>_. x))),
      change_member ''v2rayn_local_http_port'' get_int (\<lambda>x. set_cfg (sc_v2rayn_local_http_port_update (\<lambda>_. x)))]"

definition save_settings :: "api_env \<Rightarrow> api_state \<Rightarrow> api_state" where
  "save_settings env s =
     s\<lparr>as_config_files := snd (config_save (ae_config_opens env) (ae_config_renames env) (as_config s)
                                (as_config_files s))\<rparr>"

definition put_settings :: handler where
  "put_settings = admin_guard (with_body (\<lambda>body env rq s.
     (let need_restart = member_differs ''proxy_port'' (sc_proxy_port (cfg_of s)) body
                         \<or> member_differs ''web_ui_port'' (sc_web_ui_port (cfg_of s)) body
      in case run_changes settings_changes body s of
           Inl s1 \<Rightarrow> (bad_request, s1)
         | Inr s1 \<Rightarrow> (ok_members [(''ok'', JBool True), (''need_restart'', JBool need_restart)], save_settings env s1))))"

definition get_rate_limits :: handler where
  "get_rate_limits = auth_guard (\<lambda>env rq s. (Reply 200 (limits_view (cfg_of s)), s))"

section \<open>Files\<close>

text \<open>Names are below the directory of the static files; a file that cannot be opened reads as empty.\<close>

definition read_file :: "api_env \<Rightarrow> string \<Rightarrow> string" where
  "read_file env path = member_or '''' (ae_static env path)"

definition get_index :: handler where
  "get_index env rq s =
     (let content = read_file env ''index.html''
      in (if content = '''' then Text 404 '''' ''Not found'' else Text 200 ''text/html'' content, s))"

definition get_asset :: "string \<Rightarrow> handler" where
  "get_asset file_path env rq s =
     (if find_sub ''..'' 0 file_path \<noteq> None then (Text 403 '''' ''Forbidden'', s)
      else
        let content = read_file env (''assets/'' @ file_path)
        in (if content = '''' then Text 404 '''' ''Not found'' else Text 200 (get_mime_type file_path) content, s))"

definition get_other :: handler where
  "get_other env rq s =
     (case ae_static env ''index.html'' of
        None \<Rightarrow> (Text 404 '''' ''Not Found'', s)
      | Some content \<Rightarrow> (Text 200 ''text/html'' content, s))"

end
