(* ===== verification/Web_Api_Routes.thy ===== *)
theory Web_Api_Routes
  imports Web_Api
begin

text \<open>
  The handlers of \<^verbatim>\<open>src/src/web_server/api_router.cpp\<close> for the upstream proxy, its nodes and the
  concurrency monitor, and the table of all routes.
\<close>

section \<open>The upstream proxy\<close>

fun v2rayn_status_text :: "v2rayn_status \<Rightarrow> string" where
  "v2rayn_status_text Running = ''running''"
| "v2rayn_status_text Starting = ''starting''"
| "v2rayn_status_text Process_failed = ''failed''"
| "v2rayn_status_text Stopped = ''stopped''"

definition set_process :: "v2rayn_process \<Rightarrow> api_state \<Rightarrow> api_state" where
  "set_process vp s = s\<lparr>as_vm := (as_vm s)\<lparr>vm_process := vp\<rparr>\<rparr>"

definition get_v2rayn_status :: handler where
  "get_v2rayn_status = auth_guard (\<lambda>env rq s.
     (let vp = vm_process (as_vm s)
      in (ok_members [(''status'', JStr (v2rayn_status_text (vp_status vp))), (''pid'', JInt (vp_pid vp)),
            (''crash_count'', JInt (vp_crash_count vp))], s)))"

definition post_v2rayn_start :: handler where
  "post_v2rayn_start = admin_guard (\<lambda>env rq s.
     (ok_reply,
      set_process (snd (process_start (sc_v2rayn_executable_path (cfg_of s)) (sc_v2rayn_config_path (cfg_of s))
                          (sc_log_file_path (cfg_of s) @ ''v2rayn.log'') (ve_forked (ae_vm env))
                          (vm_process (as_vm s)))) s))"

definition post_v2rayn_stop :: handler where
  "post_v2rayn_stop = admin_guard (\<lambda>env rq s.
     (ok_reply, set_process (snd (process_stop (ve_gone_at (ae_vm env)) (vm_process (as_vm s)))) s))"

definition post_v2rayn_restart :: handler where
  "post_v2rayn_restart = admin_guard (\<lambda>env rq s.
     (ok_reply,
      set_process (snd (process_restart (ve_gone_at (ae_vm env)) (ve_forked (ae_vm env)) (vm_process (as_vm s)))) s))"

text \<open>\<^verbatim>\<open>v2rayn_config::load\<close>: a file that cannot be read is the null document.\<close>

definition config_json :: "api_env \<Rightarrow> vm_system \<Rightarrow> json" where
  "config_json env vm = (case vm_config_file vm of None \<Rightarrow> JNull | Some doc \<Rightarrow> ae_json_of_doc env doc)"

definition get_v2rayn_config :: handler where
  "get_v2rayn_config = auth_guard (\<lambda>env rq s. (Reply 200 (desensitize (config_json env (as_vm s))), s))"

definition save_config_json :: "api_env \<Rightarrow> json \<Rightarrow> vm_system \<Rightarrow> vm_system" where
  "save_config_json env j vm =
     (if ve_config_writable (ae_vm env) then vm\<lparr>vm_config_file := Some (ae_doc_of_json env j)\<rparr> else vm)"

definition put_v2rayn_config :: handler where
  "put_v2rayn_config = admin_guard (with_body (\<lambda>body env rq s.
     (if \<not> validate_json body then (error_reply 400 ''invalid_config'', s)
      else (ok_reply, s\<lparr>as_vm := save_config_json env body (as_vm s)\<rparr>))))"

section \<open>Nodes\<close>

text \<open>
  The answer to an operation on the nodes: \<open>threw\<close> is what an exception is answered with, which depends
  on whether the handler catches it.
\<close>

fun vm_reply :: "api_response \<Rightarrow> api_response \<Rightarrow> nat \<Rightarrow> vm_result \<Rightarrow> api_response" where
  "vm_reply ok threw code Done = ok"
| "vm_reply ok threw code (Refused e) = Failed code e"
| "vm_reply ok threw code Threw = threw"

definition set_vm :: "vm_system \<Rightarrow> api_state \<Rightarrow> api_state" where
  "set_vm vm s = s\<lparr>as_vm := vm\<rparr>"

text \<open>\<open>empty_text\<close> is the Chinese for "must not be empty", \<open>link_text\<close> that for "the link".\<close>

definition empty_text :: string where
  "empty_text = map char_of [0xE4 :: nat, 0xB8, 0x8D, 0xE8, 0x83, 0xBD, 0xE4, 0xB8, 0xBA, 0xE7, 0xA9, 0xBA]"

definition link_text :: string where
  "link_text = map char_of [0xE9 :: nat, 0x93, 0xBE, 0xE6, 0x8E, 0xA5]"

definition active_member :: "vm_system \<Rightarrow> string \<times> json" where
  "active_member vm = (''active_node'', JStr (get_active_node vm))"

definition get_nodes :: handler where
  "get_nodes = auth_guard (\<lambda>env rq s.
     (ok_members [(''nodes'', JArr (map json_of_node (list_nodes True (as_vm s)))), active_member (as_vm s)], s))"

definition get_one_node :: "string \<Rightarrow> handler" where
  "get_one_node tag = auth_guard (\<lambda>env rq s.
     (case get_node tag (as_vm s) of
        None \<Rightarrow> (error_reply 404 ''not_found'', s)
      | Some n \<Rightarrow> (Reply 200 (json_of_node n), s)))"

definition post_node :: handler where
  "post_node = admin_guard (with_body (\<lambda>body env rq s.
     (case node_of_json body of
        None \<Rightarrow> (bad_request, s)
      | Some n \<Rightarrow>
          (case add_node (ae_vm env) n (as_vm s) of
             (r, vm) \<Rightarrow> (vm_reply (ok_members [(''ok'', JBool True), (''tag'', JStr (vn_tag n))]) bad_request 400 r,
                         set_vm vm s)))))"

definition put_node :: "string \<Rightarrow> handler" where
  "put_node old_tag = admin_guard (with_body (\<lambda>body env rq s.
     (case node_of_json body of
        None \<Rightarrow> (bad_request, s)
      | Some n \<Rightarrow>
          (case Vm_Node_Manager.update_node (ae_vm env) old_tag n (as_vm s) of
             (r, vm) \<Rightarrow> (vm_reply ok_reply bad_request 400 r, set_vm vm s)))))"

definition delete_node :: "string \<Rightarrow> handler" where
  "delete_node tag = admin_guard (\<lambda>env rq s.
     (case remove_node (ae_vm env) tag (as_vm s) of
        (r, vm) \<Rightarrow> (vm_reply ok_reply Unhandled 400 r, set_vm vm s)))"

definition put_reorder :: handler where
  "put_reorder = admin_guard (with_body (\<lambda>body env rq s.
     (case jindex ''ordered_tags'' body of
        None \<Rightarrow> (bad_request, s)
      | Some v \<Rightarrow>
          (case get_all get_string (jelems v) of
             None \<Rightarrow> (bad_request, s)
           | Some tags \<Rightarrow> (ok_reply, set_vm (reorder_nodes tags (as_vm s)) s)))))"

text \<open>The second half of both handlers that apply the configuration.\<close>

definition apply_reply :: "api_response \<Rightarrow> handler" where
  "apply_reply threw env rq s =
     (case apply_config (ae_vm env) (as_vm s) of
        (r, vm) \<Rightarrow> (vm_reply (ok_members [(''ok'', JBool True), active_member vm]) threw 500 r, set_vm vm s))"

definition activate_then_apply :: "string \<Rightarrow> api_response \<Rightarrow> handler" where
  "activate_then_apply tag threw env rq s =
     (case set_active_node tag (as_vm s) of
        (Done, vm) \<Rightarrow> apply_reply threw env rq (set_vm vm s)
      | (r, vm) \<Rightarrow> (vm_reply ok_reply threw 400 r, set_vm vm s))"

definition post_apply :: handler where
  "post_apply = admin_guard (\<lambda>env rq s.
     (case Option.bind (aq_body rq) (jvalue get_string ''node_tag'' '''') of
        None \<Rightarrow> apply_reply Unhandled env rq s
      | Some tag \<Rightarrow>
          if tag = '''' then apply_reply Unhandled env rq s else activate_then_apply tag Unhandled env rq s))"

definition get_active :: handler where
  "get_active = auth_guard (\<lambda>env rq s. (ok_members [active_member (as_vm s)], s))"

definition post_active :: handler where
  "post_active = admin_guard (with_body (\<lambda>body env rq s.
     (case jvalue get_string ''node_tag'' '''' body of
        None \<Rightarrow> (bad_request, s)
      | Some tag \<Rightarrow>
          if tag = '''' then (error_reply 400 (''node_tag'' @ empty_text), s)
          else activate_then_apply tag bad_request env rq s)))"

definition with_link :: "(string \<Rightarrow> handler) \<Rightarrow> handler" where
  "with_link h = with_body (\<lambda>body env rq s.
     (case jvalue get_string ''vmess_link'' '''' body of
        None \<Rightarrow> (bad_request, s)
      | Some link \<Rightarrow> if link = '''' then (error_reply 400 (link_text @ empty_text), s) else h link env rq s))"

definition ok_node :: "vm_node \<Rightarrow> api_response" where
  "ok_node n = ok_members [(''ok'', JBool True), (''node'', json_of_node n)]"

definition post_parse :: handler where
  "post_parse = auth_guard (with_link (\<lambda>link env rq s.
     (case decode_link (ae_lib env) link of
        Inl e \<Rightarrow> (if e = Throws then bad_request else Failed 400 (Bad_link e), s)
      | Inr n \<Rightarrow> (ok_node n, s))))"

definition post_import :: handler where
  "post_import = admin_guard (with_link (\<lambda>link env rq s.
     (case import_from_link (ae_lib env) (ae_vm env) link (as_vm s) of
        ((r, added), vm) \<Rightarrow>
          (case added of Some n \<Rightarrow> ok_node n | None \<Rightarrow> vm_reply ok_reply bad_request 400 r, set_vm vm s))))"

definition post_export :: "string \<Rightarrow> handler" where
  "post_export tag = admin_guard (\<lambda>env rq s.
     (case get_node tag (as_vm s) of
        None \<Rightarrow> (error_reply 404 ''not_found'', s)
      | Some n \<Rightarrow> (ok_members [(''vmess_link'', JStr (export_to_link (ae_lib env) n))], s)))"

section \<open>The concurrency monitor\<close>

definition get_concurrency_stats :: handler where
  "get_concurrency_stats = auth_guard (\<lambda>env rq s.
     (Reply 200 (global_view (get_global_stats (ae_round env) (ae_os env) (as_overload s) (as_admitter s)
                                (as_metrics s))), s))"

definition get_concurrency_nodes :: handler where
  "get_concurrency_nodes = auth_guard (\<lambda>env rq s.
     (Reply 200 (JArr (map node_metrics_view (get_all_node_metrics (ae_node_metric_order env) (as_metrics s)))), s))"

text \<open>The page is cut out by index; a negative index is undefined behaviour.\<close>

definition get_concurrency_users :: handler where
  "get_concurrency_users = auth_guard (\<lambda>env rq s.
     (case (int_param ''page'' 1 rq, int_param ''size'' 50 rq) of
        (Some page, Some page_size) \<Rightarrow>
          let users = get_all_user_metrics (ae_user_metric_order env) (as_metrics s);
              start = to_int32 (to_int32 (page - 1) * page_size);
              stop = min (to_int32 (start + page_size)) (int (length users))
          in if start < stop \<and> start < 0 then (Undefined, s)
             else (Reply 200 (JArr (map user_metrics_view (take (nat (stop - start)) (drop (nat start) users)))), s)
      | _ \<Rightarrow> (Unhandled, s)))"

definition get_connections :: handler where
  "get_connections = auth_guard (\<lambda>env rq s.
     (let node = string_param ''node'' rq; user = string_param ''user'' rq
      in case int_param ''limit'' 100 rq of
           None \<Rightarrow> (Unhandled, s)
         | Some limit \<Rightarrow>
             (Reply 200 (JArr (map connection_view (take (nat limit)
                (filter (\<lambda>c. (node = '''' \<or> cr_assigned_node_tag c = node) \<and> (user = '''' \<or> cr_username c = user))
                   (reg_get_all (ae_connection_order env) (as_registry s)))))), s)))"

definition get_concurrency_history :: handler where
  "get_concurrency_history = auth_guard (\<lambda>env rq s.
     (case int_param ''minutes'' 1440 rq of
        None \<Rightarrow> (Unhandled, s)
      | Some minutes \<Rightarrow>
          (Reply 200 (JArr (map (history_view (ae_node_metric_order env))
             (get_history (ve_now (ae_vm env)) minutes (as_metrics s)))), s)))"

definition set_balancer :: "load_balancer \<Rightarrow> api_state \<Rightarrow> api_state" where
  "set_balancer lb s = s\<lparr>as_vm := (as_vm s)\<lparr>vm_balancer := lb\<rparr>\<rparr>"

definition get_schedule :: handler where
  "get_schedule = auth_guard (\<lambda>env rq s.
     (let lb = vm_balancer (as_vm s)
      in (ok_members [(''strategy'', JStr (strategy_to_string (lb_strategy lb))),
            (''ip_affinity_enabled'', JBool (lb_ip_affinity_enabled lb)),
            (''node_capacity_threshold'', JInt (lb_node_capacity_threshold lb))], s)))"

definition put_schedule :: handler where
  "put_schedule = admin_guard (with_body (\<lambda>body env rq s.
     (case jmember ''strategy'' body of
        None \<Rightarrow> (error_reply 400 ''missing strategy'', s)
      | Some v \<Rightarrow>
          (case get_string v of
             None \<Rightarrow> (bad_request, s)
           | Some name \<Rightarrow> (ok_reply, set_balancer (set_strategy (strategy_from_string name) (vm_balancer (as_vm s))) s)))))"

definition affinity_changes :: "change list" where
  "affinity_changes =
     [change_member ''enabled'' get_bool
        (\<lambda>b s. set_balancer (set_ip_affinity_enabled b (vm_balancer (as_vm s))) s)]"

definition put_ip_affinity :: handler where
  "put_ip_affinity = admin_guard (with_body (\<lambda>body env rq s.
     (case run_changes affinity_changes body s of
        Inl s1 \<Rightarrow> (bad_request, s1) | Inr s1 \<Rightarrow> (ok_reply, s1))))"

definition put_node_weight :: "string \<Rightarrow> handler" where
  "put_node_weight tag = admin_guard (with_body (\<lambda>body env rq s.
     (case jmember ''weight'' body of
        None \<Rightarrow> (error_reply 400 ''missing weight'', s)
      | Some v \<Rightarrow>
          (case get_int v of
             None \<Rightarrow> (bad_request, s)
           | Some weight \<Rightarrow>
               if weight < 1 \<or> weight > 100 then (error_reply 400 ''weight must be 1-100'', s)
               else (ok_reply, set_balancer (fst (set_node_weight tag weight (vm_balancer (as_vm s)))) s)))))"

definition get_node_health :: handler where
  "get_node_health = auth_guard (\<lambda>env rq s.
     (Reply 200 (JArr (map health_view (health_get_all_info (ae_health_order env) (vm_health (as_vm s))))), s))"

definition check_all_nodes :: "vm_env \<Rightarrow> vm_system \<Rightarrow> vm_system" where
  "check_all_nodes env vm =
     vm\<lparr>vm_health := fold (\<lambda>n. check_now (probe_target vm) (ve_connect env) (ve_now env) (vn_tag n))
                       (list_nodes False vm) (vm_health vm)\<rparr>"

definition post_health_check :: handler where
  "post_health_check = admin_guard (\<lambda>env rq s.
     (ok_members [(''ok'', JBool True), (''message'', JStr ''health check triggered'')],
      set_vm (check_all_nodes (ae_vm env) (as_vm s)) s))"

definition get_overload :: handler where
  "get_overload = auth_guard (\<lambda>env rq s.
     (Reply 200 (overload_view (overload_check (ae_round env) (ae_os env) (as_overload s))), s))"

definition get_concurrency_config :: handler where
  "get_concurrency_config = auth_guard (\<lambda>env rq s.
     (ok_members [(''active_connections'', JInt (get_active_connections (as_admitter s))),
        (''queued_count'', JInt (get_queued_count (as_admitter s)))], s))"

definition get_tuning :: handler where
  "get_tuning = auth_guard (\<lambda>env rq s.
     (let (startup, t1) = run_startup_check (rlim_nofile (ae_os env)) (ae_first_line env);
          (runtime, t2) = run_runtime_check (ae_percent env) (overload_check (ae_round env) (ae_os env) (as_overload s))
      in (ok_members [(''startup'', JArr (map check_view startup)), (''runtime'', JArr (map check_view runtime))],
          s\<lparr>as_tuner := t2\<rparr>)))"

definition get_tune_script :: handler where
  "get_tune_script = auth_guard (\<lambda>env rq s. (Text 200 ''text/x-shellscript'' generate_tune_script, s))"

section \<open>All routes\<close>

datatype route =
  Login | Logout | Stats | Dashboard_logs | Logs | Health_page
| Users_list | Users_add | Users_update string | Users_delete string
| Rules_list | Rules_add | Rules_reload
| V2rayn_state | V2rayn_start | V2rayn_stop | V2rayn_restart | V2rayn_config_get | V2rayn_config_put
| Settings_get | Settings_put | Index | Asset string | Other
| Nodes_list | Nodes_get string | Nodes_add | Nodes_update string | Nodes_delete string | Nodes_reorder
| Nodes_apply | Active_get | Active_set | Link_parse | Link_import | Link_export string
| Conc_stats | Conc_nodes | Conc_users | Conc_connections | Conc_history
| Schedule_get | Schedule_put | Affinity_put | Weight_put string
| Node_health_get | Node_health_check | Overload_get | Conc_config | Tuning | Tuning_script | Rate_limits

fun handle :: "route \<Rightarrow> handler" where
  "handle Login = post_login"
| "handle Logout = post_logout"
| "handle Stats = get_stats"
| "handle Dashboard_logs = get_dashboard_logs"
| "handle Logs = get_logs"
| "handle Health_page = get_health"
| "handle Users_list = get_users"
| "handle Users_add = post_user"
| "handle (Users_update name) = put_user name"
| "handle (Users_delete name) = delete_user name"
| "handle Rules_list = get_rules"
| "handle Rules_add = post_rule"
| "handle Rules_reload = post_rules_reload"
| "handle V2rayn_state = get_v2rayn_status"
| "handle V2rayn_start = post_v2rayn_start"
| "handle V2rayn_stop = post_v2rayn_stop"
| "handle V2rayn_restart = post_v2rayn_restart"
| "handle V2rayn_config_get = get_v2rayn_config"
| "handle V2rayn_config_put = put_v2rayn_config"
| "handle Settings_get = get_settings"
| "handle Settings_put = put_settings"
| "handle Index = get_index"
| "handle (Asset path) = get_asset path"
| "handle Other = get_other"
| "handle Nodes_list = get_nodes"
| "handle (Nodes_get tag) = get_one_node tag"
| "handle Nodes_add = post_node"
| "handle (Nodes_update tag) = put_node tag"
| "handle (Nodes_delete tag) = delete_node tag"
| "handle Nodes_reorder = put_reorder"
| "handle Nodes_apply = post_apply"
| "handle Active_get = get_active"
| "handle Active_set = post_active"
| "handle Link_parse = post_parse"
| "handle Link_import = post_import"
| "handle (Link_export tag) = post_export tag"
| "handle Conc_stats = get_concurrency_stats"
| "handle Conc_nodes = get_concurrency_nodes"
| "handle Conc_users = get_concurrency_users"
| "handle Conc_connections = get_connections"
| "handle Conc_history = get_concurrency_history"
| "handle Schedule_get = get_schedule"
| "handle Schedule_put = put_schedule"
| "handle Affinity_put = put_ip_affinity"
| "handle (Weight_put tag) = put_node_weight tag"
| "handle Node_health_get = get_node_health"
| "handle Node_health_check = post_health_check"
| "handle Overload_get = get_overload"
| "handle Conc_config = get_concurrency_config"
| "handle Tuning = get_tuning"
| "handle Tuning_script = get_tune_script"
| "handle Rate_limits = get_rate_limits"

end
