(* ===== verification/Web_Api_Safety.thy ===== *)
theory Web_Api_Safety
  imports Web_Api_Routes
begin

text \<open>
  What no request can do: change what the gateway manages without the administrator's token, or leave
  a component in a state that is not well formed.
\<close>

section \<open>Relations that every handler respects\<close>

text \<open>
  A relation between the state before and after that the guards and the parsing of the body respect,
  and a sequence of changes as soon as each change does.
\<close>

locale handler_relation =
  fixes R :: "api_state \<Rightarrow> api_state \<Rightarrow> bool"
  assumes R_refl: "R s s"
    and R_trans: "R s1 s2 \<Longrightarrow> R s2 s3 \<Longrightarrow> R s1 s3"
begin

lemma auth: "(\<And>env rq s. R s (snd (h env rq s))) \<Longrightarrow> R s (snd (auth_guard h env rq s))"
  by (simp add: auth_guard_def R_refl split: guard.split)

lemma admin: "(\<And>env rq s. R s (snd (h env rq s))) \<Longrightarrow> R s (snd (admin_guard h env rq s))"
  by (simp add: admin_guard_def R_refl split: guard.split)

lemma body: "(\<And>b env rq s. R s (snd (h b env rq s))) \<Longrightarrow> R s (snd (with_body h env rq s))"
  by (simp add: with_body_def R_refl split: option.split)

lemma link: "(\<And>l env rq s. R s (snd (h l env rq s))) \<Longrightarrow> R s (snd (with_link h env rq s))"
  unfolding with_link_def by (rule body) (simp add: R_refl split: option.split)

lemma member:
  "(\<And>v s. get v \<noteq> None \<Longrightarrow> R s (f (the (get v)) s)) \<Longrightarrow> case_sum (R s) (R s) (change_member key get f b s)"
  by (auto simp: change_member_def R_refl split: option.split) (metis option.distinct(1) option.sel)

lemma changes:
  "\<forall>c \<in> set cs. \<forall>s. case_sum (R s) (R s) (c b s) \<Longrightarrow> case_sum (R s) (R s) (run_changes cs b s)"
proof (induction cs arbitrary: s)
  case (Cons c cs)
  show ?case
  proof (cases "c b s")
    case (Inl s1)
    with Cons.prems show ?thesis by (metis list.set_intros(1) old.sum.simps(5) run_changes.simps(2) sum.case(1))
  next
    case (Inr s1)
    then have "R s s1" using Cons.prems by (metis list.set_intros(1) sum.case(2))
    moreover have "case_sum (R s1) (R s1) (run_changes cs b s1)" using Cons by simp
    ultimately show ?thesis using Inr by (auto split: sum.splits intro: R_trans)
  qed
qed (simp add: R_refl)

end

section \<open>What is managed\<close>

text \<open>
  Everything but the table of failed logins, the audit lines and the last results of the system
  checks, which requests of other users change.
\<close>

definition managed_part :: "api_state \<Rightarrow> api_state" where
  "managed_part s =
     s\<lparr>as_login := \<lparr>lg_fail_count = Map.empty, lg_lock_until = Map.empty\<rparr>, as_audit := [], as_tuner := []\<rparr>"

interpretation managed_frame: handler_relation "\<lambda>s s1. managed_part s1 = managed_part s"
  by unfold_locales simp_all

lemma managed_audit [simp]: "managed_part (audit env operator action target s) = managed_part s"
  by (simp add: managed_part_def audit_def)

lemma managed_tuner [simp]: "managed_part (s\<lparr>as_tuner := t\<rparr>) = managed_part s"
  by (simp add: managed_part_def)

lemma managed_login [simp]: "managed_part (s\<lparr>as_login := lg\<rparr>) = managed_part s"
  by (simp add: managed_part_def)

definition admin_passes :: "api_env \<Rightarrow> api_request \<Rightarrow> api_state \<Rightarrow> bool" where
  "admin_passes env rq s \<longleftrightarrow> require_admin (ae_jw env) (as_secret s) (ae_now_sec env) (aq_http rq) = Pass"

lemma admin_guard_denied: "\<not> admin_passes env rq s \<Longrightarrow> snd (admin_guard h env rq s) = s"
  by (auto simp: admin_passes_def admin_guard_def split: guard.split)

lemma admin_guard_passed: "admin_passes env rq s \<Longrightarrow> admin_guard h env rq s = h env rq s"
  by (simp add: admin_passes_def admin_guard_def)

lemma reading_handlers:
  "snd (get_health env rq s) = s" "snd (get_index env rq s) = s" "snd (get_asset path env rq s) = s"
  "snd (get_other env rq s) = s"
  by (simp_all add: get_health_def get_index_def get_asset_def get_other_def Let_def split: option.split)

lemmas admin_handler_defs = post_user_def put_user_def delete_user_def post_rule_def post_rules_reload_def
  put_settings_def post_v2rayn_start_def post_v2rayn_stop_def post_v2rayn_restart_def put_v2rayn_config_def
  post_node_def put_node_def delete_node_def put_reorder_def post_apply_def post_active_def post_import_def
  post_export_def put_schedule_def put_ip_affinity_def put_node_weight_def post_health_check_def

lemmas auth_handler_defs = post_logout_def get_stats_def get_dashboard_logs_def get_logs_def get_users_def
  get_rules_def get_settings_def get_rate_limits_def get_v2rayn_status_def get_v2rayn_config_def get_nodes_def
  get_one_node_def get_active_def get_concurrency_stats_def get_concurrency_nodes_def get_concurrency_users_def
  get_connections_def get_concurrency_history_def get_schedule_def get_node_health_def get_overload_def
  get_concurrency_config_def get_tuning_def get_tune_script_def

lemma auth_handlers_managed:
  "managed_part (snd (post_logout env rq s)) = managed_part s"
  "managed_part (snd (get_stats env rq s)) = managed_part s"
  "managed_part (snd (get_dashboard_logs env rq s)) = managed_part s"
  "managed_part (snd (get_logs env rq s)) = managed_part s"
  "managed_part (snd (get_users env rq s)) = managed_part s"
  "managed_part (snd (get_rules env rq s)) = managed_part s"
  "managed_part (snd (get_settings env rq s)) = managed_part s"
  "managed_part (snd (get_rate_limits env rq s)) = managed_part s"
  "managed_part (snd (get_v2rayn_status env rq s)) = managed_part s"
  "managed_part (snd (get_v2rayn_config env rq s)) = managed_part s"
  "managed_part (snd (get_nodes env rq s)) = managed_part s"
  "managed_part (snd (get_one_node tag env rq s)) = managed_part s"
  "managed_part (snd (get_active env rq s)) = managed_part s"
  "managed_part (snd (get_concurrency_stats env rq s)) = managed_part s"
  "managed_part (snd (get_concurrency_nodes env rq s)) = managed_part s"
  "managed_part (snd (get_concurrency_users env rq s)) = managed_part s"
  "managed_part (snd (get_connections env rq s)) = managed_part s"
  "managed_part (snd (get_concurrency_history env rq s)) = managed_part s"
  "managed_part (snd (get_schedule env rq s)) = managed_part s"
  "managed_part (snd (get_node_health env rq s)) = managed_part s"
  "managed_part (snd (get_overload env rq s)) = managed_part s"
  "managed_part (snd (get_concurrency_config env rq s)) = managed_part s"
  "managed_part (snd (get_tuning env rq s)) = managed_part s"
  "managed_part (snd (get_tune_script env rq s)) = managed_part s"
  unfolding auth_handler_defs
  by (rule managed_frame.auth; simp add: Let_def split: option.split prod.split)+

lemma parse_managed: "managed_part (snd (post_parse env rq s)) = managed_part s"
  unfolding post_parse_def
  by (rule managed_frame.auth, rule managed_frame.link) (simp split: sum.split)

lemma login_managed: "managed_part (snd (post_login env rq s)) = managed_part s"
  by (simp add: post_login_def split_beta Let_def split: login_response.split)

lemma handle_managed: "\<not> admin_passes env rq s \<Longrightarrow> managed_part (snd (handle r env rq s)) = managed_part s"
  by (cases r) (simp_all add: reading_handlers auth_handlers_managed parse_managed login_managed admin_handler_defs
      admin_guard_denied)

section \<open>What is well formed\<close>

text \<open>Weights that were set lie in the range the balancer needs.\<close>

definition weights_ok :: "load_balancer \<Rightarrow> bool" where
  "weights_ok lb \<longleftrightarrow> (\<forall>tag w. lb_node_weights lb tag = Some w \<longrightarrow> 1 \<le> w \<and> w \<le> 100)"

definition api_inv :: "api_state \<Rightarrow> bool" where
  "api_inv s \<longleftrightarrow> vm_inv (as_vm s) \<and> weights_ok (vm_balancer (as_vm s)) \<and> users_ok (as_users s) \<and> config_wf (cfg_of s)"

interpretation inv_frame: handler_relation "\<lambda>s s1. api_inv s \<longrightarrow> api_inv s1"
  by unfold_locales simp_all

lemma api_inv_cong:
  "as_vm s1 = as_vm s \<Longrightarrow> as_users s1 = as_users s \<Longrightarrow> cfg_of s1 = cfg_of s \<Longrightarrow> api_inv s1 = api_inv s"
  by (simp add: api_inv_def)

lemma save_balancer: "vm_balancer (snd (save_to_config env s)) = vm_balancer s"
  by (simp add: save_to_config_def split: option.split)

lemma save_balancer_eq: "save_to_config env s = (r, s1) \<Longrightarrow> vm_balancer s1 = vm_balancer s"
  using save_balancer [of env s] by simp

lemma dec_weights: "lb_node_weights (dec_node_connections tag lb) = lb_node_weights lb"
  by (simp add: dec_node_connections_def)

lemma vm_op_weights: "lb_node_weights (vm_balancer (snd (vm_op e s))) = lb_node_weights (vm_balancer s)"
proof (cases e)
  case (Import lib env link)
  then show ?thesis
    by (auto simp: import_from_link_def Let_def split: sum.split link_error.split option.split prod.split
        vm_result.split dest!: save_balancer_eq)
qed (auto simp: add_node_def Vm_Node_Manager.update_node_def remove_node_def set_active_node_def apply_config_def
    dec_weights split: option.split prod.split vm_result.split dest!: save_balancer_eq)

lemma vm_op_ok:
  "vm_inv s \<and> weights_ok (vm_balancer s) \<Longrightarrow> vm_inv (snd (vm_op e s)) \<and> weights_ok (vm_balancer (snd (vm_op e s)))"
  using vm_step_inv [of s e] vm_op_weights [of e s] by (simp add: vm_step_def weights_ok_def)

lemma set_vm_inv:
  "api_inv s \<Longrightarrow> vm_inv vm \<and> weights_ok (vm_balancer vm) \<Longrightarrow> api_inv (set_vm vm s)"
  by (simp add: api_inv_def set_vm_def)

lemma set_vm_op: "api_inv s \<Longrightarrow> api_inv (set_vm (snd (vm_op e (as_vm s))) s)"
  using vm_op_ok [of "as_vm s" e] by (intro set_vm_inv) (simp_all add: api_inv_def)

lemma nodes_inv:
  "api_inv s \<Longrightarrow> vm_nodes vm = vm_nodes (as_vm s) \<Longrightarrow> lb_node_weights (vm_balancer vm) = lb_node_weights (vm_balancer (as_vm s))
   \<Longrightarrow> api_inv (set_vm vm s)"
  by (intro set_vm_inv) (simp_all add: api_inv_def vm_inv_def weights_ok_def)

lemma inv_audit [simp]: "api_inv (audit env operator action target s) = api_inv s"
  by (simp add: api_inv_def audit_def)

lemma inv_saved [simp]: "api_inv (save_accounts env s) = api_inv s" "api_inv (save_settings env s) = api_inv s"
  by (simp_all add: api_inv_def save_accounts_def save_settings_def)

lemma set_users_inv: "api_inv s \<Longrightarrow> users_ok um \<Longrightarrow> api_inv (s\<lparr>as_users := um\<rparr>)"
  by (simp add: api_inv_def)

lemma inv_of_managed:
  assumes "managed_part s1 = managed_part s"
  shows "api_inv s1 = api_inv s"
proof -
  have "as_vm (managed_part s1) = as_vm (managed_part s)" "as_users (managed_part s1) = as_users (managed_part s)"
    "as_config (managed_part s1) = as_config (managed_part s)" using assms by simp_all
  then show ?thesis by (simp add: api_inv_def managed_part_def)
qed

lemma account_handlers_inv:
  "api_inv s \<longrightarrow> api_inv (snd (post_user env rq s))"
  "api_inv s \<longrightarrow> api_inv (snd (delete_user name env rq s))"
proof -
  have add: "add_user cx now u p d um = (b, um1) \<Longrightarrow> users_ok um \<Longrightarrow> users_ok um1" for cx now u p d um b um1
    using users_ok_ops(1) [of um cx now u p d] by simp
  have remove: "remove_user u um = (b, um1) \<Longrightarrow> users_ok um \<Longrightarrow> users_ok um1" for u um b um1
    using users_ok_ops(2) [of um u] by simp
  have users: "api_inv s \<Longrightarrow> users_ok (as_users s)" for s by (simp add: api_inv_def)
  show "api_inv s \<longrightarrow> api_inv (snd (post_user env rq s))"
    unfolding post_user_def
    by (rule inv_frame.admin, rule inv_frame.body)
      (auto split: option.split prod.split bool.split dest: add [OF _ users] intro: set_users_inv)
  show "api_inv s \<longrightarrow> api_inv (snd (delete_user name env rq s))"
    unfolding delete_user_def
    by (rule inv_frame.admin) (auto split: prod.split bool.split dest: remove [OF _ users] intro: set_users_inv)
qed

lemma case_sum_snd:
  "case_sum (R s) (R s) x \<Longrightarrow> (\<And>t. R s t \<Longrightarrow> R s (g t)) \<Longrightarrow>
   R s (snd (case x of Inl t \<Rightarrow> (a, t) | Inr t \<Rightarrow> (b, g t)))"
  by (cases x) simp_all

lemma user_changes_inv:
  "\<forall>c \<in> set (user_changes env name). \<forall>s. case_sum (\<lambda>t. api_inv s \<longrightarrow> api_inv t) (\<lambda>t. api_inv s \<longrightarrow> api_inv t) (c b s)"
proof -
  have "users_ok (snd (set_status name x um))" "users_ok (snd (update_password cx name p um))" if "users_ok um" for x cx p um
    using users_ok_ops(3,4) that by blast+
  moreover have "api_inv s \<Longrightarrow> users_ok (as_users s)" for s by (simp add: api_inv_def)
  ultimately show ?thesis
    unfolding user_changes_def by (auto intro!: inv_frame.member set_users_inv)
qed

lemma set_cfg_inv: "(\<And>c. config_wf c \<Longrightarrow> config_wf (f c)) \<Longrightarrow> api_inv s \<Longrightarrow> api_inv (set_cfg f s)"
  by (simp add: api_inv_def set_cfg_def)

lemma int_change_inv:
  assumes "\<And>i c. int32 i \<Longrightarrow> config_wf c \<Longrightarrow> config_wf (g i c)"
  shows "case_sum (\<lambda>t. api_inv s \<longrightarrow> api_inv t) (\<lambda>t. api_inv s \<longrightarrow> api_inv t)
           (change_member key get_int (\<lambda>x. set_cfg (g x)) b s)"
proof (rule inv_frame.member)
  fix v s
  assume "get_int v \<noteq> None"
  then obtain i where i: "get_int v = Some i" by blast
  show "api_inv s \<longrightarrow> api_inv (set_cfg (g (the (get_int v))) s)"
    unfolding i using assms [OF get_int_int32 [OF i]] by (simp add: set_cfg_inv)
qed

lemma text_change_inv:
  assumes "\<And>a c. config_wf c \<Longrightarrow> config_wf (g a c)" "\<And>a s. api_inv (f a s) = api_inv (set_cfg (g a) s)"
  shows "case_sum (\<lambda>t. api_inv s \<longrightarrow> api_inv t) (\<lambda>t. api_inv s \<longrightarrow> api_inv t) (change_member key get_string f b s)"
  by (rule inv_frame.member) (simp add: assms set_cfg_inv)

lemma settings_changes_inv:
  "\<forall>c \<in> set settings_changes. \<forall>s. case_sum (\<lambda>t. api_inv s \<longrightarrow> api_inv t) (\<lambda>t. api_inv s \<longrightarrow> api_inv t) (c b s)"
proof -
  have action: "api_inv ((set_cfg g s)\<lparr>as_routes := re\<rparr>) = api_inv (set_cfg g s)" for g s re
    by (simp add: api_inv_def)
  show ?thesis
    unfolding settings_changes_def list.set ball_simps
    by (intro conjI allI TrueI
        int_change_inv text_change_inv [of "\<lambda>a. sc_default_route_action_update (\<lambda>_. a)"]
        text_change_inv [of "\<lambda>a. sc_v2rayn_executable_path_update (\<lambda>_. a)"] action refl)
      (simp_all add: config_wf_def)
qed

lemma changing_handlers_inv:
  "api_inv s \<longrightarrow> api_inv (snd (put_user name env rq s))"
  "api_inv s \<longrightarrow> api_inv (snd (put_settings env rq s))"
proof -
  show "api_inv s \<longrightarrow> api_inv (snd (put_user name env rq s))"
    unfolding put_user_def
    by (rule inv_frame.admin, rule inv_frame.body,
        rule case_sum_snd [where R = "\<lambda>s t. api_inv s \<longrightarrow> api_inv t"], rule inv_frame.changes, rule user_changes_inv) simp
  show "api_inv s \<longrightarrow> api_inv (snd (put_settings env rq s))"
    unfolding put_settings_def Let_def
    by (rule inv_frame.admin, rule inv_frame.body,
        rule case_sum_snd [where R = "\<lambda>s t. api_inv s \<longrightarrow> api_inv t"], rule inv_frame.changes, rule settings_changes_inv) simp
qed

lemma vm_ops_inv:
  assumes "api_inv s"
  shows "add_node e n (as_vm s) = (r, vm) \<Longrightarrow> api_inv (set_vm vm s)"
    "Vm_Node_Manager.update_node e tag n (as_vm s) = (r, vm) \<Longrightarrow> api_inv (set_vm vm s)"
    "remove_node e tag (as_vm s) = (r, vm) \<Longrightarrow> api_inv (set_vm vm s)"
    "set_active_node tag (as_vm s) = (r, vm) \<Longrightarrow> api_inv (set_vm vm s)"
    "apply_config e (as_vm s) = (r, vm) \<Longrightarrow> api_inv (set_vm vm s)"
    "import_from_link lib e link (as_vm s) = ((r, added), vm) \<Longrightarrow> api_inv (set_vm vm s)"
  using set_vm_op [OF assms, of "Add e n"] set_vm_op [OF assms, of "Update e tag n"]
    set_vm_op [OF assms, of "Remove e tag"] set_vm_op [OF assms, of "Set_active tag"]
    set_vm_op [OF assms, of "Apply e"] set_vm_op [OF assms, of "Import lib e link"]
  by simp_all

lemma process_inv: "api_inv s \<Longrightarrow> api_inv (set_process vp s)"
  by (simp add: api_inv_def set_process_def vm_inv_def)

lemma balancer_inv: "api_inv s \<Longrightarrow> weights_ok lb \<Longrightarrow> api_inv (set_balancer lb s)"
  by (simp add: api_inv_def set_balancer_def vm_inv_def)

lemma apply_reply_inv: "api_inv s \<longrightarrow> api_inv (snd (apply_reply threw env rq s))"
  by (auto simp: apply_reply_def split: prod.split dest: vm_ops_inv(5))

lemma activate_inv: "api_inv s \<longrightarrow> api_inv (snd (activate_then_apply tag threw env rq s))"
  using apply_reply_inv
  by (auto simp: activate_then_apply_def split: prod.split vm_result.split dest: vm_ops_inv(4))

lemma node_handlers_inv:
  "api_inv s \<longrightarrow> api_inv (snd (post_node env rq s))"
  "api_inv s \<longrightarrow> api_inv (snd (put_node tag env rq s))"
  "api_inv s \<longrightarrow> api_inv (snd (delete_node tag env rq s))"
  "api_inv s \<longrightarrow> api_inv (snd (post_apply env rq s))"
  "api_inv s \<longrightarrow> api_inv (snd (post_active env rq s))"
  "api_inv s \<longrightarrow> api_inv (snd (post_export tag env rq s))"
proof -
  show "api_inv s \<longrightarrow> api_inv (snd (post_node env rq s))"
    unfolding post_node_def
    by (rule inv_frame.admin, rule inv_frame.body) (auto split: option.split prod.split dest: vm_ops_inv(1))
  show "api_inv s \<longrightarrow> api_inv (snd (put_node tag env rq s))"
    unfolding put_node_def
    by (rule inv_frame.admin, rule inv_frame.body) (auto split: option.split prod.split dest: vm_ops_inv(2))
  show "api_inv s \<longrightarrow> api_inv (snd (delete_node tag env rq s))"
    unfolding delete_node_def by (rule inv_frame.admin) (auto split: prod.split dest: vm_ops_inv(3))
  show "api_inv s \<longrightarrow> api_inv (snd (post_apply env rq s))"
    unfolding post_apply_def
    by (rule inv_frame.admin) (simp add: apply_reply_inv activate_inv split: option.split)
  show "api_inv s \<longrightarrow> api_inv (snd (post_active env rq s))"
    unfolding post_active_def
    by (rule inv_frame.admin, rule inv_frame.body) (simp add: activate_inv split: option.split)
  show "api_inv s \<longrightarrow> api_inv (snd (post_export tag env rq s))"
    unfolding post_export_def by (rule inv_frame.admin) (simp split: option.split)
qed

lemma import_handler_inv: "api_inv s \<longrightarrow> api_inv (snd (post_import env rq s))"
  unfolding post_import_def
  by (rule inv_frame.admin, rule inv_frame.link) (auto split: prod.split dest: vm_ops_inv(6))

lemma process_handlers_inv:
  "api_inv s \<longrightarrow> api_inv (snd (post_v2rayn_start env rq s))"
  "api_inv s \<longrightarrow> api_inv (snd (post_v2rayn_stop env rq s))"
  "api_inv s \<longrightarrow> api_inv (snd (post_v2rayn_restart env rq s))"
  unfolding post_v2rayn_start_def post_v2rayn_stop_def post_v2rayn_restart_def
  by (rule inv_frame.admin; simp add: process_inv)+

lemma config_handler_inv: "api_inv s \<longrightarrow> api_inv (snd (put_v2rayn_config env rq s))"
proof -
  have "api_inv (s\<lparr>as_vm := save_config_json env j (as_vm s)\<rparr>)" if "api_inv s" for env j s
    using that by (simp add: api_inv_def save_config_json_def vm_inv_def)
  then show ?thesis
    unfolding put_v2rayn_config_def by (intro inv_frame.admin inv_frame.body) simp
qed

lemma rule_handlers_inv:
  "api_inv s \<longrightarrow> api_inv (snd (post_rule env rq s))"
  "api_inv s \<longrightarrow> api_inv (snd (post_rules_reload env rq s))"
proof -
  have frame: "api_inv (s\<lparr>as_routes := re, as_rule_files := fs\<rparr>) = api_inv s"
    "api_inv (s\<lparr>as_routes := re\<rparr>) = api_inv s" for s re fs
    by (simp_all add: api_inv_def)
  show "api_inv s \<longrightarrow> api_inv (snd (post_rule env rq s))"
    unfolding post_rule_def
    by (rule inv_frame.admin, rule inv_frame.body) (simp add: frame split: option.split prod.split)
  show "api_inv s \<longrightarrow> api_inv (snd (post_rules_reload env rq s))"
    unfolding post_rules_reload_def by (rule inv_frame.admin) (simp add: frame)
qed

lemma balancer_handlers_inv:
  "api_inv s \<longrightarrow> api_inv (snd (put_schedule env rq s))"
  "api_inv s \<longrightarrow> api_inv (snd (put_ip_affinity env rq s))"
  "api_inv s \<longrightarrow> api_inv (snd (put_node_weight tag env rq s))"
proof -
  have weights: "api_inv s \<Longrightarrow> weights_ok (vm_balancer (as_vm s))" for s by (simp add: api_inv_def)
  have upd: "weights_ok lb \<Longrightarrow> weights_ok (set_strategy st lb)" "weights_ok lb \<Longrightarrow> weights_ok (set_ip_affinity_enabled b lb)"
    "weights_ok lb \<Longrightarrow> 1 \<le> w \<Longrightarrow> w \<le> 100 \<Longrightarrow> weights_ok (fst (set_node_weight tag w lb))" for lb st b tag w
    by (simp_all add: weights_ok_def set_strategy_def set_ip_affinity_enabled_def set_node_weight_def)
  show "api_inv s \<longrightarrow> api_inv (snd (put_schedule env rq s))"
    unfolding put_schedule_def
    by (rule inv_frame.admin, rule inv_frame.body) (simp add: balancer_inv upd weights split: option.split)
  have "case_sum (\<lambda>t. api_inv s \<longrightarrow> api_inv t) (\<lambda>t. api_inv s \<longrightarrow> api_inv t) (run_changes affinity_changes b s)" for b s
    by (rule inv_frame.changes, unfold affinity_changes_def list.set ball_simps)
      (intro conjI allI TrueI inv_frame.member, simp add: balancer_inv upd weights)
  then show "api_inv s \<longrightarrow> api_inv (snd (put_ip_affinity env rq s))"
    unfolding put_ip_affinity_def
    by (intro inv_frame.admin inv_frame.body case_sum_snd [where R = "\<lambda>s t. api_inv s \<longrightarrow> api_inv t"]) simp_all
  show "api_inv s \<longrightarrow> api_inv (snd (put_node_weight tag env rq s))"
    unfolding put_node_weight_def
    by (rule inv_frame.admin, rule inv_frame.body) (simp add: balancer_inv upd weights not_less split: option.split)
qed

lemma health_handler_inv: "api_inv s \<longrightarrow> api_inv (snd (post_health_check env rq s))"
  unfolding post_health_check_def
  by (rule inv_frame.admin) (simp add: check_all_nodes_def nodes_inv)

lemma handle_inv:
  assumes "r \<noteq> Nodes_reorder" "api_inv s"
  shows "api_inv (snd (handle r env rq s))"
  using assms
  by (cases r) (simp_all add: reading_handlers account_handlers_inv changing_handlers_inv node_handlers_inv
      import_handler_inv process_handlers_inv config_handler_inv rule_handlers_inv balancer_handlers_inv
      health_handler_inv inv_of_managed [OF login_managed] inv_of_managed [OF parse_managed]
      auth_handlers_managed [THEN inv_of_managed])

end
