(* ===== verification/Web_Api_Properties.thy ===== *)
theory Web_Api_Properties
  imports Web_Api_Safety
begin

text \<open>
  What the management interface as a whole guarantees and what it does not: the theorems about
  sequences of requests and about the requests whose effect surprises.
\<close>

section \<open>Sequences of requests\<close>

text \<open>A request with its route and the environment that handles it.\<close>

type_synonym served = "route \<times> api_env \<times> api_request"

definition serve :: "served \<Rightarrow> api_state \<Rightarrow> api_state" where
  "serve x s = (case x of (r, env, rq) \<Rightarrow> snd (handle r env rq s))"

interpretation requests: stepper serve api_inv "\<lambda>x. fst x \<noteq> Nodes_reorder"
  by unfold_locales (auto simp: serve_def intro: handle_inv)

text \<open>
  The token of the request is in three parts, the last one codes the first two under the secret, and
  the payload says administrator and has not expired.
\<close>

definition signed_admin :: "api_env \<Rightarrow> string \<Rightarrow> api_request \<Rightarrow> bool" where
  "signed_admin env secret rq \<longleftrightarrow>
     (case token_parts (extract_token (aq_http rq)) of
        None \<Rightarrow> False
      | Some (header, body, sig) \<Rightarrow>
          sig = base64_encode (jw_mac (ae_jw env) (header @ ''.'' @ body) secret)
          \<and> (case jw_parse (ae_jw env) (jwt_base64_decode body) of
               None \<Rightarrow> False
             | Some pl \<Rightarrow> pl_role pl = Claim ''admin''
                 \<and> (case claim_or 0 (pl_exp pl) of None \<Rightarrow> False | Some e \<Rightarrow> ae_now_sec env < e)))"

lemma admin_passes_signed:
  assumes "admin_passes env rq s"
  shows "signed_admin env (as_secret s) rq"
proof -
  from admin_needs_signed_token [OF assms [unfolded admin_passes_def]]
  obtain header body pl e where "token_parts (extract_token (aq_http rq))
        = Some (header, body, base64_encode (jw_mac (ae_jw env) (header @ ''.'' @ body) (as_secret s)))"
      "jw_parse (ae_jw env) (jwt_base64_decode body) = Some pl" "pl_role pl = Claim ''admin''"
      "claim_or 0 (pl_exp pl) = Some e" "ae_now_sec env < e" by blast
  then show ?thesis by (simp add: signed_admin_def)
qed

lemma managed_secret: "managed_part s1 = managed_part s \<Longrightarrow> as_secret s1 = as_secret s"
proof -
  assume "managed_part s1 = managed_part s"
  then have "as_secret (managed_part s1) = as_secret (managed_part s)" by simp
  then show ?thesis by (simp add: managed_part_def)
qed

lemma serve_managed:
  "\<not> signed_admin env (as_secret s) rq \<Longrightarrow> managed_part (serve (r, env, rq) s) = managed_part s"
  using handle_managed [of env rq s r] admin_passes_signed [of env rq s] by (auto simp: serve_def)

lemma run_managed:
  "\<forall>(r, env, rq) \<in> set xs. \<not> signed_admin env (as_secret s) rq
   \<Longrightarrow> managed_part (fold serve xs s) = managed_part s"
proof (induction xs arbitrary: s)
  case (Cons x xs)
  obtain r env rq where x: "x = (r, env, rq)" by (cases x)
  have step: "managed_part (serve x s) = managed_part s" using Cons.prems x serve_managed by simp
  have "\<forall>(r, env, rq) \<in> set xs. \<not> signed_admin env (as_secret (serve x s)) rq"
    using Cons.prems managed_secret [OF step] by simp
  from Cons.IH [OF this] step show ?case by simp
qed simp

section \<open>Guarded handlers\<close>

definition auth_passes :: "api_env \<Rightarrow> api_request \<Rightarrow> api_state \<Rightarrow> bool" where
  "auth_passes env rq s \<longleftrightarrow> require_auth (ae_jw env) (as_secret s) (ae_now_sec env) (aq_http rq) = Pass"

lemma auth_guard_passed: "auth_passes env rq s \<Longrightarrow> auth_guard h env rq s = h env rq s"
  by (simp add: auth_passes_def auth_guard_def)

lemma node_member: "jmember ''user_id'' (json_of_node n) = Some (JStr (vn_user_id n))"
  by (simp add: json_of_node_def json_of_node_doc_def node_to_json_def jobj_of_def map_filter_simps)

lemma node_of_tag: "get_node tag s = Some n \<Longrightarrow> vn_tag n = tag \<and> n \<in> set (vm_nodes s)"
  unfolding get_node_def using find_tag by fast

lemma put_first_self: "get_node tag s = Some n \<Longrightarrow> put_first tag n (vm_nodes s) = vm_nodes s"
proof -
  have "find (\<lambda>n. vn_tag n = tag) ns = Some n \<Longrightarrow> put_first tag n ns = ns" for ns
    by (induction ns) (auto split: if_splits)
  then show "get_node tag s = Some n \<Longrightarrow> ?thesis" by (simp add: get_node_def)
qed

text \<open>Replacing a node by itself leaves the table as it is, whatever becomes of the file.\<close>

lemma update_by_itself:
  assumes "get_node tag s = Some n"
  shows "vm_nodes (snd (Vm_Node_Manager.update_node env tag n s)) = vm_nodes s"
proof (cases "validate_node n True = None \<and> is_tag_unique (vn_tag n) tag (vm_nodes s)")
  case True
  have tag: "vn_tag n = tag" using node_of_tag [OF assms] by simp
  note self = put_first_self [OF assms]
  show ?thesis
    by (cases rule: save_cases [of env s])
      (use True assms tag self in \<open>simp_all add: Vm_Node_Manager.update_node_def\<close>)
qed (auto simp: Vm_Node_Manager.update_node_def split: option.split)

section \<open>The secret and the tokens\<close>

interpretation secret_frame: handler_relation "\<lambda>s s1. as_secret s1 = as_secret s"
  by unfold_locales simp_all

lemma secret_simps [simp]:
  "as_secret (audit env operator action target s) = as_secret s" "as_secret (save_accounts env s) = as_secret s"
  "as_secret (save_settings env s) = as_secret s" "as_secret (set_cfg f s) = as_secret s"
  "as_secret (set_vm vm s) = as_secret s" "as_secret (set_process vp s) = as_secret s"
  "as_secret (set_balancer lb s) = as_secret s"
  by (simp_all add: audit_def save_accounts_def save_settings_def set_cfg_def set_vm_def set_process_def set_balancer_def)

lemma secret_changes:
  "case_sum (\<lambda>t. as_secret t = as_secret s) (\<lambda>t. as_secret t = as_secret s) (run_changes (user_changes env name) b s)"
  "case_sum (\<lambda>t. as_secret t = as_secret s) (\<lambda>t. as_secret t = as_secret s) (run_changes settings_changes b s)"
  "case_sum (\<lambda>t. as_secret t = as_secret s) (\<lambda>t. as_secret t = as_secret s) (run_changes affinity_changes b s)"
  by (rule secret_frame.changes; simp add: user_changes_def settings_changes_def affinity_changes_def secret_frame.member)+

lemma changing_handlers_secret:
  "as_secret (snd (put_user name env rq s)) = as_secret s"
  "as_secret (snd (put_settings env rq s)) = as_secret s"
  "as_secret (snd (put_ip_affinity env rq s)) = as_secret s"
  unfolding put_user_def put_settings_def put_ip_affinity_def Let_def
  by (rule secret_frame.admin, rule secret_frame.body,
      rule case_sum_snd [where R = "\<lambda>s t. as_secret t = as_secret s"], rule secret_changes, simp)+

lemma apply_secret:
  "as_secret (snd (apply_reply threw env rq s)) = as_secret s"
  "as_secret (snd (activate_then_apply tag threw env rq s)) = as_secret s"
  by (simp_all add: apply_reply_def activate_then_apply_def split: prod.split vm_result.split)

lemma admin_handlers_secret:
  "as_secret (snd (post_user env rq s)) = as_secret s" "as_secret (snd (delete_user name env rq s)) = as_secret s"
  "as_secret (snd (post_rule env rq s)) = as_secret s" "as_secret (snd (post_rules_reload env rq s)) = as_secret s"
  "as_secret (snd (post_v2rayn_start env rq s)) = as_secret s" "as_secret (snd (post_v2rayn_stop env rq s)) = as_secret s"
  "as_secret (snd (post_v2rayn_restart env rq s)) = as_secret s" "as_secret (snd (put_v2rayn_config env rq s)) = as_secret s"
  "as_secret (snd (post_node env rq s)) = as_secret s" "as_secret (snd (put_node name env rq s)) = as_secret s"
  "as_secret (snd (delete_node name env rq s)) = as_secret s" "as_secret (snd (put_reorder env rq s)) = as_secret s"
  "as_secret (snd (post_apply env rq s)) = as_secret s" "as_secret (snd (post_active env rq s)) = as_secret s"
  "as_secret (snd (post_import env rq s)) = as_secret s" "as_secret (snd (post_export name env rq s)) = as_secret s"
  "as_secret (snd (put_schedule env rq s)) = as_secret s" "as_secret (snd (put_node_weight name env rq s)) = as_secret s"
  "as_secret (snd (post_health_check env rq s)) = as_secret s"
  unfolding admin_handler_defs
  by ((rule secret_frame.admin secret_frame.body secret_frame.link
      | simp add: apply_secret split: option.split prod.split bool.split)+)

lemma handle_secret: "as_secret (snd (handle r env rq s)) = as_secret s"
  by (cases r) (simp_all add: reading_handlers changing_handlers_secret admin_handlers_secret
      managed_secret [OF login_managed] managed_secret [OF parse_managed] auth_handlers_managed [THEN managed_secret])

lemma run_secret: "as_secret (fold serve xs s) = as_secret s"
  by (induction xs arbitrary: s) (simp_all add: serve_def handle_secret split_beta)

lemma logged_in_token:
  assumes "api_login jw secret cx admin um now body lg = (Logged_in token name role, lg1)"
  shows "token = jwt_sign jw secret now name role 30 \<and> role = (if name = fst admin then ''admin'' else ''user'')"
  using assms
  by (auto simp: api_login_def check_credentials_def Let_def split: option.splits bool.splits if_splits)

lemma login_reply_token:
  "login_reply r = ok_members [(''token'', JStr token), (''username'', JStr name), (''role'', JStr role)]
   \<Longrightarrow> r = Logged_in token name role"
  by (cases r) (simp_all add: ok_members_def error_reply_def bad_request_def)

lemma sign_not_empty: "jwt_sign jw secret now user role minutes \<noteq> ''''"
  by (simp add: jwt_sign_def Let_def)

lemma bearer_token:
  "rq_authorization rq = Some (''Bearer '' @ token) \<Longrightarrow> token \<noteq> '''' \<Longrightarrow> extract_token rq = token"
  by (simp add: extract_token_def)

section \<open>A concrete gateway\<close>

definition sample_api_state :: api_state where
  "sample_api_state = \<lparr>as_config = new_config_loader\<lparr>cl_path := ''c.json''\<rparr>,
     as_config_files = (\<lambda>_. Missing_file), as_secret = ''secret'',
     as_login = \<lparr>lg_fail_count = Map.empty, lg_lock_until = Map.empty\<rparr>,
     as_users = snd (add_user plain_crypto 0 ''u'' ''p'' 0 new_user_manager), as_user_files = (\<lambda>_. No_users_file),
     as_routes = new_route_engine, as_rule_files = (\<lambda>_. No_file), as_vm = sample_system, as_log = new_logger,
     as_audit = [], as_traffic = new_metrics_collector, as_metrics = new_concurrency_metrics,
     as_admitter = new_connection_admitter, as_overload = new_overload_protector, as_registry = Map.empty,
     as_tuner = [], as_server = new_server_app\<rparr>"

definition sample_api_env :: api_env where
  "sample_api_env = \<lparr>ae_jw = sample_jwt, ae_cx = plain_crypto, ae_lib = sample_link_lib (link_of_node sample_node), ae_vm = sample_env,
     ae_now_sec = 5, ae_now_ms = 5000, ae_config_opens = True, ae_config_renames = True, ae_users_opens = True,
     ae_users_renames = True, ae_rules_opens = True, ae_rules_renames = True, ae_audit_opens = True,
     ae_sort = id, ae_user_order = [''u''], ae_user_metric_order = [], ae_node_metric_order = [],
     ae_connection_order = [], ae_health_order = [], ae_doc_of_json = (\<lambda>_. empty_config),
     ae_json_of_doc = (\<lambda>_. JNull), ae_static = (\<lambda>_. None),
     ae_os = \<lparr>rlim_nofile = None, fd_lines = 0, meminfo = None\<rparr>, ae_round = id, ae_first_line = (\<lambda>_. None),
     ae_percent = (\<lambda>_. '''')\<rparr>"

definition sample_request :: "string \<Rightarrow> json option \<Rightarrow> api_request" where
  "sample_request role body =
     \<lparr>aq_http = \<lparr>rq_url = ''/api/x'', rq_authorization =
        Some (''Bearer '' @ jwt_sign sample_jwt ''secret'' 0 ''u'' role 30), rq_cookie = None\<rparr>,
      aq_body = body, aq_param = Map.empty\<rparr>"

lemma sample_body: "aq_body (sample_request role body) = body"
  by (simp add: sample_request_def)

lemma sample_token: "extract_token (aq_http (sample_request role body)) = jwt_sign sample_jwt ''secret'' 0 ''u'' role 30"
  by (simp add: sample_request_def extract_token_def jwt_sign_def Let_def)

lemma sample_role:
  "jwt_get_role sample_jwt ''secret'' 5 (jwt_sign sample_jwt ''secret'' 0 ''u'' role 30) = role"
  "jwt_verify sample_jwt ''secret'' 5 (jwt_sign sample_jwt ''secret'' 0 ''u'' role 30)"
  using signed_token [OF sample_jwt_parses, of 30 "''secret''" 5 0 "''u''" role] by simp_all

lemma sample_admin_passes: "as_secret s = ''secret'' \<Longrightarrow> admin_passes sample_api_env (sample_request ''admin'' body) s"
  by (simp add: admin_passes_def require_admin_def require_auth_def sample_api_env_def sample_token sample_role)
    (simp add: jwt_sign_def Let_def)

lemma sample_auth_passes: "as_secret s = ''secret'' \<Longrightarrow> auth_passes sample_api_env (sample_request role body) s"
  by (simp add: auth_passes_def require_auth_def sample_api_env_def sample_token sample_role)
    (simp add: jwt_sign_def Let_def)

lemma sample_tokyo: "get_node ''tokyo'' (as_vm sample_api_state) = Some (sample_node\<lparr>vn_tag := ''tokyo''\<rparr>)"
  by (simp add: sample_api_state_def sample_system_def get_node_def sample_node_def)

lemma sample_api_inv: "api_inv sample_api_state"
proof -
  have "users_ok (snd (add_user plain_crypto 0 ''u'' ''p'' 0 new_user_manager))"
    by (rule users_ok_ops) (simp add: users_ok_def new_user_manager_def)
  moreover have "config_wf (cl_config new_config_loader)" using default_config_wf by (simp add: new_config_loader_def)
  ultimately show ?thesis
    using sample_inv
    by (simp add: api_inv_def sample_api_state_def weights_ok_def sample_system_def new_load_balancer_def)
qed

section \<open>Properties\<close>

text \<open>
  C3: Only an administrator changes what is managed: any sequence of requests, of any routes and with
  any contents, none of which carries a token that was signed with the secret for the role of the
  administrator and has not expired, leaves the settings, accounts, rules, nodes, processes, counters
  and every file as they are. Only the table of failed logins, the audit lines and the cached system
  checks may differ.
\<close>

theorem only_admin_changes:
  assumes "\<forall>(r, env, rq) \<in> set xs. \<not> signed_admin env (as_secret s) rq"
  shows "managed_part (fold serve xs s) = managed_part s"
  using run_managed [OF assms] .

theorem only_admin_changes_witness:
  "managed_part (fold serve [(Users_delete ''u'', sample_api_env, sample_request ''user'' None),
     (V2rayn_stop, sample_api_env, sample_request ''user'' None)] sample_api_state) = managed_part sample_api_state"
proof -
  have "\<not> signed_admin sample_api_env ''secret'' (sample_request ''user'' None)"
  proof -
    have "jwt_get_role sample_jwt ''secret'' 5 (extract_token (aq_http (sample_request ''user'' None))) = ''user''"
      by (simp add: sample_token sample_role)
    then show ?thesis
      by (auto simp: signed_admin_def sample_api_env_def jwt_get_role_def split: option.splits if_splits)
  qed
  then show ?thesis by (intro only_admin_changes) (simp add: sample_api_state_def)
qed

text \<open>
  C8: Every component stays well typed under every sequence of requests other than reordering the nodes:
  the nodes are valid with distinct tags and at least one is left, the weights lie between 1 and 100,
  accounts are filed under their own names, and the numbers of the settings fit their type.
\<close>

theorem requests_keep_types:
  assumes "api_inv s" "\<forall>x \<in> set xs. fst x \<noteq> Nodes_reorder"
  shows "api_inv (fold serve xs s)"
  using requests.run_inv [OF assms] .

theorem requests_keep_types_witness:
  "api_inv (fold serve [(Nodes_delete ''tokyo'', sample_api_env, sample_request ''admin'' None),
     (Weight_put ''vmess-1'', sample_api_env, sample_request ''admin'' (Some (JObj [(''weight'', JInt 500)])))]
     sample_api_state)"
  by (rule requests_keep_types [OF sample_api_inv]) simp

text \<open>
  C36: The settings are neither validated nor restored: a body that sets the port and then a thread count
  of the wrong type is answered with an error, but the port is changed in memory, whatever its value,
  and the next accepted request, even an empty one, writes it to the file.
\<close>

theorem rejected_settings_stay:
  assumes "admin_passes env rq s" "aq_body rq = Some (JObj [(''proxy_port'', JInt p), (''proxy_thread_count'', JStr t)])"
    and "int32 p" "handle Settings_put env rq s = (r1, s1)"
    and "admin_passes env2 rq2 s1" "aq_body rq2 = Some (JObj [])"
    and "ae_config_opens env2" "ae_config_renames env2" "cl_path (as_config s) \<noteq> ''''"
  shows "r1 = bad_request \<and> s1 = set_cfg (sc_proxy_port_update (\<lambda>_. p)) s
    \<and> as_config_files (snd (handle Settings_put env2 rq2 s1)) (cl_path (as_config s))
        = Document (config_document (cfg_of s1)) \<and> sc_proxy_port (cfg_of s1) = p"
proof -
  have p: "get_int (JInt p) = Some p" "get_int (JStr t) = None" using assms(3) by (rule get_int_int32_id) simp
  have one: "r1 = bad_request \<and> s1 = set_cfg (sc_proxy_port_update (\<lambda>_. p)) s"
    using assms(4)
    by (simp add: put_settings_def admin_guard_passed [OF assms(1)] with_body_def assms(2) settings_changes_def
        change_member_def p Let_def del: get_int.simps)
  then have s1: "cfg_of s1 = (cfg_of s)\<lparr>sc_proxy_port := p\<rparr>" "cl_path (as_config s1) = cl_path (as_config s)"
    by (simp_all add: set_cfg_def)
  have "as_config_files (snd (handle Settings_put env2 rq2 s1)) (cl_path (as_config s)) = Document (config_document (cfg_of s1))"
    using assms(7,8,9) s1(2)
    by (simp add: put_settings_def admin_guard_passed [OF assms(5)] with_body_def assms(6) settings_changes_def
        change_member_def Let_def save_settings_def config_save_def)
  with one s1 show ?thesis by simp
qed

theorem rejected_settings_stay_witness:
  "\<exists>s1. handle Settings_put sample_api_env (sample_request ''admin''
       (Some (JObj [(''proxy_port'', JInt 0), (''proxy_thread_count'', JStr ''x'')]))) sample_api_state = (bad_request, s1)
     \<and> sc_proxy_port (cfg_of s1) = 0"
proof -
  let ?rq = "sample_request ''admin'' (Some (JObj [(''proxy_port'', JInt 0), (''proxy_thread_count'', JStr ''x'')]))"
  let ?s1 = "set_cfg (sc_proxy_port_update (\<lambda>_. 0)) sample_api_state"
  have a: "admin_passes sample_api_env ?rq sample_api_state" by (rule sample_admin_passes) (simp add: sample_api_state_def)
  have i: "get_int (JInt 0) = Some 0" "get_int (JStr ''x'') = None" by (simp_all add: to_int32_id)
  have h: "handle Settings_put sample_api_env ?rq sample_api_state = (bad_request, ?s1)"
    by (simp add: put_settings_def admin_guard_passed [OF a] with_body_def sample_body settings_changes_def
        change_member_def i Let_def del: get_int.simps)
  have a2: "admin_passes sample_api_env (sample_request ''admin'' (Some (JObj []))) ?s1"
    by (rule sample_admin_passes) (simp add: set_cfg_def sample_api_state_def)
  from rejected_settings_stay [OF a sample_body _ h a2 sample_body] h
  show ?thesis by (simp add: int32_def sample_api_env_def sample_api_state_def new_config_loader_def)
qed

text \<open>
  C37: Who sees the credentials of a node: the list shows every identifier masked, and so does the
  upstream configuration for the ids of the users of the servers under vnext and the passwords of the
  servers, in the settings of its outbounds; but the request for a single node gives any logged-in user
  its identifier in full, and every member of the configuration other than its outbounds, so also the
  clients of the inbounds, is shown as it is.
\<close>

theorem credentials_by_route:
  assumes "auth_passes env rq s" "get_node tag (as_vm s) = Some n"
  shows "(\<exists>j. handle (Nodes_get tag) env rq s = (Reply 200 j, s) \<and> jmember ''user_id'' j = Some (JStr (vn_user_id n)))
    \<and> (\<exists>js. handle Nodes_list env rq s = (ok_members [(''nodes'', JArr js), active_member (as_vm s)], s)
         \<and> map (jmember ''user_id'') js = map (\<lambda>n. Some (JStr (desensitize_uuid (vn_user_id n)))) (vm_nodes (as_vm s)))
    \<and> (\<exists>j. handle V2rayn_config_get env rq s = (Reply 200 j, s) \<and> hides_credentials j
         \<and> (\<forall>key. key \<noteq> ''outbounds'' \<longrightarrow> jmember key j = jmember key (config_json env (as_vm s))))"
proof (intro conjI exI)
  note pass = auth_guard_passed [OF assms(1)]
  show "handle (Nodes_get tag) env rq s = (Reply 200 (json_of_node n), s)"
    by (simp add: get_one_node_def pass assms(2))
  show "jmember ''user_id'' (json_of_node n) = Some (JStr (vn_user_id n))" by (rule node_member)
  show "handle Nodes_list env rq s
      = (ok_members [(''nodes'', JArr (map json_of_node (list_nodes True (as_vm s)))), active_member (as_vm s)], s)"
    by (simp add: get_nodes_def pass)
  show "map (jmember ''user_id'') (map json_of_node (list_nodes True (as_vm s)))
      = map (\<lambda>n. Some (JStr (desensitize_uuid (vn_user_id n)))) (vm_nodes (as_vm s))"
    by (simp add: list_nodes_def node_member)
  show "handle V2rayn_config_get env rq s = (Reply 200 (desensitize (config_json env (as_vm s))), s)"
    by (simp add: get_v2rayn_config_def pass)
  show "hides_credentials (desensitize (config_json env (as_vm s)))" by (rule desensitize_hides)
  show "\<forall>key. key \<noteq> ''outbounds'' \<longrightarrow>
      jmember key (desensitize (config_json env (as_vm s))) = jmember key (config_json env (as_vm s))"
    by (simp add: desensitize_def jmember_map_member)
qed

theorem credentials_by_route_witness:
  "\<exists>j. handle (Nodes_get ''tokyo'') sample_api_env (sample_request ''user'' None) sample_api_state
       = (Reply 200 j, sample_api_state) \<and> jmember ''user_id'' j = Some (JStr (vn_user_id sample_node))"
proof -
  have "auth_passes sample_api_env (sample_request ''user'' None) sample_api_state"
    by (rule sample_auth_passes) (simp add: sample_api_state_def)
  from credentials_by_route [OF this sample_tokyo] show ?thesis by simp
qed

text \<open>
  C38: What a request for one node shows can be sent back: putting the answer under the same tag is
  accepted as a node and leaves the table as it was, provided its numbers fit their type.
\<close>

theorem shown_node_can_be_put:
  assumes "handle (Nodes_get tag) env rq s = (Reply 200 j, s)" "auth_passes env rq s"
    and "\<forall>n \<in> set (vm_nodes (as_vm s)). node_ints n"
    and "admin_passes env2 rq2 s" "aq_body rq2 = Some j"
  shows "vm_nodes (as_vm (snd (handle (Nodes_update tag) env2 rq2 s))) = vm_nodes (as_vm s)
    \<and> (\<exists>n \<in> set (vm_nodes (as_vm s)). vn_tag n = tag \<and> node_of_json j = Some n)"
proof -
  obtain n where n: "get_node tag (as_vm s) = Some n" and j: "j = json_of_node n"
    using assms(1)
    by (simp add: get_one_node_def auth_guard_passed [OF assms(2)] error_reply_def split: option.splits)
  have reread: "node_of_json j = Some n"
    unfolding j using assms(3) node_of_tag [OF n] by (intro node_json_roundtrip) simp
  have "vm_nodes (as_vm (snd (handle (Nodes_update tag) env2 rq2 s))) = vm_nodes (as_vm s)"
    using update_by_itself [OF n, of "ae_vm env2"]
    by (simp add: put_node_def admin_guard_passed [OF assms(4)] with_body_def assms(5) reread split_beta set_vm_def)
  with reread node_of_tag [OF n] show ?thesis by blast
qed

theorem shown_node_can_be_put_witness:
  "vm_nodes (as_vm (snd (handle (Nodes_update ''tokyo'') sample_api_env
      (sample_request ''admin'' (Some (json_of_node (sample_node\<lparr>vn_tag := ''tokyo''\<rparr>)))) sample_api_state)))
   = vm_nodes (as_vm sample_api_state)"
proof -
  have auth: "auth_passes sample_api_env (sample_request ''user'' None) sample_api_state"
    by (rule sample_auth_passes) (simp add: sample_api_state_def)
  have get: "handle (Nodes_get ''tokyo'') sample_api_env (sample_request ''user'' None) sample_api_state
      = (Reply 200 (json_of_node (sample_node\<lparr>vn_tag := ''tokyo''\<rparr>)), sample_api_state)"
    by (simp add: get_one_node_def auth_guard_passed [OF auth] sample_tokyo)
  have ints: "\<forall>n \<in> set (vm_nodes (as_vm sample_api_state)). node_ints n"
    by (simp add: sample_api_state_def sample_system_def sample_node_def node_ints_def int32_def default_node_def)
  have admin: "admin_passes sample_api_env (sample_request ''admin''
      (Some (json_of_node (sample_node\<lparr>vn_tag := ''tokyo''\<rparr>)))) sample_api_state"
    by (rule sample_admin_passes) (simp add: sample_api_state_def)
  from shown_node_can_be_put [OF get auth ints admin sample_body] show ?thesis by (rule conjunct1)
qed

text \<open>
  C14: A token outlives its account: after a successful login its token passes the guard of the
  interface for half an hour, whatever requests are handled in between, also those that disable or
  delete the account, and the guard of the administrator exactly where the name is the
  administrator's.
\<close>

theorem login_token_outlives_account:
  assumes "\<And>u r e. jw_parse (ae_jw env) (jw_dump (ae_jw env) u r e)
        = Some \<lparr>pl_username = Claim u, pl_role = Claim r, pl_exp = Claim e\<rparr>"
    and "handle Login env rq s
      = (ok_members [(''token'', JStr token), (''username'', JStr name), (''role'', JStr role)], s1)"
    and "ae_jw env2 = ae_jw env" "rq_authorization (aq_http rq2) = Some (''Bearer '' @ token)"
    and "ae_now_sec env2 < ae_now_sec env + 1800"
  shows "auth_passes env2 rq2 (fold serve xs s1)
    \<and> (admin_passes env2 rq2 (fold serve xs s1) \<longleftrightarrow> name = sc_admin_username (cfg_of s))"
proof -
  obtain r lg where login: "api_login (ae_jw env) (as_secret s) (ae_cx env) (admin_account s) (as_users s)
      (ae_now_sec env) (login_body (aq_body rq)) (as_login s) = (r, lg)" by fastforce
  have "login_reply r = ok_members [(''token'', JStr token), (''username'', JStr name), (''role'', JStr role)]"
    using assms(2) by (simp add: post_login_def login Let_def)
  then have r: "r = Logged_in token name role" by (rule login_reply_token)
  have "token = jwt_sign (ae_jw env) (as_secret s) (ae_now_sec env) name role 30 \<and>
      role = (if name = fst (admin_account s) then ''admin'' else ''user'')"
    using logged_in_token [OF login [unfolded r]] .
  then have token: "token = jwt_sign (ae_jw env) (as_secret s) (ae_now_sec env) name role 30"
    and role: "role = ''admin'' \<longleftrightarrow> name = sc_admin_username (cfg_of s)"
    by (simp_all add: admin_account_def)
  have "as_secret s1 = as_secret s" using handle_secret [of Login env rq s] assms(2) by simp
  then have secret: "as_secret (fold serve xs s1) = as_secret s" by (simp add: run_secret)
  have "token \<noteq> ''''" unfolding token by (rule sign_not_empty)
  with assms(4) have given: "extract_token (aq_http rq2) = token" by (rule bearer_token)
  have v: "jwt_verify (ae_jw env) (as_secret s) (ae_now_sec env2) token"
    and g: "jwt_get_role (ae_jw env) (as_secret s) (ae_now_sec env2) token = role"
    using signed_token [OF assms(1), of 30 "as_secret s" "ae_now_sec env2" "ae_now_sec env" name role] assms(5)
    unfolding token by simp_all
  have "auth_passes env2 rq2 (fold serve xs s1)"
    by (simp add: auth_passes_def require_auth_def secret given v \<open>token \<noteq> ''''\<close> assms(3) Let_def)
  moreover from this have "admin_passes env2 rq2 (fold serve xs s1) \<longleftrightarrow> role = ''admin''"
    by (simp add: admin_passes_def auth_passes_def require_admin_def secret given g assms(3))
  ultimately show ?thesis using role by simp
qed

theorem login_token_outlives_account_witness:
  "\<exists>token s1. fst (handle Login sample_api_env (sample_request ''''
         (Some (JObj [(''username'', JStr ''u''), (''password'', JStr ''p'')]))) sample_api_state)
       = ok_members [(''token'', JStr token), (''username'', JStr ''u''), (''role'', JStr ''user'')]
     \<and> auth_passes (sample_api_env\<lparr>ae_now_sec := 1800\<rparr>)
         \<lparr>aq_http = \<lparr>rq_url = ''/api/users'', rq_authorization = Some (''Bearer '' @ token), rq_cookie = None\<rparr>,
          aq_body = None, aq_param = Map.empty\<rparr>
         (fold serve [(Users_delete ''u'', sample_api_env, sample_request ''admin'' None)] s1)"
proof -
  let ?body = "Some (JObj [(''username'', JStr ''u''), (''password'', JStr ''p'')])"
  let ?token = "jwt_sign sample_jwt ''secret'' 5 ''u'' ''user'' 30"
  have pw: "password_verify plain_crypto ''p'' (password_hash plain_crypto ''p'') = Some True" by code_simp
  obtain r s1 where h: "handle Login sample_api_env (sample_request '''' ?body) sample_api_state = (r, s1)" by fastforce
  have "r = ok_members [(''token'', JStr ?token), (''username'', JStr ''u''), (''role'', JStr ''user'')]"
    using h pw
    by (auto simp: post_login_def sample_body login_body_def opt_member_def api_login_def check_credentials_def
        cleanup_expired_login_records_def lock_remaining_def admin_account_def authenticate_def get_user_info_def
        add_user_def new_user_manager_def sample_api_state_def sample_api_env_def new_config_loader_def
        default_config_def Let_def)
  note login = h [unfolded this]
  have parses: "jw_parse (ae_jw sample_api_env) (jw_dump (ae_jw sample_api_env) u r e)
      = Some \<lparr>pl_username = Claim u, pl_role = Claim r, pl_exp = Claim e\<rparr>" for u r e
    using sample_jwt_parses by (simp add: sample_api_env_def)
  let ?rq = "\<lparr>aq_http = \<lparr>rq_url = ''/api/users'', rq_authorization = Some (''Bearer '' @ ?token), rq_cookie = None\<rparr>,
      aq_body = None, aq_param = Map.empty\<rparr>"
  have "auth_passes (sample_api_env\<lparr>ae_now_sec := 1800\<rparr>) ?rq
      (fold serve [(Users_delete ''u'', sample_api_env, sample_request ''admin'' None)] s1)"
    using login_token_outlives_account [OF parses login, of "sample_api_env\<lparr>ae_now_sec := 1800\<rparr>" ?rq
        "[(Users_delete ''u'', sample_api_env, sample_request ''admin'' None)]"]
    by (simp add: sample_api_env_def)
  with login show ?thesis by (metis fst_conv)
qed

text \<open>
  C39: An uploaded configuration does not last: the table of nodes is not read again, so the next time the
  configuration is applied its outbounds are those of the nodes in memory, and every outbound of the
  upload is gone.
\<close>

theorem uploaded_outbounds_are_lost:
  assumes "admin_passes env rq s" "aq_body rq = Some body" "validate_json body"
    and "admin_passes env2 rq2 (snd (handle V2rayn_config_put env rq s))" "aq_body rq2 = Some (JObj [])"
    and "handle Nodes_apply env2 rq2 (snd (handle V2rayn_config_put env rq s)) = (Reply 200 j, s2)"
  shows "fst (handle V2rayn_config_put env rq s) = ok_reply
    \<and> vm_nodes (as_vm s2) = vm_nodes (as_vm s)
    \<and> (\<exists>config. vm_config_file (as_vm s2) = Some config
        \<and> cf_outbounds config = Some (map build_vmess_outbound (vm_nodes (as_vm s))
             @ [plain_outbound ''freedom'' ''direct'', plain_outbound ''blackhole'' ''block'']))"
proof -
  let ?s1 = "snd (handle V2rayn_config_put env rq s)"
  have put: "handle V2rayn_config_put env rq s = (ok_reply, s\<lparr>as_vm := save_config_json env body (as_vm s)\<rparr>)"
    using assms(3) by (simp add: put_v2rayn_config_def admin_guard_passed [OF assms(1)] with_body_def assms(2))
  then have nodes: "vm_nodes (as_vm ?s1) = vm_nodes (as_vm s)" by (simp add: save_config_json_def)
  have reply: "apply_reply Unhandled env2 rq2 ?s1 = (Reply 200 j, s2)"
    using assms(6) by (simp add: post_apply_def admin_guard_passed [OF assms(4) [simplified]] assms(5) jvalue_def)
  obtain r vm where applied: "apply_config (ae_vm env2) (as_vm ?s1) = (r, vm)" by fastforce
  with reply have ok: "r = Done" and s2: "as_vm s2 = vm"
    by (cases r; auto simp: apply_reply_def set_vm_def)+
  have "\<exists>s3. save_to_config (ae_vm env2) (as_vm ?s1) = (Done, s3) \<and> vm_nodes vm = vm_nodes s3
      \<and> vm_config_file vm = vm_config_file s3"
    using applied ok by (auto simp: apply_config_def split: prod.splits vm_result.splits)
  then obtain s3 where s3: "save_to_config (ae_vm env2) (as_vm ?s1) = (Done, s3)" "vm_nodes vm = vm_nodes s3"
    "vm_config_file vm = vm_config_file s3" by blast
  from s3(1) obtain config where "build_full_config (vm_nodes (as_vm ?s1)) (vm_config_file (as_vm ?s1)) (vm_active (as_vm ?s1)) = Some config"
      "vm_config_file s3 = Some config" "vm_nodes s3 = vm_nodes (as_vm ?s1)"
    by (auto simp: save_to_config_def split: option.splits if_splits)
  then show ?thesis using built_outbounds put s2 s3 nodes by simp
qed

theorem uploaded_outbounds_are_lost_witness:
  "\<exists>config. vm_config_file (as_vm (snd (handle Nodes_apply sample_api_env (sample_request ''admin'' (Some (JObj [])))
       (snd (handle V2rayn_config_put sample_api_env
          (sample_request ''admin'' (Some (JObj [(''inbounds'', JArr []), (''outbounds'', JArr [])]))) sample_api_state)))))
     = Some config
     \<and> cf_outbounds config = Some (map build_vmess_outbound (vm_nodes sample_system)
         @ [plain_outbound ''freedom'' ''direct'', plain_outbound ''blackhole'' ''block''])"
proof -
  let ?body = "JObj [(''inbounds'', JArr []), (''outbounds'', JArr [])]"
  have a: "admin_passes sample_api_env (sample_request ''admin'' (Some ?body)) sample_api_state"
    by (rule sample_admin_passes) (simp add: sample_api_state_def)
  have v: "validate_json ?body" by (simp add: validate_json_def is_array_def)
  let ?s1 = "snd (handle V2rayn_config_put sample_api_env (sample_request ''admin'' (Some ?body)) sample_api_state)"
  have s1: "?s1 = sample_api_state\<lparr>as_vm := sample_system\<lparr>vm_config_file := Some empty_config\<rparr>\<rparr>"
    by (simp add: put_v2rayn_config_def admin_guard_passed [OF a] with_body_def sample_body v save_config_json_def)
      (simp add: sample_api_env_def sample_env_def sample_api_state_def)
  have a2: "admin_passes sample_api_env (sample_request ''admin'' (Some (JObj []))) ?s1"
    unfolding s1 by (rule sample_admin_passes) (simp add: sample_api_state_def)
  have env: "ae_vm sample_api_env = sample_env" by (simp add: sample_api_env_def)
  have "fst (apply_config sample_env (sample_system\<lparr>vm_config_file := Some empty_config\<rparr>)) = Done"
    by (simp add: apply_config_def save_to_config_def build_full_config_def validate_config_def sample_system_def
        empty_config_def sample_env_def Let_def)
  then obtain vm where vm: "apply_config sample_env (sample_system\<lparr>vm_config_file := Some empty_config\<rparr>) = (Done, vm)"
    by (metis prod.collapse)
  have "\<exists>j s2. handle Nodes_apply sample_api_env (sample_request ''admin'' (Some (JObj []))) ?s1 = (Reply 200 j, s2)"
    unfolding s1
    by (simp add: post_apply_def admin_guard_passed [OF a2 [unfolded s1]] sample_body jvalue_def apply_reply_def
        env vm ok_members_def)
  then obtain j s2 where h: "handle Nodes_apply sample_api_env (sample_request ''admin'' (Some (JObj []))) ?s1 = (Reply 200 j, s2)"
    by blast
  from uploaded_outbounds_are_lost [OF a sample_body v a2 sample_body h] h
  show ?thesis by (simp add: sample_api_state_def)
qed

end
