(* ===== verification/Program.thy ===== *)
theory Program
  imports Web_Api_Properties Session
begin

text \<open>
  \<^verbatim>\<open>src/src/main.cpp\<close>: the whole program. It reads its settings, initialises every component with them,
  starts the servers, watches the child process until a signal arrives, and stops everything. The
  state is that of the management interface with the parts only sessions and the main function use.
  What the components log is not part of the state.
\<close>

section \<open>State\<close>

record program =
  pr_api :: api_state
  pr_limiter :: rate_limiter
  pr_scanner :: timeout_scanner
  pr_crow :: crow_server
  pr_ws :: ws_handler
  pr_running :: bool

text \<open>
  What the start finds: the command line, every file by its path, and what the system answers
  (\<open>bo_binds\<close>: whether a port can be opened, \<open>bo_forked\<close>: the result of \<^verbatim>\<open>fork\<close>).
\<close>

record boot =
  bo_args :: "string list"
  bo_config_files :: "string \<Rightarrow> config_file"
  bo_user_files :: "string \<Rightarrow> users_doc"
  bo_rule_files :: "string \<Rightarrow> rules_doc"
  bo_v2rayn_files :: "string \<Rightarrow> config_doc option"
  bo_remarks_files :: "string \<Rightarrow> (string \<rightharpoonup> string) option"
  bo_random :: "nat \<Rightarrow> nat"
  bo_crypto :: crypto
  bo_geoip_opens :: bool
  bo_binds :: "16 word \<Rightarrow> bool"
  bo_forked :: int
  bo_nofile :: "int option"
  bo_first_line :: "string \<Rightarrow> string option"

datatype boot_end = Boot_exit | Boot_throws

section \<open>Starting\<close>

text \<open>Where \<^verbatim>\<open>vm_node_manager\<close> keeps the remarks.\<close>

definition remarks_path :: "string \<Rightarrow> string" where
  "remarks_path config_path =
     (case rfind_char CHR ''/'' config_path of None \<Rightarrow> config_path | Some i \<Rightarrow> take i config_path)
       @ ''/../data/vmess_remarks.json''"

text \<open>The supervisor is started, then the nodes are loaded; \<open>None\<close> where loading them throws.\<close>

definition boot_upstream :: "boot \<Rightarrow> system_config \<Rightarrow> vm_system option" where
  "boot_upstream bo c =
     (let vp = snd (process_start (sc_v2rayn_executable_path c) (sc_v2rayn_config_path c)
                      (sc_log_file_path c @ ''v2rayn.log'') (bo_forked bo) new_v2rayn_process)
      in case load_from_config
               \<lparr>vm_nodes = [], vm_active = '''', vm_config_file = bo_v2rayn_files bo (sc_v2rayn_config_path c),
                vm_remarks_file = bo_remarks_files bo (remarks_path (sc_v2rayn_config_path c)),
                vm_health = new_health_checker, vm_balancer = new_load_balancer, vm_process = vp\<rparr> of
           (Threw, vm) \<Rightarrow> None
         | (r, vm) \<Rightarrow>
             Some (vm\<lparr>vm_balancer := lb_init (strategy_from_string (sc_schedule_strategy c)) (sc_ip_affinity_enabled c)
                        (sc_ip_affinity_timeout_sec c) (sc_ip_affinity_max_records c)
                        (sc_node_capacity_threshold c) (vm_balancer vm),
                      vm_health := fst (health_start (health_init (sc_health_check_interval_sec c)
                        (sc_health_probe_timeout_sec c) (sc_health_failure_threshold c) (vm_health vm)))\<rparr>))"

definition program_start :: "boot \<Rightarrow> boot_end + program" where
  "program_start bo =
     (case startup_config (bo_config_files bo) (bo_random bo) (bo_crypto bo) (bo_args bo) of
        Inl Cli_exit \<Rightarrow> Inl Boot_exit
      | Inl Cli_throws \<Rightarrow> Inl Boot_throws
      | Inr (valid, cl) \<Rightarrow>
          let c = cl_config cl
          in case boot_upstream bo c of
               None \<Rightarrow> Inl Boot_throws
             | Some vm \<Rightarrow>
                 (case server_start (bo_binds bo) (sc_proxy_port c) (sc_proxy_thread_count c) new_server_app of
                    None \<Rightarrow> Inl Boot_throws
                  | Some server \<Rightarrow>
                      Inr \<lparr>pr_api =
                        \<lparr>as_config = cl, as_config_files = bo_config_files bo, as_secret = sc_jwt_secret c,
                         as_login = \<lparr>lg_fail_count = Map.empty, lg_lock_until = Map.empty\<rparr>,
                         as_users = snd (load_users (bo_user_files bo) (sc_user_data_path c) new_user_manager),
                         as_user_files = bo_user_files bo,
                         as_routes = engine_init (bo_rule_files bo) (bo_geoip_opens bo) (sc_builtin_rules_path c)
                           (sc_custom_rules_path c) (sc_geoip_db_path c) (sc_default_route_action c) new_route_engine,
                         as_rule_files = bo_rule_files bo, as_vm = vm, as_log = broadcast_callback True new_logger,
                         as_audit = [], as_traffic = new_metrics_collector,
                         as_metrics = fst (start_history_collection new_concurrency_metrics),
                         as_admitter = admitter_init (sc_max_total_connections c) (sc_max_per_user c) True 200 60
                           new_connection_admitter,
                         as_overload = overload_init (sc_fd_threshold_pct c) (sc_mem_threshold_pct c)
                           (sc_max_total_connections c) (sc_max_per_user c) new_overload_protector,
                         as_registry = Map.empty,
                         as_tuner = snd (run_startup_check (bo_nofile bo) (bo_first_line bo)), as_server = server\<rparr>,
                        pr_limiter = rate_limiter_init (sc_max_conn_per_ip_per_sec c) (sc_max_auth_fails_per_min c)
                          (sc_ban_duration_sec c) new_rate_limiter,
                        pr_scanner = fst (scanner_start (scanner_init 30 15 (sc_idle_timeout_sec c) 28800 5
                          new_timeout_scanner)),
                        pr_crow = crow_run (crow_init ''0.0.0.0'' (sc_web_ui_port c) (sc_web_ui_https_enabled c)
                          (sc_cert_path c) (sc_key_path c) \<lparr>ws_bind_addr = ''0.0.0.0'', ws_port = 8080, ws_up = False\<rparr>),
                        pr_ws = new_ws_handler, pr_running = True\<rparr>))"

section \<open>Running and stopping\<close>

definition SIGTERM_NO :: int where "SIGTERM_NO = 15"

definition SIGINT_NO :: int where "SIGINT_NO = 2"

definition signal_handler :: "int \<Rightarrow> program \<Rightarrow> program" where
  "signal_handler sig p = (if sig = SIGTERM_NO \<or> sig = SIGINT_NO then p\<lparr>pr_running := False\<rparr> else p)"

definition on_vm :: "(vm_system \<Rightarrow> vm_system) \<Rightarrow> program \<Rightarrow> program" where
  "on_vm f p = p\<lparr>pr_api := (pr_api p)\<lparr>as_vm := f (as_vm (pr_api p))\<rparr>\<rparr>"

text \<open>One round of the loop of \<^verbatim>\<open>main\<close>.\<close>

definition main_tick :: "time_point \<Rightarrow> int \<Rightarrow> int \<Rightarrow> program \<Rightarrow> program" where
  "main_tick now reaped forked p =
     (if \<not> pr_running p then p
      else on_vm (\<lambda>vm. vm\<lparr>vm_process := snd (check_child_exit now reaped forked (vm_process vm))\<rparr>) p)"

definition program_stop :: "nat option \<Rightarrow> program \<Rightarrow> program" where
  "program_stop gone_at p =
     (let api = pr_api p; vm = as_vm api
      in p\<lparr>pr_scanner := scanner_stop (pr_scanner p),
           pr_api := api\<lparr>as_metrics := stop_history_collection (as_metrics api),
             as_vm := vm\<lparr>vm_health := health_stop (vm_health vm),
                         vm_process := snd (process_stop gone_at (vm_process vm))\<rparr>,
             as_server := server_stop (as_server api)\<rparr>,
           pr_crow := crow_stop (pr_crow p)\<rparr>)"

section \<open>Sessions of the program\<close>

definition gateway_of :: "program \<Rightarrow> gateway" where
  "gateway_of p =
     \<lparr>gw_overload = as_overload (pr_api p), gw_limiter = pr_limiter p, gw_admitter = as_admitter (pr_api p),
      gw_registry = as_registry (pr_api p), gw_balancer = vm_balancer (as_vm (pr_api p)),
      gw_metrics = as_traffic (pr_api p), gw_concurrency = as_metrics (pr_api p)\<rparr>"

text \<open>
  What a session reads of the program: the accounts, the routes and the nodes. A check of a password
  that throws counts as refused here; a thrown exception ends the program.
\<close>

definition session_env ::
    "(string \<Rightarrow> mmdb_answer) \<Rightarrow> (string \<Rightarrow> string) \<Rightarrow> (string \<Rightarrow> string) \<Rightarrow> (rat \<Rightarrow> rat) \<Rightarrow> os_view \<Rightarrow> crypto \<Rightarrow> int
     \<Rightarrow> program \<Rightarrow> env" where
  "session_env mmdb v4 v6 rnd os cx now_sec p =
     (let api = pr_api p
      in \<lparr>en_auth = (\<lambda>user pass. authenticate cx (admin_account api) now_sec user pass (as_users api) = Some True),
          en_decide = (\<lambda>host ip. decide mmdb host ip (as_routes api)),
          en_v4 = v4, en_v6 = v6, en_rnd = rnd, en_os = os,
          en_tags = map vn_tag (list_nodes False (as_vm api)), en_health = vm_health (as_vm api)\<rparr>)"

section \<open>What the start establishes\<close>

lemma load_keeps:
  "load_from_config s = (r, t) \<Longrightarrow>
   vm_health t = vm_health s \<and> vm_balancer t = vm_balancer s \<and> vm_process t = vm_process s"
  by (auto simp: load_from_config_def Let_def split: option.splits)

lemma booted_upstream:
  assumes "boot_upstream bo c = Some vm"
  shows "vm_process vm = vp_step (Start (sc_v2rayn_executable_path c) (sc_v2rayn_config_path c)
      (sc_log_file_path c @ ''v2rayn.log'') (bo_forked bo)) new_v2rayn_process"
    and "vm_balancer vm = lb_init (strategy_from_string (sc_schedule_strategy c)) (sc_ip_affinity_enabled c)
      (sc_ip_affinity_timeout_sec c) (sc_ip_affinity_max_records c) (sc_node_capacity_threshold c) new_load_balancer"
    and "vm_health vm = (health_init (sc_health_check_interval_sec c) (sc_health_probe_timeout_sec c)
      (sc_health_failure_threshold c) new_health_checker)\<lparr>hc_running := True\<rparr>"
  using assms
  by (auto simp: boot_upstream_def Let_def health_start_def split: prod.splits vm_result.splits dest: load_keeps)

lemma stoi_int32: "stoi s = Some n \<Longrightarrow> int32 n"
  by (auto simp: stoi_def int32_def Let_def split: if_splits option.splits)

lemma config_wf_ports:
  "config_wf c \<Longrightarrow> int32 n \<Longrightarrow> config_wf (c\<lparr>sc_proxy_port := n\<rparr>)"
  "config_wf c \<Longrightarrow> int32 n \<Longrightarrow> config_wf (c\<lparr>sc_web_ui_port := n\<rparr>)"
  by (simp_all add: config_wf_def)

lemma cli_wf:
  "config_wf (cl_config cl) \<Longrightarrow> apply_cli_overrides fs rnd cx args cl = Inr cl' \<Longrightarrow> config_wf (cl_config cl')"
proof (induction fs rnd cx args cl rule: apply_cli_overrides.induct)
  case (2 fs rnd cx arg args cl)
  then show ?case
    by (auto simp: config_load_wf config_wf_ports stoi_int32 split: if_splits option.splits)
qed simp

lemma startup_config_wf:
  assumes "startup_config fs rnd cx args = Inr (valid, cl)"
  shows "config_wf (cl_config cl)"
proof -
  obtain cl0 where cl0: "apply_cli_overrides fs rnd cx args new_config_loader = Inr cl0"
    using assms by (auto simp: startup_config_def split: sum.splits)
  then have "config_wf (cl_config cl0)"
    using cli_wf [of new_config_loader] default_config_wf by (simp add: new_config_loader_def)
  then show ?thesis using assms cl0 config_load_wf by (auto simp: startup_config_def Let_def)
qed

text \<open>The parts of a started program, each in terms of the settings it was started with.\<close>

lemma started_parts:
  assumes "program_start bo = Inr p"
  shows "\<exists>valid. startup_config (bo_config_files bo) (bo_random bo) (bo_crypto bo) (bo_args bo)
      = Inr (valid, as_config (pr_api p))"
    and "boot_upstream bo (cfg_of (pr_api p)) = Some (as_vm (pr_api p))"
    and "server_start (bo_binds bo) (sc_proxy_port (cfg_of (pr_api p))) (sc_proxy_thread_count (cfg_of (pr_api p)))
      new_server_app = Some (as_server (pr_api p))"
    and "as_users (pr_api p) = snd (load_users (bo_user_files bo) (sc_user_data_path (cfg_of (pr_api p))) new_user_manager)"
    and "as_admitter (pr_api p) = admitter_init (sc_max_total_connections (cfg_of (pr_api p)))
      (sc_max_per_user (cfg_of (pr_api p))) True 200 60 new_connection_admitter"
    and "pr_limiter p = rate_limiter_init (sc_max_conn_per_ip_per_sec (cfg_of (pr_api p)))
      (sc_max_auth_fails_per_min (cfg_of (pr_api p))) (sc_ban_duration_sec (cfg_of (pr_api p))) new_rate_limiter"
    and "as_registry (pr_api p) = Map.empty" "as_secret (pr_api p) = sc_jwt_secret (cfg_of (pr_api p))"
    and "pr_running p"
  using assms
  by (auto simp: program_start_def Let_def split: sum.splits cli_end.splits prod.splits option.splits)

lemma started_weights: "program_start bo = Inr p \<Longrightarrow> weights_ok (vm_balancer (as_vm (pr_api p)))"
  using booted_upstream(2) [OF started_parts(2)]
  by (simp add: weights_ok_def lb_init_def new_load_balancer_def)

lemma started_process:
  assumes "program_start bo = Inr p" "bo_forked bo \<noteq> 0"
  shows "vp_inv (vm_process (as_vm (pr_api p)))"
  unfolding booted_upstream(1) [OF started_parts(2) [OF assms(1)]]
  by (rule vp_step_inv [OF new_vp_inv]) (simp add: assms(2))

lemma started_health:
  "program_start bo = Inr p \<Longrightarrow> 1 \<le> sc_health_failure_threshold (cfg_of (pr_api p))
   \<Longrightarrow> health_inv (vm_health (as_vm (pr_api p)))"
  using booted_upstream(3) [OF started_parts(2)] health_inv_init by (simp add: health_inv_def health_entry_def)

lemma started_affinity:
  "program_start bo = Inr p \<Longrightarrow> 1 \<le> sc_ip_affinity_max_records (cfg_of (pr_api p))
   \<Longrightarrow> affinity_tight (lb_affinity (vm_balancer (as_vm (pr_api p))))"
  using booted_upstream(2) [OF started_parts(2)] affinity_inv_init
  by (simp add: lb_init_def affinity_tight_def affinity_inv_def affinity_init_def new_load_balancer_def new_affinity_table_def)

lemma started_counters:
  assumes "program_start bo = Inr p"
  shows "adm_inv (as_admitter (pr_api p)) \<and> adm_balanced (as_admitter (pr_api p))" "counts_ok (pr_limiter p)"
  using started_parts(5,6) [OF assms]
  by (simp_all add: adm_inv_def adm_balanced_def admitter_init_def new_connection_admitter_def counts_ok_def
      rate_limiter_init_def new_rate_limiter_def counter_total_def)

section \<open>Stopping\<close>

lemma stopped_child: "vp_inv vp \<Longrightarrow> vp_pid (snd (process_stop gone_at vp)) = 0"
  by (auto simp: vp_inv_def vp_defs)

lemma stopped_parts:
  assumes "vp_inv (vm_process (as_vm (pr_api p)))"
  shows "\<not> ts_running (pr_scanner (program_stop gone_at p))" "\<not> sa_running (as_server (pr_api (program_stop gone_at p)))"
    and "\<not> hc_running (vm_health (as_vm (pr_api (program_stop gone_at p))))"
    and "vp_pid (vm_process (as_vm (pr_api (program_stop gone_at p)))) = 0"
  using stopped_child [OF assms]
  by (simp_all add: program_stop_def Let_def scanner_stop_def server_stop_def health_stop_def)

text \<open>After the signal the loop does nothing any more; the child of the last round is left to the stop.\<close>

lemma signalled_loop_idle:
  "sig = SIGTERM_NO \<or> sig = SIGINT_NO \<Longrightarrow> main_tick now reaped forked (signal_handler sig p) = signal_handler sig p"
  by (auto simp: signal_handler_def main_tick_def)

lemma main_tick_supervisor:
  "vp_inv (vm_process (as_vm (pr_api p))) \<Longrightarrow> forked \<noteq> 0
   \<Longrightarrow> vp_inv (vm_process (as_vm (pr_api (main_tick now reaped forked p))))"
  using vp_step_inv [of _ "Check now reaped forked"] by (simp add: main_tick_def on_vm_def)

section \<open>Restarting on what was written\<close>

lemma active_threw: "active_of_rules rs a = None \<Longrightarrow> active_of_rules rs b = None"
  by (induction rs a rule: active_of_rules.induct) (simp_all split: if_splits)

lemma load_threw: "vm_config_file t = vm_config_file s \<Longrightarrow> fst (load_from_config s) = Threw \<Longrightarrow> fst (load_from_config t) = Threw"
  by (auto simp: load_from_config_def Let_def split: option.splits dest: active_threw [where b = "vm_active t"])

lemma boot_threw:
  assumes "vm_config_file s = bo_v2rayn_files bo (sc_v2rayn_config_path c)" "fst (load_from_config s) = Threw"
  shows "boot_upstream bo c = None"
proof -
  have threw: "fst (load_from_config t) = Threw" if "vm_config_file t = bo_v2rayn_files bo (sc_v2rayn_config_path c)" for t
    using load_threw [OF _ assms(2)] that assms(1) by simp
  have none: "fst x = Threw \<Longrightarrow> (case x of (Threw, vm) \<Rightarrow> None | (_, vm) \<Rightarrow> Some (f vm)) = None" for x and f :: "vm_system \<Rightarrow> vm_system"
    by (cases x) simp
  show ?thesis unfolding boot_upstream_def Let_def by (rule none, rule threw) simp
qed

text \<open>Activating a node and applying it writes what saving the table with that node active writes.\<close>

lemma save_file_cong:
  assumes "vm_nodes s = vm_nodes t" "vm_config_file s = vm_config_file t" "vm_active s = vm_active t"
  shows "vm_config_file (snd (save_to_config env s)) = vm_config_file (snd (save_to_config env t))"
  using assms by (auto simp: save_to_config_def split: option.split)

lemma apply_is_save:
  "vm_config_file (snd (apply_config env s)) = vm_config_file (snd (save_to_config env s))"
  "vm_nodes (snd (apply_config env s)) = vm_nodes s" "vm_active (snd (apply_config env s)) = vm_active s"
  by (auto simp: apply_config_def save_to_config_def split: option.split)

lemma save_keeps:
  "vm_nodes (snd (save_to_config env s)) = vm_nodes s" "vm_active (snd (save_to_config env s)) = vm_active s"
  by (auto simp: save_to_config_def split: option.split)

text \<open>A request that activates a node that exists.\<close>

lemma activated:
  assumes "admin_passes env rq s" "aq_body rq = Some (JObj [(''node_tag'', JStr tag)])" "tag \<noteq> ''''"
    and "\<exists>n \<in> set (vm_nodes (as_vm s)). vn_tag n = tag"
  shows "as_vm (serve (Active_set, env, rq) s) = snd (apply_config (ae_vm env) ((as_vm s)\<lparr>vm_active := tag\<rparr>))"
  using assms(3,4)
  by (simp add: serve_def post_active_def admin_guard_passed [OF assms(1)] with_body_def assms(2) jvalue_def
      activate_then_apply_def set_active_node_def apply_reply_def set_vm_def split: prod.split)

lemma twice_activated:
  assumes "admin_passes env1 rq1 s" "admin_passes env2 rq2 (serve (Active_set, env1, rq1) s)"
    and "aq_body rq1 = Some (JObj [(''node_tag'', JStr tag)])" "aq_body rq2 = Some (JObj [(''node_tag'', JStr tag)])"
    and "tag \<noteq> ''''" "\<exists>n \<in> set (vm_nodes (as_vm s)). vn_tag n = tag"
  defines "v \<equiv> (as_vm s)\<lparr>vm_active := tag\<rparr>"
  shows "vm_config_file (as_vm (fold serve [(Active_set, env1, rq1), (Active_set, env2, rq2)] s))
    = vm_config_file (snd (save_to_config (ae_vm env2) (snd (save_to_config (ae_vm env1) v))))"
proof -
  let ?s1 = "serve (Active_set, env1, rq1) s"
  have s1: "as_vm ?s1 = snd (apply_config (ae_vm env1) v)"
    unfolding v_def by (rule activated [OF assms(1,3,5,6)])
  then have "\<exists>n \<in> set (vm_nodes (as_vm ?s1)). vn_tag n = tag" using assms(6) by (simp add: apply_is_save v_def)
  note second = activated [OF assms(2,4,5) this]
  show ?thesis
    by (simp add: second s1 apply_is_save) (rule save_file_cong, simp_all add: apply_is_save save_keeps v_def)
qed

section \<open>Accounts and sessions\<close>

text \<open>The program after a request of the interface.\<close>

definition with_api :: "api_state \<Rightarrow> program \<Rightarrow> program" where
  "with_api api p = p\<lparr>pr_api := api\<rparr>"

lemma deleted_user:
  assumes "admin_passes env rq s"
  shows "um_users (as_users (serve (Users_delete name, env, rq) s)) name = None"
    and "as_config (serve (Users_delete name, env, rq) s) = as_config s"
  by (auto simp: serve_def delete_user_def admin_guard_passed [OF assms] remove_user_def audit_def save_accounts_def)

lemma unknown_user_refused:
  assumes "um_users (as_users (pr_api p)) name = None" "name \<noteq> sc_admin_username (cfg_of (pr_api p))"
  shows "\<not> en_auth (session_env mmdb v4 v6 rnd os cx now_sec p) name pass"
  using assms by (simp add: session_env_def authenticate_def admin_account_def Let_def)

section \<open>A concrete start\<close>

definition sample_boot :: "(string \<Rightarrow> config_file) \<Rightarrow> (string \<Rightarrow> config_doc option) \<Rightarrow> boot" where
  "sample_boot config_files v2rayn_files =
     \<lparr>bo_args = [], bo_config_files = config_files, bo_user_files = (\<lambda>_. No_users_file), bo_rule_files = (\<lambda>_. No_file),
      bo_v2rayn_files = v2rayn_files, bo_remarks_files = (\<lambda>_. None), bo_random = (\<lambda>_. 7), bo_crypto = plain_crypto,
      bo_geoip_opens = False, bo_binds = (\<lambda>_. True), bo_forked = 77, bo_nofile = None, bo_first_line = (\<lambda>_. None)\<rparr>"

lemma malformed_startup:
  "fs ''config/default_system.json'' = Malformed
   \<Longrightarrow> startup_config fs rnd cx [] = Inr (False, new_config_loader\<lparr>cl_path := ''config/default_system.json''\<rparr>)"
  by (simp add: startup_config_def config_load_def Let_def config_validate_def new_config_loader_def default_config_def)

lemma malformed_settings:
  assumes "program_start bo = Inr p" "bo_args bo = []" "bo_config_files bo ''config/default_system.json'' = Malformed"
  shows "cfg_of (pr_api p) = default_config"
proof -
  have "new_config_loader\<lparr>cl_path := ''config/default_system.json''\<rparr> = as_config (pr_api p)"
    using started_parts(1) [OF assms(1)] malformed_startup [of "bo_config_files bo", OF assms(3)] assms(2) by simp
  from this [symmetric] show ?thesis by (simp add: new_config_loader_def)
qed

lemma sample_start: "\<exists>p. program_start (sample_boot (\<lambda>_. Malformed) (\<lambda>_. None)) = Inr p"
proof -
  have "\<exists>vm. boot_upstream (sample_boot (\<lambda>_. Malformed) (\<lambda>_. None)) c = Some vm" for c
    by (simp add: boot_upstream_def sample_boot_def load_from_config_def Let_def)
  moreover have "\<exists>sa. server_start (\<lambda>_. True) port n new_server_app = Some sa" for port n
    by (simp add: server_start_def new_server_app_def Let_def)
  ultimately show ?thesis
    by (auto simp: program_start_def Let_def malformed_startup [of "\<lambda>_. Malformed", OF refl] sample_boot_def
        split: option.split) (metis option.distinct(1))+
qed

section \<open>Properties\<close>



text \<open>
  C16: A malformed configuration file hands the program over: started without arguments, it goes on with an
  empty secret where nothing else keeps it from starting, and from then on a token that anybody can sign passes the administrator's guard of every route.
\<close>

theorem malformed_start_opens_admin:
  assumes "program_start bo = Inr p" "bo_args bo = []" "bo_config_files bo ''config/default_system.json'' = Malformed"
    and "\<And>u r e. jw_parse (ae_jw env) (jw_dump (ae_jw env) u r e)
      = Some \<lparr>pl_username = Claim u, pl_role = Claim r, pl_exp = Claim e\<rparr>"
    and "rq_authorization (aq_http rq) = Some (''Bearer '' @ jwt_sign (ae_jw env) '''' issued user ''admin'' 30)"
    and "ae_now_sec env < issued + 1800"
  shows "as_secret (pr_api p) = '''' \<and> admin_passes env rq (fold serve xs (pr_api p))"
proof -
  have cfg: "cfg_of (pr_api p) = default_config" by (rule malformed_settings [OF assms(1-3)])
  then have secret: "as_secret (pr_api p) = ''''" using started_parts(8) [OF assms(1)] by (simp add: default_config_def)
  have "\<exists>cl. startup_config (bo_config_files bo) (bo_random bo) (bo_crypto bo) [] = Inr (False, cl)
      \<and> require_admin (ae_jw env) (sc_jwt_secret (cl_config cl)) (ae_now_sec env) (aq_http rq) = Pass"
    by (rule malformed_config_opens_admin [where user = user and now = issued]) (rule assms)+
  then have "require_admin (ae_jw env) '''' (ae_now_sec env) (aq_http rq) = Pass"
    using malformed_startup [of "bo_config_files bo", OF assms(3)] by (auto simp: new_config_loader_def default_config_def)
  with secret show ?thesis by (simp add: admin_passes_def run_secret)
qed

theorem malformed_start_opens_admin_witness:
  "\<exists>p. program_start (sample_boot (\<lambda>_. Malformed) (\<lambda>_. None)) = Inr p
    \<and> admin_passes sample_api_env
        \<lparr>aq_http = \<lparr>rq_url = ''/api/users'', rq_authorization = Some (''Bearer '' @ jwt_sign sample_jwt '''' 0 ''m'' ''admin'' 30),
           rq_cookie = None\<rparr>, aq_body = None, aq_param = Map.empty\<rparr> (pr_api p)"
proof -
  let ?bo = "sample_boot (\<lambda>_. Malformed) (\<lambda>_. None)"
  obtain p where p: "program_start ?bo = Inr p" using sample_start by blast
  have env: "ae_jw sample_api_env = sample_jwt" "ae_now_sec sample_api_env = 5" by (simp_all add: sample_api_env_def)
  show ?thesis
    using malformed_start_opens_admin [OF p, of sample_api_env _ 0 "''m''" "[]"] p sample_jwt_parses
    by (simp add: env sample_boot_def)
qed

text \<open>
  C15: Two clicks of the administrator disable the program: after a node whose tag does not begin with
  vmess- has been activated twice, the file that was written makes the next start end in an exception.
\<close>

theorem custom_tag_stops_next_start:
  assumes "admin_passes env1 rq1 s" "admin_passes env2 rq2 (serve (Active_set, env1, rq1) s)"
    and "aq_body rq1 = Some (JObj [(''node_tag'', JStr tag)])" "aq_body rq2 = Some (JObj [(''node_tag'', JStr tag)])"
    and "tag \<noteq> ''''" "\<not> vmess_prefixed tag" "\<exists>n \<in> set (vm_nodes (as_vm s)). vn_tag n = tag"
    and "list_all is_rule (rules_of (vm_config_file (as_vm s)))"
    and "ve_config_writable (ae_vm env1)" "ve_config_writable (ae_vm env2)"
    and "startup_config (bo_config_files bo) (bo_random bo) (bo_crypto bo) (bo_args bo) = Inr (valid, cl)"
    and "bo_v2rayn_files bo (sc_v2rayn_config_path (cl_config cl))
      = vm_config_file (as_vm (fold serve [(Active_set, env1, rq1), (Active_set, env2, rq2)] s))"
  shows "program_start bo = Inl Boot_throws"
proof -
  let ?v = "(as_vm s)\<lparr>vm_active := tag\<rparr>"
  let ?w = "snd (save_to_config (ae_vm env2) (snd (save_to_config (ae_vm env1) ?v)))"
  have "fst (load_from_config ?w) = Threw"
    using custom_tag_breaks_file [of ?v "ae_vm env1" "ae_vm env2"] assms(5,6,8-10) by (simp add: Let_def)
  then have "boot_upstream bo (cl_config cl) = None"
    using twice_activated [OF assms(1-5,7)] assms(12) by (intro boot_threw [of ?w]) simp_all
  then show ?thesis by (simp add: program_start_def assms(11) Let_def)
qed

theorem custom_tag_stops_next_start_witness:
  "let rq = sample_request ''admin'' (Some (JObj [(''node_tag'', JStr ''tokyo'')]));
       file = vm_config_file (as_vm (fold serve [(Active_set, sample_api_env, rq), (Active_set, sample_api_env, rq)]
         sample_api_state))
   in program_start (sample_boot (\<lambda>_. Malformed) (\<lambda>_. file)) = Inl Boot_throws"
proof -
  let ?rq = "sample_request ''admin'' (Some (JObj [(''node_tag'', JStr ''tokyo'')]))"
  let ?s1 = "serve (Active_set, sample_api_env, ?rq) sample_api_state"
  let ?s2 = "fold serve [(Active_set, sample_api_env, ?rq), (Active_set, sample_api_env, ?rq)] sample_api_state"
  let ?bo = "sample_boot (\<lambda>_. Malformed) (\<lambda>_. vm_config_file (as_vm ?s2))"
  have vm: "as_vm sample_api_state = sample_system" "ae_vm sample_api_env = Vm_Node_Manager.sample_env"
    by (simp_all add: sample_api_state_def sample_api_env_def)
  have secret: "as_secret sample_api_state = ''secret''" by (simp add: sample_api_state_def)
  then have "as_secret ?s1 = ''secret''" by (simp add: serve_def handle_secret del: handle.simps)
  note passes = sample_admin_passes [OF secret] sample_admin_passes [OF this]
  have "\<exists>n \<in> set (vm_nodes (as_vm sample_api_state)). vn_tag n = ''tokyo''" by (simp add: vm sample_system_def)
  moreover have "list_all is_rule (rules_of (vm_config_file (as_vm sample_api_state)))" by (simp add: vm sample_rules(2))
  moreover have "startup_config (bo_config_files ?bo) (bo_random ?bo) (bo_crypto ?bo) (bo_args ?bo)
      = Inr (False, new_config_loader\<lparr>cl_path := ''config/default_system.json''\<rparr>)"
    unfolding sample_boot_def boot.simps by (rule malformed_startup) simp
  moreover have "ve_config_writable (ae_vm sample_api_env)" by (simp add: vm Vm_Node_Manager.sample_env_def)
  moreover have "\<not> vmess_prefixed ''tokyo''" by (simp add: vmess_prefixed_def)
  moreover have "bo_v2rayn_files ?bo p = vm_config_file (as_vm ?s2)" for p by (simp add: sample_boot_def)
  ultimately show ?thesis
    unfolding Let_def by (intro custom_tag_stops_next_start [OF passes sample_body sample_body]) simp_all
qed

text \<open>
  C2: A deleted account cannot be used for a new connection: once the administrator's request to delete
  it, under a name other than the administrator's own, has been answered, no session that starts afterwards relays a byte, opens a tunnel or connects
  anywhere under its name, whatever the order and the outcomes of its operations.
\<close>

theorem deleted_account_cannot_relay:
  assumes "admin_passes env rq (pr_api p)" "name \<noteq> sc_admin_username (cfg_of (pr_api p))"
  defines "q \<equiv> with_api (serve (Users_delete name, env, rq) (pr_api p)) p"
  assumes "session_run (session_env mmdb v4 v6 rnd os cx now_sec q) es
      (session_start (session_env mmdb v4 v6 rnd os cx now_sec q) now ip port (gateway_of q, new_session sid)) = Some (g', s')"
    and "s_to_remote s' \<noteq> [] \<or> s_tunnel_active s' \<or> (\<exists>po \<in> set (s_pending s'). \<not> handshake_op po \<and> \<not> closing_op po)"
  shows "s_username s' \<noteq> name"
proof
  assume "s_username s' = name"
  moreover obtain pass where "en_auth (session_env mmdb v4 v6 rnd os cx now_sec q) (s_username s') pass"
    using past_handshake_logged_in [OF started_run_auth_inv [OF assms(4)] assms(5)] by blast
  moreover have "um_users (as_users (pr_api q)) name = None" "cfg_of (pr_api q) = cfg_of (pr_api p)"
    using deleted_user [OF assms(1), of name] by (simp_all add: q_def with_api_def)
  ultimately show False using unknown_user_refused [of q name] assms(2) by simp
qed

definition sample_program :: program where
  "sample_program = \<lparr>pr_api = sample_api_state\<lparr>as_users := snd (add_user plain_crypto 0 ''v'' ''p'' 0 (as_users sample_api_state))\<rparr>,
     pr_limiter = new_rate_limiter, pr_scanner = new_timeout_scanner,
     pr_crow = crow_init ''0.0.0.0'' 8080 True '''' '''' \<lparr>ws_bind_addr = ''0.0.0.0'', ws_port = 8080, ws_up = False\<rparr>,
     pr_ws = new_ws_handler, pr_running = True\<rparr>"

text \<open>The program after the deletion, as a session of \<open>u\<close> sees it.\<close>

definition sample_mmdb :: "string \<Rightarrow> mmdb_answer" where
  "sample_mmdb ip = \<lparr>mm_gai_error = 1, mm_mmdb_error = 0, mm_found_entry = False, mm_value_status = 0,
     mm_has_data = False, mm_is_utf8_string = False, mm_text = ''''\<rparr>"

definition sample_view :: env where
  "sample_view = Session.sample_env\<lparr>en_tags := [''vmess-1'', ''tokyo''],
     en_decide := (\<lambda>host ip. decide sample_mmdb host ip new_route_engine),
     en_auth := (\<lambda>user pass. authenticate plain_crypto (''admin'', '''') 0 user pass
       (snd (add_user plain_crypto 0 ''u'' ''p'' 0 new_user_manager)) = Some True)\<rparr>"

lemma sample_view_run:
  "map_option (\<lambda>(g, s). (s_pending s, s_username s))
     (session_run sample_view sample_login (session_start sample_view 0 ''ip'' ''1'' (fresh_gateway, new_session ''sid'')))
   = Some ([Resolve_upstream], ''u'')"
  by code_simp

lemma sample_session_env:
  "session_env sample_mmdb id id id \<lparr>rlim_nofile = None, fd_lines = 0, meminfo = None\<rparr> plain_crypto 0
     (with_api (serve (Users_delete ''v'', sample_api_env, sample_request ''admin'' None) (pr_api sample_program))
       sample_program) = sample_view"
  "gateway_of (with_api (serve (Users_delete ''v'', sample_api_env, sample_request ''admin'' None) (pr_api sample_program))
     sample_program) = fresh_gateway"
proof -
  have passes: "admin_passes sample_api_env (sample_request ''admin'' None) (pr_api sample_program)"
    by (rule sample_admin_passes) (simp add: sample_program_def sample_api_state_def)
  have "remove_user ''v'' (as_users (pr_api sample_program)) = (True, as_users sample_api_state)"
    by (auto simp: sample_program_def sample_api_state_def remove_user_def add_user_def new_user_manager_def Let_def)
  then have "\<exists>f a. serve (Users_delete ''v'', sample_api_env, sample_request ''admin'' None) (pr_api sample_program)
      = sample_api_state\<lparr>as_user_files := f, as_audit := a\<rparr>"
    by (auto simp: serve_def delete_user_def admin_guard_passed [OF passes] audit_def save_accounts_def)
      (simp add: sample_program_def, blast)
  then obtain f a where s: "serve (Users_delete ''v'', sample_api_env, sample_request ''admin'' None) (pr_api sample_program)
      = sample_api_state\<lparr>as_user_files := f, as_audit := a\<rparr>" by blast
  show "session_env sample_mmdb id id id \<lparr>rlim_nofile = None, fd_lines = 0, meminfo = None\<rparr> plain_crypto 0
     (with_api (serve (Users_delete ''v'', sample_api_env, sample_request ''admin'' None) (pr_api sample_program))
       sample_program) = sample_view"
    by (simp add: s with_api_def session_env_def sample_view_def Session.sample_env_def list_nodes_def sample_api_state_def
        sample_system_def sample_node_def admin_account_def new_config_loader_def default_config_def)
  show "gateway_of (with_api (serve (Users_delete ''v'', sample_api_env, sample_request ''admin'' None) (pr_api sample_program))
     sample_program) = fresh_gateway"
    by (simp add: s with_api_def gateway_of_def fresh_gateway_def)
      (simp add: sample_program_def sample_api_state_def sample_system_def)
qed

theorem deleted_account_cannot_relay_witness:
  "\<exists>g s. session_run sample_view sample_login
       (session_start sample_view 0 ''ip'' ''1'' (fresh_gateway, new_session ''sid'')) = Some (g, s)
     \<and> s_pending s = [Resolve_upstream] \<and> s_username s \<noteq> ''v''"
proof -
  obtain g s where run: "session_run sample_view sample_login
       (session_start sample_view 0 ''ip'' ''1'' (fresh_gateway, new_session ''sid'')) = Some (g, s)"
    and pending: "s_pending s = [Resolve_upstream]"
    using sample_view_run by (auto simp: map_option_case split: option.splits)
  have passes: "admin_passes sample_api_env (sample_request ''admin'' None) (pr_api sample_program)"
    by (rule sample_admin_passes) (simp add: sample_program_def sample_api_state_def)
  have "''v'' \<noteq> sc_admin_username (cfg_of (pr_api sample_program))"
    by (simp add: sample_program_def sample_api_state_def new_config_loader_def default_config_def)
  from deleted_account_cannot_relay [OF passes this run [folded sample_session_env]] pending run
  show ?thesis by (auto simp: handshake_op_def closing_op_def)
qed

end
