(* ===== verification/Spec2Isabelle.thy ===== *)
theory Spec2Isabelle
  imports
    Prelude
    Counters
    Rate_Limiter
    Overload_Protector
    Connection_Admitter
    Connection_Registry
    IP_Affinity
    Node_Health
    Smooth_Weighted
    Load_Balancer
    Cpp_Strings
    Metrics
    Route_Engine
    Session_Protocol
    Session
    Session_Relay
    Session_Accounting
    V2rayn_Process
    User_Manager
    Web_Auth
    Vm_Node
    Vm_Config
    Vm_Link_Codec
    Vm_Node_Manager
    Json
    Config_Loader
    Log_Buffer
    System_Tuner
    Servers
    Api_Views
    Web_Api
    Web_Api_Routes
    Web_Api_Safety
    Web_Api_Properties
    Program
begin

text \<open>
  A verification library for the LAN proxy gateway under \<^verbatim>\<open>src/src\<close>: a C++ program that accepts SOCKS5
  and HTTP proxy clients, admits and authenticates them, decides per connection between the direct
  way and an upstream node, relays the bytes, and is administered over an HTTP interface.

  \<^bold>\<open>The program and its model.\<close> Every component of the program is a singleton object with a mutex.
  Its model is a record of the members that matter and one function per method, which takes the
  state and returns the new one; a method is one atomic step. Time is an argument (nanoseconds of the
  steady clock, or seconds of the system clock, as in the code), and so is what the operating system
  or a library answers. Machine integers are words, or integers with the wrap-around written out
  (\<open>to_int32\<close>); a hash map is a partial map, and where the code iterates over one the order is an
  argument, constrained to be an enumeration of the keys (\<open>iterates\<close>). Exceptions, refusals and
  undefined behaviour are values of the result type.

  \<^bold>\<open>Library.\<close> \<open>Prelude\<close> has the clock arithmetic, the enumeration of maps, the default of a missing JSON
  member and the locale \<open>stepper\<close> of an operation that keeps an invariant, which every component with
  sequences of operations interprets. \<open>Counters\<close> has the locale of a table of counters with its
  interpretations in the admitter, the registry and the balancer. \<open>Cpp_Strings\<close> has the string
  operations, \<^verbatim>\<open>stoi\<close> and \<^verbatim>\<open>to_string\<close>, and base64 with the proof that decoding inverts encoding.

  \<^bold>\<open>Admission\<close> (\<^verbatim>\<open>concurrency/\<close>). \<open>Rate_Limiter\<close>: the window of connections and failures per address and
  the ban. \<open>Overload_Protector\<close>: the checks of descriptors, memory and totals. \<open>Connection_Admitter\<close>: the
  limits, the queue and its order. \<open>Connection_Registry\<close>: the records of live sessions and the scan for
  those that are due (\<^verbatim>\<open>timeout_scanner.cpp\<close>).

  \<^bold>\<open>Choice of the node\<close> (\<^verbatim>\<open>concurrency/\<close>). \<open>IP_Affinity\<close>: the list of addresses with an index of iterators,
  memory safety included, against an abstract table. \<open>Node_Health\<close>: the state of each node from probes
  and marks. \<open>Smooth_Weighted\<close> and \<open>Load_Balancer\<close>: the strategies, what they select and how often, and
  \<^verbatim>\<open>failover_handler.cpp\<close>.

  \<^bold>\<open>Routing and metrics.\<close> \<open>Route_Engine\<close>: rules, domain sets, GeoIP and the precedence among them, with
  the rule files (\<^verbatim>\<open>route_decision/\<close>). \<open>Metrics\<close>: \<^verbatim>\<open>metrics_collector.cpp\<close> and \<^verbatim>\<open>concurrency_metrics.cpp\<close>.

  \<^bold>\<open>Sessions\<close> (\<^verbatim>\<open>proxy_core/\<close>). \<open>Session_Protocol\<close>: the parsers and the messages. \<open>Session\<close>: the
  asynchronous handlers of \<^verbatim>\<open>session.cpp\<close>, as the set of pending operations of a session and the step a
  completion causes; every handler with the calls it makes of the components above. \<open>Session_Relay\<close>: the
  two directions of a relay. \<open>Session_Accounting\<close>: what a session leaves behind in the admitter, the
  limiter and the balancer.

  \<^bold>\<open>Upstream proxy\<close> (\<^verbatim>\<open>v2rayn_manager/\<close>). \<open>V2rayn_Process\<close>: the supervisor of the child process. \<open>Vm_Node\<close>,
  \<open>Vm_Config\<close>, \<open>Vm_Link_Codec\<close>: a node, its validation, the configuration file and the links, each with
  its round trip. \<open>Vm_Node_Manager\<close>: the table of nodes in memory and on disk.

  \<^bold>\<open>Administration\<close> (\<^verbatim>\<open>user_manager/\<close>, \<^verbatim>\<open>web_server/\<close>, \<^verbatim>\<open>config_manager/\<close>, \<^verbatim>\<open>log_monitor/\<close>).
  \<open>User_Manager\<close>: accounts, password hashes and their file. \<open>Web_Auth\<close>: tokens, guards and the login.
  \<open>Json\<close>: JSON values as the code reads and writes them. \<open>Config_Loader\<close>: the settings, their file, their
  validation and the command line. \<open>Log_Buffer\<close>: the recent entries of the log and the audit lines.
  \<open>System_Tuner\<close>: the checks of the system's limits.

  \<^bold>\<open>The management interface.\<close> \<open>Api_Views\<close>: the JSON forms of what the interface shows and takes, with the
  masking of credentials (\<^verbatim>\<open>v2rayn_config.cpp\<close>, the JSON part of \<^verbatim>\<open>vm_node_manager.cpp\<close>). \<open>Servers\<close>: the
  listening server, the web server and the websockets (\<^verbatim>\<open>server_app\<close>, \<^verbatim>\<open>crow_server.cpp\<close>,
  \<^verbatim>\<open>ws_handler.cpp\<close>). \<open>Web_Api\<close> and \<open>Web_Api_Routes\<close>: \<^verbatim>\<open>api_router.cpp\<close>, one function per route over the
  state of all components (\<open>api_state\<close>), \<open>route\<close> from a method and a path to a route and \<open>handle\<close> from a
  route to its handler. \<open>Web_Api_Safety\<close>: what every handler respects, by the locale \<open>handler_relation\<close> of a
  relation that the guards and the parsing of bodies preserve. \<open>Web_Api_Properties\<close>: sequences of requests.

  \<^bold>\<open>The whole program\<close> (\<^verbatim>\<open>main.cpp\<close>). \<open>Program\<close>: the start with everything it finds on disk (\<open>boot\<close>), the
  main loop, the signals and the stop; what the start establishes for the invariants of the
  components, and how requests to the interface act on later sessions and on the next start.

  \<^bold>\<open>Parameters.\<close> Code that is not under \<^verbatim>\<open>src/\<close> is an argument: the MaxMind lookup, the HMAC and the text
  of JSON (\<open>jwt_lib\<close>), PBKDF2 and the Python call (\<open>crypto\<close>), the block coder of OpenSSL (\<open>link_lib\<close>). The
  text of a JSON document is not modelled, its value is (\<open>json\<close>, or the record of the members the code
  reads). Their documented laws are named hypotheses, and the witness
  of such a property has a concrete instance.

  \<^bold>\<open>Bounds.\<close> No definition has fuel. The loops that are not structural have termination proofs
  (\<open>auto_tag_from\<close>, \<open>split_hosts\<close>, the queue's \<open>drain\<close>).

  \<^bold>\<open>Simplifications.\<close> The bytes of a relay count as written when their write is started, as the code counts
  them, so a write that then fails is among them. The candidates of a timeout scan and the scan read one
  clock. The offset of a page beyond the range of int wraps around. The counters of connections are
  unbounded. The file of the outbounds has members of the expected types: a value of another type, at
  which the loader would throw, cannot be expressed, except in the routing rules.

  \<^bold>\<open>Not modelled.\<close> Interleavings inside a method (a method runs under its mutex, or is one step here),
  threads other than as the operations they run, exceptions of
  \<^verbatim>\<open>remote_endpoint()\<close> for a client that is already gone and of the logger's initialisation, a port 0 (taken as it
  stands, where the system would choose one), the output of the log, the matching of paths and
  methods inside Crow beyond \<open>route\<close>, and what PROJECT.json lists as not modelled: the sink of the
  logging library (\<^verbatim>\<open>ws_sink.cpp\<close>), which nothing installs, the browser front end and the tests.
\<close>

end
